(* ===== verification/Prelude.thy ===== *)
theory Prelude
  imports Main "HOL-Library.Product_Lexorder"
begin

text \<open>
  Shared vocabulary of the development: the types every component names (row ids, calendar
  dates, instants), the exceptions a service may raise, and the generic functions that stand
  for idioms of the source: \<open>ORDER BY key DESC LIMIT 1\<close> and Python's \<open>max(xs, key=...)\<close>
  (\<open>max_by\<close>), banker's rounding as \<open>Decimal.quantize\<close> and \<open>round\<close> do it
  (\<open>round_half_even\<close>), \<open>dict\<close> lookups with a default, and the first row that matches
  a query (\<open>find\<close> of the library).
\<close>

section \<open>Types and exceptions\<close>

type_synonym uid = nat
type_synonym date = int
type_synonym instant = int

text \<open>
  A date is its day number counted from 1970-01-01, so that \<open>(a - b).days\<close> and
  \<open>d + timedelta(days=n)\<close> are subtraction and addition. An instant is a number of
  microseconds since the epoch in UTC, the resolution of Python's \<open>datetime\<close>.
  \<open>ApiError\<close> carries the HTTP status and the machine-readable code of
  \<open>core/errors.py\<close>; the English message is display text.
\<close>

datatype exn =
    ApiError nat string
  | IntegrityError
  | IndexError
  | KeyError
  | ValueError string
  | TypeError
  | RuntimeError string

type_synonym 'a result = "exn + 'a"

definition us_per_day :: int where
  "us_per_day = 86400000000"

definition days_us :: "int \<Rightarrow> instant" where
  "days_us n = n * us_per_day"

definition hours_us :: "int \<Rightarrow> instant" where
  "hours_us n = n * 3600000000"

definition is_ok :: "'a result \<Rightarrow> bool" where
  "is_ok r = (case r of Inl _ \<Rightarrow> False | Inr _ \<Rightarrow> True)"

lemma is_ok_simps [simp]: "is_ok (Inl e) = False" "is_ok (Inr x) = True"
  by (simp_all add: is_ok_def)

section \<open>Collections used by the component proofs\<close>

named_theorems preserve \<open>one lemma per operation: it keeps the component's invariant\<close>
named_theorems frame \<open>one lemma per operation: what it leaves unchanged\<close>

section \<open>The first greatest element under a key\<close>

fun max_by :: "('a \<Rightarrow> 'k::linorder) \<Rightarrow> 'a list \<Rightarrow> 'a option" where
  "max_by k [] = None"
| "max_by k (x # xs) =
     (case max_by k xs of
        None \<Rightarrow> Some x
      | Some y \<Rightarrow> if k x < k y then Some y else Some x)"

lemma max_by_None_iff [simp]: "max_by k xs = None \<longleftrightarrow> xs = []"
  by (cases xs) (auto split: option.splits)

lemma max_by_in_set: "max_by k xs = Some x \<Longrightarrow> x \<in> set xs"
  by (induction xs arbitrary: x) (auto split: option.splits if_splits)

lemma max_by_ge: "max_by k xs = Some x \<Longrightarrow> y \<in> set xs \<Longrightarrow> k y \<le> k x"
  by (induction xs arbitrary: x y) (fastforce split: option.splits if_splits)+

lemma max_by_Some_ex: "xs \<noteq> [] \<Longrightarrow> \<exists>x. max_by k xs = Some x"
  by (metis max_by_None_iff not_None_eq)

lemma max_by_eqI:
  assumes "x \<in> set xs" and "\<And>y. y \<in> set xs \<Longrightarrow> y \<noteq> x \<Longrightarrow> k y < k x"
  shows "max_by k xs = Some x"
proof -
  obtain y where y: "max_by k xs = Some y"
    using assms(1) max_by_Some_ex by fastforce
  with assms show ?thesis
    by (metis max_by_ge max_by_in_set not_le)
qed

section \<open>Rounding half to even\<close>

text \<open>
  \<open>round_half_even a b\<close> is \<open>a / b\<close> rounded to the nearest integer, ties to the even
  one: \<open>Decimal.quantize\<close> in the default context, on an exact quotient.
\<close>

definition round_half_even :: "int \<Rightarrow> int \<Rightarrow> int" where
  "round_half_even a b =
     (let q = a div b; r = a mod b
      in if 2 * r < b then q
         else if b < 2 * r then q + 1
         else if even q then q else q + 1)"

lemma round_half_even_error:
  assumes "0 < b"
  shows "2 * \<bar>b * round_half_even a b - a\<bar> \<le> b"
proof -
  define q r where "q = a div b" and "r = a mod b"
  have eq: "a = b * q + r" by (simp add: q_def r_def)
  have r: "0 \<le> r" "r < b" using assms by (simp_all add: r_def)
  have "round_half_even a b =
      (if 2 * r < b then q else if b < 2 * r then q + 1 else if even q then q else q + 1)"
    by (simp add: round_half_even_def q_def r_def)
  then show ?thesis using r by (auto simp: eq algebra_simps split: if_splits)
qed

lemma round_half_even_nonneg: "0 \<le> a \<Longrightarrow> 0 < b \<Longrightarrow> 0 \<le> round_half_even a b"
  by (auto simp: round_half_even_def Let_def pos_imp_zdiv_nonneg_iff add_nonneg_nonneg)

lemma round_half_even_le:
  assumes "0 < b" and "a \<le> b * n"
  shows "round_half_even a b \<le> n"
proof (rule ccontr)
  assume "\<not> round_half_even a b \<le> n"
  then have "n + 1 \<le> round_half_even a b" by simp
  then have "b * (n + 1) \<le> b * round_half_even a b"
    using assms(1) by (simp add: mult_left_mono)
  then have "b * n + b \<le> b * round_half_even a b" by (simp add: algebra_simps)
  with assms(1,2) round_half_even_error [OF assms(1), of a] show False by simp
qed

lemma round_half_even_exact [simp]: "0 < b \<Longrightarrow> round_half_even (b * n) b = n"
  by (simp add: round_half_even_def)

lemma round_half_even_mono:
  assumes "0 < b" and "a \<le> a'"
  shows "round_half_even a b \<le> round_half_even a' b"
proof (rule ccontr)
  assume less: "\<not> round_half_even a b \<le> round_half_even a' b"
  then have "round_half_even a' b + 1 \<le> round_half_even a b" by simp
  then have "b * (round_half_even a' b + 1) \<le> b * round_half_even a b"
    using assms(1) by (simp add: mult_left_mono)
  then have "b * round_half_even a' b + b \<le> b * round_half_even a b" by (simp add: algebra_simps)
  moreover have "2 * (p - a) \<le> b" if "2 * \<bar>p - a\<bar> \<le> b" for p a :: int using that by arith
  moreover have "2 * (a - p) \<le> b" if "2 * \<bar>p - a\<bar> \<le> b" for p a :: int using that by arith
  ultimately have "a' \<le> a"
    using round_half_even_error [OF assms(1), of a] round_half_even_error [OF assms(1), of a']
    by (smt (verit))
  with assms(2) less show False by simp
qed

lemma round_half_even_scale:
  "0 < k \<Longrightarrow> 0 < b \<Longrightarrow> round_half_even (a * k) (b * k) = round_half_even a b"
  by (simp add: round_half_even_def Let_def mult.commute [of _ k])

lemma int_div_less_iff:
  fixes x k n :: int
  assumes "0 < k"
  shows "x div k < n \<longleftrightarrow> x < n * k"
proof -
  define q r where "q = x div k" and "r = x mod k"
  have x: "x = k * q + r" by (simp add: q_def r_def)
  have r: "0 \<le> r" "r < k" using assms by (simp_all add: r_def)
  have "q < n \<longleftrightarrow> x < n * k"
  proof (cases "q < n")
    case True
    then have "k * (q + 1) \<le> k * n" using assms by (simp add: mult_left_mono)
    then have "k * q + k \<le> n * k" by (simp add: algebra_simps)
    with True r x show ?thesis by linarith
  next
    case False
    then have "n * k \<le> k * q" using assms by (simp add: mult.commute mult_left_mono)
    with False r x show ?thesis by linarith
  qed
  then show ?thesis by (simp add: q_def)
qed

lemma int_div_succ:
  fixes n k :: int
  assumes "0 < k"
  shows "(n + 1) div k = n div k + (if (n + 1) mod k = 0 then 1 else 0)"
proof -
  define q r where "q = (n + 1) div k" and "r = (n + 1) mod k"
  have n: "n + 1 = k * q + r" by (simp add: q_def r_def)
  have r: "0 \<le> r" "r < k" using assms by (simp_all add: r_def)
  have "n div k = (if r = 0 then q - 1 else q)"
  proof (cases "r = 0")
    case True
    then have "n = k * (q - 1) + (k - 1)" using n by (simp add: algebra_simps)
    then have "n div k = q - 1" using assms by (intro int_div_pos_eq [of _ _ _ "k - 1"]) simp_all
    with True show ?thesis by simp
  next
    case False
    then have "n div k = q" using n r by (intro int_div_pos_eq [of _ _ _ "r - 1"]) simp_all
    with False show ?thesis by simp
  qed
  then show ?thesis by (simp add: q_def r_def)
qed

section \<open>Lists\<close>

lemma find_Some_iff_set: "(\<exists>x. find P xs = Some x) \<longleftrightarrow> (\<exists>x\<in>set xs. P x)"
  by (metis find_None_iff2 not_None_eq)

lemma find_SomeD: "find P xs = Some x \<Longrightarrow> x \<in> set xs \<and> P x"
  by (induction xs) (auto split: if_splits)

lemma find_append: "find P (xs @ ys) = (case find P xs of None \<Rightarrow> find P ys | Some x \<Rightarrow> Some x)"
  by (induction xs) auto

lemma length_filter_Un:
  "length (filter P xs) + length (filter (\<lambda>x. \<not> P x) xs) = length xs"
  by (rule sum_length_filter_compl)

lemma length_le_1:
  assumes "distinct xs" and "\<And>x y. x \<in> set xs \<Longrightarrow> y \<in> set xs \<Longrightarrow> x = y"
  shows "length xs \<le> 1"
proof (cases xs)
  case (Cons x ys)
  show ?thesis
  proof (cases ys)
    case (Cons y zs)
    with \<open>xs = x # ys\<close> have "x = y" by (intro assms(2)) simp_all
    with assms(1) \<open>xs = x # ys\<close> Cons show ?thesis by simp
  qed (simp add: \<open>xs = x # ys\<close>)
qed simp

lemma filter_unique:
  assumes "distinct xs" and "x \<in> set xs" and "P x" and "\<And>y. y \<in> set xs \<Longrightarrow> P y \<Longrightarrow> y = x"
  shows "filter P xs = [x]"
proof -
  obtain ys zs where xs: "xs = ys @ x # zs" using assms(2) by (meson split_list)
  have "\<not> P y" if y: "y \<in> set ys \<union> set zs" for y
  proof
    assume "P y"
    with y xs have "y = x" by (intro assms(4)) auto
    with y xs assms(1) show False by auto
  qed
  then have "filter P ys = []" "filter P zs = []" by (simp_all add: filter_empty_conv)
  with xs assms(3) show ?thesis by simp
qed

lemma distinct_map_filter_eq:
  "distinct (map f xs) \<Longrightarrow> x \<in> set xs \<Longrightarrow> y \<in> set xs \<Longrightarrow> f x = f y \<Longrightarrow> x = y"
  by (metis distinct_map inj_onD)

end
