(* ===== verification/Clock.thy ===== *)
theory Clock
  imports Prelude
begin

text \<open>
  Local calendar dates (\<open>core/timezones.py\<close>) and the two calendar computations of the
  notification jobs: the ISO week a recap reports (\<open>email/recap.py\<close>) and the first day of
  the following month (\<open>jobs/partitions.py\<close>). The zone database behind \<open>zoneinfo\<close> is
  data outside the repository, so the UTC offset in force at an instant (\<open>off\<close>, in
  microseconds) and the offset with which a wall-clock time is read back (\<open>woff\<close>) are
  parameters.
\<close>

section \<open>Local dates\<close>

definition local_date_for :: "(string \<Rightarrow> instant \<Rightarrow> int) \<Rightarrow> string \<Rightarrow> instant \<Rightarrow> date" where
  "local_date_for off tz now = (now + off tz now) div us_per_day"

definition local_day_end_utc :: "(string \<Rightarrow> int \<Rightarrow> int) \<Rightarrow> string \<Rightarrow> date \<Rightarrow> instant" where
  "local_day_end_utc woff tz d =
     (let wall = days_us (d + 1) in wall - woff tz wall)"

text \<open>With a fixed offset the two agree: before the end of day \<open>d\<close> means on or before \<open>d\<close>.\<close>

lemma local_day_end_separates:
  assumes "\<And>t. off tz t = c" and "\<And>w. woff tz w = c"
  shows "t < local_day_end_utc woff tz d \<longleftrightarrow> local_date_for off tz t \<le> d"
proof -
  have "t < local_day_end_utc woff tz d \<longleftrightarrow> t + c < (d + 1) * us_per_day"
    by (auto simp: local_day_end_utc_def days_us_def assms Let_def)
  also have "\<dots> \<longleftrightarrow> (t + c) div us_per_day < d + 1"
    by (rule int_div_less_iff [symmetric]) (simp add: us_per_day_def)
  also have "\<dots> \<longleftrightarrow> local_date_for off tz t \<le> d"
    by (simp add: local_date_for_def assms)
  finally show ?thesis .
qed

section \<open>Weeks\<close>

definition weekday :: "date \<Rightarrow> int" where
  "weekday d = (d + 3) mod 7"

definition week_bounds :: "date \<Rightarrow> date \<times> date" where
  "week_bounds local_date =
     (let this_monday = local_date - weekday local_date;
          last_monday = this_monday - 7
      in (last_monday, last_monday + 6))"

lemma weekday_range: "0 \<le> weekday d" "weekday d < 7"
  by (simp_all add: weekday_def)

lemma weekday_shift: "weekday (d - weekday d) = 0"
proof -
  have "(d - (d + 3) mod 7 + 3) mod 7 = (d + 3 - (d + 3) mod 7) mod 7" by (simp add: algebra_simps)
  also have "\<dots> = 0" by (metis diff_self mod_0 mod_diff_right_eq)
  finally show ?thesis by (simp add: weekday_def)
qed

section \<open>Months\<close>

text \<open>The first day of a month as \<open>(year, month)\<close>, ordered as the dates are.\<close>

type_synonym month = "int \<times> int"

definition first_day_of_next_month :: "month \<Rightarrow> month" where
  "first_day_of_next_month m = (if snd m = 12 then (fst m + 1, 1) else (fst m, snd m + 1))"

definition valid_month :: "month \<Rightarrow> bool" where
  "valid_month m \<longleftrightarrow> 1 \<le> snd m \<and> snd m \<le> 12"

definition month_index :: "month \<Rightarrow> int" where
  "month_index m = 12 * fst m + (snd m - 1)"

lemma next_month_valid: "valid_month m \<Longrightarrow> valid_month (first_day_of_next_month m)"
  by (auto simp: valid_month_def first_day_of_next_month_def)

lemma next_month_index: "month_index (first_day_of_next_month m) = month_index m + 1"
  by (auto simp: month_index_def first_day_of_next_month_def)

lemma month_index_le:
  "valid_month a \<Longrightarrow> valid_month b \<Longrightarrow> a \<le> b \<longleftrightarrow> month_index a \<le> month_index b"
  by (auto simp: less_eq_prod_def less_prod_def valid_month_def month_index_def)

end
