(* ===== verification/Config.thy ===== *)
theory Config
  imports Prelude
begin

text \<open>
  The settings of \<open>backend/app/config.py\<close> that the modelled code reads, one field per
  variable, and their defaults. Every component takes the settings as an argument, as the
  code calls \<open>get_settings()\<close>.
\<close>

record settings =
  STREAK_FREEZE_START :: int
  STREAK_FREEZE_MAX :: int
  STREAK_FREEZE_EARN_EVERY :: int
  STREAK_REPAIR_WINDOW_H :: int
  RATE_LIMIT_ATTEMPTS_PER_MINUTE :: nat
  GRADER_TIMEOUT_S :: int
  SUMMARIZE_ENABLED :: bool
  EMAIL_VERIFICATION_TTL_H :: int
  EMAIL_VERIFICATION_RESEND_COOLDOWN_S :: int
  EMAIL_VERIFICATION_SENDS_PER_HOUR :: nat
  EMAIL_SEND_MAX_ATTEMPTS :: nat
  EMAIL_SEND_RETRY_WINDOW_H :: int
  EMAIL_JOB_BATCH_SIZE :: nat
  EMAIL_MAX_SENDS_PER_TICK :: nat
  RECAP_LOCAL_WEEKDAY :: int
  RECAP_LOCAL_HOUR :: int
  REFRESH_TOKEN_TTL_DAYS :: int
  BETA_GATE_ENABLED :: bool
  TRUSTED_PROXY_COUNT :: int

definition default_settings :: settings where
  "default_settings =
     \<lparr>STREAK_FREEZE_START = 2,
      STREAK_FREEZE_MAX = 2,
      STREAK_FREEZE_EARN_EVERY = 10,
      STREAK_REPAIR_WINDOW_H = 48,
      RATE_LIMIT_ATTEMPTS_PER_MINUTE = 10,
      GRADER_TIMEOUT_S = 6,
      SUMMARIZE_ENABLED = False,
      EMAIL_VERIFICATION_TTL_H = 24,
      EMAIL_VERIFICATION_RESEND_COOLDOWN_S = 60,
      EMAIL_VERIFICATION_SENDS_PER_HOUR = 5,
      EMAIL_SEND_MAX_ATTEMPTS = 3,
      EMAIL_SEND_RETRY_WINDOW_H = 24,
      EMAIL_JOB_BATCH_SIZE = 200,
      EMAIL_MAX_SENDS_PER_TICK = 100,
      RECAP_LOCAL_WEEKDAY = 0,
      RECAP_LOCAL_HOUR = 9,
      REFRESH_TOKEN_TTL_DAYS = 60,
      BETA_GATE_ENABLED = False,
      TRUSTED_PROXY_COUNT = 1\<rparr>"

end
