(* ===== verification/Streak.thy ===== *)
theory Streak
  imports Clock Config "HOL-Library.AList"
begin

text \<open>
  The streak component: \<open>streak/service.py\<close> (freeze accrual and consumption, outage fill,
  repair), the streak transition of \<open>attempts/service.py\<close> and the reconciliation of
  \<open>jobs/streak_recon.py\<close>. The state is the two tables they write, \<open>user_stats\<close> and
  the ledger \<open>streak_events\<close>. A function that raises returns \<open>Inl\<close>; its transaction is
  rolled back, so no new state is returned with the error.
\<close>

section \<open>Tables\<close>

record user_stats =
  current_streak :: int
  longest_streak :: int
  last_active_local_date :: "date option"
  streak_freezes :: int
  total_attempts :: int
  total_correct :: int
  accuracy_by_type :: "string \<rightharpoonup> int \<times> int"

datatype event_kind = Extended | Reset | FreezeUsed | Repaired | Adjusted

text \<open>
  The note of a ledger row, one constructor per message of the code with the values the
  message interpolates. The two \<open>LIKE\<close> tests of the code, for the anchor of a repair and
  for the marker of the initial grant, are \<open>has_anchor\<close> and \<open>is_initial_grant\<close>: only
  one kind of message contains either text.
\<close>

datatype event_note =
    NoNote
  | FreezeSpent date int int
  | FreezeEarned int int int int
  | Outage
  | InitialGrant int
  | StreakRepaired int date int int int int nat
  | TimezoneRepair string string date date

fun has_anchor :: "nat \<Rightarrow> event_note \<Rightarrow> bool" where
  "has_anchor i (StreakRepaired _ _ _ _ _ _ j) = (i = j)"
| "has_anchor i _ = False"

fun is_initial_grant :: "event_note \<Rightarrow> bool" where
  "is_initial_grant (InitialGrant _) = True"
| "is_initial_grant _ = False"

record streak_event =
  ev_id :: nat
  ev_user :: uid
  ev_kind :: event_kind
  from_value :: int
  to_value :: int
  ev_local_date :: date
  ev_note :: event_note
  created_at :: instant

record streak_db =
  stats_tbl :: "(uid \<times> user_stats) list"
  events :: "streak_event list"
  next_event_id :: nat

definition empty_streak_db :: streak_db where
  "empty_streak_db = \<lparr>stats_tbl = [], events = [], next_event_id = 1\<rparr>"

definition get_stats_row :: "streak_db \<Rightarrow> uid \<Rightarrow> user_stats option" where
  "get_stats_row db u = map_of (stats_tbl db) u"

definition put_stats :: "uid \<Rightarrow> user_stats \<Rightarrow> streak_db \<Rightarrow> streak_db" where
  "put_stats u s db = db\<lparr>stats_tbl := AList.update u s (stats_tbl db)\<rparr>"

definition add_event ::
    "instant \<Rightarrow> uid \<Rightarrow> event_kind \<Rightarrow> int \<Rightarrow> int \<Rightarrow> date \<Rightarrow> event_note \<Rightarrow> streak_db \<Rightarrow> streak_db" where
  "add_event now u k f t d n db =
     db\<lparr>events := events db @
          [\<lparr>ev_id = next_event_id db, ev_user = u, ev_kind = k, from_value = f, to_value = t,
            ev_local_date = d, ev_note = n, created_at = now\<rparr>],
        next_event_id := Suc (next_event_id db)\<rparr>"

definition add_rows ::
    "instant \<Rightarrow> event_kind \<Rightarrow> (uid \<times> int \<times> date \<times> event_note) list \<Rightarrow> streak_db \<Rightarrow> streak_db" where
  "add_rows now k rows db = fold (\<lambda>(u, v, d, n). add_event now u k v v d n) rows db"

text \<open>
  The partial unique index of migration 0007: at most one \<open>extended\<close> or \<open>reset\<close> row
  per user and local date.
\<close>

definition is_transition :: "event_kind \<Rightarrow> bool" where
  "is_transition k \<longleftrightarrow> k = Extended \<or> k = Reset"

definition unique_violation :: "streak_db \<Rightarrow> uid \<Rightarrow> date \<Rightarrow> bool" where
  "unique_violation db u d \<longleftrightarrow>
     (\<exists>e\<in>set (events db). ev_user e = u \<and> ev_local_date e = d \<and> is_transition (ev_kind e))"

definition events_of :: "uid \<Rightarrow> streak_db \<Rightarrow> streak_event list" where
  "events_of u db = filter (\<lambda>e. ev_user e = u) (events db)"

section \<open>Freezes\<close>

definition new_user_stats :: "settings \<Rightarrow> user_stats" where
  "new_user_stats S =
     \<lparr>current_streak = 0, longest_streak = 0, last_active_local_date = None,
      streak_freezes = STREAK_FREEZE_START S, total_attempts = 0, total_correct = 0,
      accuracy_by_type = Map.empty\<rparr>"

text \<open>\<open>db.get(UserStats, id)\<close>, or the row every writer creates when there is none.\<close>

definition stats_or_new :: "settings \<Rightarrow> streak_db \<Rightarrow> uid \<Rightarrow> user_stats" where
  "stats_or_new S db u = (case get_stats_row db u of None \<Rightarrow> new_user_stats S | Some s \<Rightarrow> s)"

definition missed_dates :: "date \<Rightarrow> date \<Rightarrow> date list" where
  "missed_dates last_active today =
     map (\<lambda>k. last_active + int k) [1..<nat (today - last_active)]"

definition covered_dates :: "streak_db \<Rightarrow> uid \<Rightarrow> date list \<Rightarrow> date list" where
  "covered_dates db u ds =
     map ev_local_date
       (filter (\<lambda>e. ev_user e = u \<and> ev_kind e = FreezeUsed \<and> ev_local_date e \<in> set ds)
          (events db))"

definition try_cover_gap ::
    "settings \<Rightarrow> instant \<Rightarrow> uid \<Rightarrow> user_stats \<Rightarrow> date \<Rightarrow> date \<Rightarrow> streak_db
       \<Rightarrow> bool \<times> user_stats \<times> streak_db" where
  "try_cover_gap S now u stats last_active today db =
     (let missed = missed_dates last_active today in
      if missed = [] then (False, stats, db)
      else
        (let already = covered_dates db u missed;
             uncovered = filter (\<lambda>d. d \<notin> set already) missed;
             payable = min (streak_freezes stats) (STREAK_FREEZE_MAX S)
         in if int (length uncovered) > payable then (False, stats, db)
            else
              (let stats' = stats\<lparr>streak_freezes := streak_freezes stats - int (length uncovered)\<rparr>
               in (True, stats',
                   add_rows now FreezeUsed
                     (map (\<lambda>d. (u, current_streak stats', d,
                        FreezeSpent d (streak_freezes stats' + 1) (streak_freezes stats'))) uncovered)
                     db))))"

definition accrue_freeze_if_earned ::
    "settings \<Rightarrow> instant \<Rightarrow> uid \<Rightarrow> user_stats \<Rightarrow> date \<Rightarrow> streak_db
       \<Rightarrow> bool \<times> user_stats \<times> streak_db" where
  "accrue_freeze_if_earned S now u stats today db =
     (let every = STREAK_FREEZE_EARN_EVERY S in
      if every \<le> 0 \<or> current_streak stats \<le> 0 \<or> current_streak stats mod every \<noteq> 0
      then (False, stats, db)
      else if STREAK_FREEZE_MAX S \<le> streak_freezes stats then (False, stats, db)
      else
        (let held_before = streak_freezes stats;
             stats' = stats\<lparr>streak_freezes := held_before + 1\<rparr>
         in (True, stats',
             add_event now u Adjusted (current_streak stats') (current_streak stats') today
               (FreezeEarned (current_streak stats') every held_before (streak_freezes stats')) db)))"

definition outage_freeze :: "instant \<Rightarrow> date \<Rightarrow> streak_db \<Rightarrow> nat \<times> streak_db" where
  "outage_freeze now d db =
     (let rows = filter (\<lambda>(u, s). last_active_local_date s \<noteq> None \<and>
                   \<not> (\<exists>e\<in>set (events db). ev_user e = u \<and> ev_local_date e = d \<and>
                        ev_kind e = FreezeUsed)) (stats_tbl db)
      in (length rows,
          add_rows now FreezeUsed (map (\<lambda>(u, s). (u, current_streak s, d, Outage)) rows) db))"

definition grant_initial_freezes :: "settings \<Rightarrow> instant \<Rightarrow> date \<Rightarrow> streak_db \<Rightarrow> nat \<times> streak_db" where
  "grant_initial_freezes S now d db =
     (let grant = min (STREAK_FREEZE_START S) (STREAK_FREEZE_MAX S);
          due = (\<lambda>(u, s). streak_freezes s < grant \<and>
                   \<not> (\<exists>e\<in>set (events db). ev_user e = u \<and> ev_kind e = Adjusted \<and>
                        is_initial_grant (ev_note e)));
          rows = filter due (stats_tbl db);
          db' = db\<lparr>stats_tbl := map (\<lambda>(u, s). if due (u, s) then (u, s\<lparr>streak_freezes := grant\<rparr>)
                                               else (u, s)) (stats_tbl db)\<rparr>
      in (length rows,
          add_rows now Adjusted (map (\<lambda>(u, s). (u, current_streak s, d, InitialGrant grant)) rows)
            db'))"

section \<open>The transition of a submit\<close>

record streak_info =
  si_current :: int
  si_event :: event_kind

text \<open>The \<open>if\<close>/\<open>elif\<close>/\<open>else\<close> that decides between extending and resetting.\<close>

definition streak_transition ::
    "settings \<Rightarrow> instant \<Rightarrow> uid \<Rightarrow> user_stats \<Rightarrow> date \<Rightarrow> streak_db
       \<Rightarrow> event_kind \<times> int \<times> user_stats \<times> streak_db" where
  "streak_transition S now u stats today db =
     (case last_active_local_date stats of
        None \<Rightarrow> (Extended, current_streak stats + 1, stats, db)
      | Some l \<Rightarrow>
          if l = today - 1 then (Extended, current_streak stats + 1, stats, db)
          else
            (let (covered, stats', db') = try_cover_gap S now u stats l today db in
             if covered then (Extended, current_streak stats + 1, stats', db')
             else (Reset, 1, stats', db')))"

text \<open>The row of the transition, the new streak, and the freeze an extension may earn.\<close>

definition record_transition ::
    "settings \<Rightarrow> instant \<Rightarrow> uid \<Rightarrow> date \<Rightarrow> int \<Rightarrow> event_kind \<Rightarrow> int \<Rightarrow> user_stats \<Rightarrow> streak_db
       \<Rightarrow> user_stats \<times> streak_db" where
  "record_transition S now u today from event to stats db =
     (let stats' = stats\<lparr>current_streak := to, longest_streak := max (longest_streak stats) to,
                         last_active_local_date := Some today\<rparr>;
          db' = add_event now u event from to today NoNote db
      in if event = Extended then snd (accrue_freeze_if_earned S now u stats' today db')
         else (stats', db'))"

text \<open>The row a submit works on, with the attempt counted.\<close>

definition submitted_stats :: "settings \<Rightarrow> streak_db \<Rightarrow> uid \<Rightarrow> user_stats" where
  "submitted_stats S db u =
     (let s = stats_or_new S db u in s\<lparr>total_attempts := total_attempts s + 1\<rparr>)"

definition update_streak_and_attempt_count ::
    "settings \<Rightarrow> instant \<Rightarrow> uid \<Rightarrow> date \<Rightarrow> streak_db \<Rightarrow> (streak_info option \<times> streak_db) result" where
  "update_streak_and_attempt_count S now u today db =
     (let stats = submitted_stats S db u in
      if last_active_local_date stats = Some today then Inr (None, put_stats u stats db)
      else
        (let (event, to, stats1, db1) = streak_transition S now u stats today db in
         if unique_violation db1 u today then Inl IntegrityError
         else
           (let (stats3, db3) =
                  record_transition S now u today (current_streak stats) event to stats1 db1
            in Inr (Some \<lparr>si_current = to, si_event = event\<rparr>, put_stats u stats3 db3))))"

section \<open>Repair\<close>

record restorable_reset =
  reset_id :: nat
  rr_from_value :: int
  rr_local_date :: date
  rr_run :: int

definition restores_to :: "restorable_reset \<Rightarrow> int" where
  "restores_to r = rr_from_value r + rr_run r"

definition load_restorable ::
    "settings \<Rightarrow> instant \<Rightarrow> uid \<Rightarrow> streak_db \<Rightarrow> restorable_reset option" where
  "load_restorable S now u db =
     (let cutoff = now - hours_us (STREAK_REPAIR_WINDOW_H S) in
      case max_by (\<lambda>e. (created_at e, ev_id e))
             (filter (\<lambda>e. ev_kind e = Reset \<and> cutoff \<le> created_at e) (events_of u db)) of
        None \<Rightarrow> None
      | Some lr \<Rightarrow>
          (let run = (case max_by (\<lambda>e. (ev_local_date e, ev_id e))
                             (filter (\<lambda>e. is_transition (ev_kind e) \<and>
                                        ev_local_date lr \<le> ev_local_date e) (events_of u db)) of
                        None \<Rightarrow> 0 | Some e \<Rightarrow> to_value e);
               already = (\<exists>e\<in>set (events_of u db). ev_kind e = Repaired \<and>
                            has_anchor (ev_id lr) (ev_note e))
           in if already then None
              else Some \<lparr>reset_id = ev_id lr, rr_from_value = from_value lr,
                         rr_local_date = ev_local_date lr, rr_run = run\<rparr>))"

definition restorable_value :: "settings \<Rightarrow> instant \<Rightarrow> uid \<Rightarrow> streak_db \<Rightarrow> int option" where
  "restorable_value S now u db =
     (case load_restorable S now u db of
        None \<Rightarrow> None
      | Some r \<Rightarrow>
          (let current = (case get_stats_row db u of None \<Rightarrow> 0 | Some s \<Rightarrow> current_streak s)
           in if restores_to r \<le> current then None else Some (restores_to r)))"

definition repair_streak ::
    "settings \<Rightarrow> (string \<Rightarrow> instant \<Rightarrow> int) \<Rightarrow> instant \<Rightarrow> uid \<Rightarrow> string \<Rightarrow> streak_db
       \<Rightarrow> (int \<times> streak_db) result" where
  "repair_streak S off now u tz db =
     (case load_restorable S now u db of
        None \<Rightarrow> Inl (ApiError 409 ''not_repairable'')
      | Some r \<Rightarrow>
          (case get_stats_row db u of
             None \<Rightarrow> Inl (ApiError 409 ''not_repairable'')
           | Some stats \<Rightarrow>
               (let today = local_date_for off tz now; restored = restores_to r in
                if restored \<le> current_streak stats then Inl (ApiError 409 ''not_repairable'')
                else
                  (let held_before = current_streak stats;
                       stats' = stats\<lparr>current_streak := restored,
                                      longest_streak := max (longest_streak stats) restored\<rparr>
                   in Inr (restored,
                        add_event now u Repaired held_before restored today
                          (StreakRepaired (STREAK_REPAIR_WINDOW_H S) (rr_local_date r)
                             (rr_from_value r) held_before restored (rr_run r) (reset_id r))
                          (put_stats u stats' db))))))"

section \<open>Timezone change\<close>

definition reconcile_streak_for_timezone_change ::
    "(string \<Rightarrow> instant \<Rightarrow> int) \<Rightarrow> instant \<Rightarrow> uid \<Rightarrow> string \<Rightarrow> string \<Rightarrow> streak_db \<Rightarrow> streak_db" where
  "reconcile_streak_for_timezone_change off now u old_tz new_tz db =
     (if new_tz = old_tz then db
      else
        (case get_stats_row db u of
           None \<Rightarrow> db
         | Some stats \<Rightarrow>
             (case last_active_local_date stats of
                None \<Rightarrow> db
              | Some previous \<Rightarrow>
                  (let new_today = local_date_for off new_tz now in
                   if previous \<le> new_today then db
                   else
                     add_event now u Repaired (current_streak stats) (current_streak stats) new_today
                       (TimezoneRepair old_tz new_tz previous new_today)
                       (put_stats u (stats\<lparr>last_active_local_date := Some new_today\<rparr>) db)))))"

section \<open>Reading the tables after a write\<close>

lemma stats_tbl_add_event [simp]: "stats_tbl (add_event now u k f t d n db) = stats_tbl db"
  by (simp add: add_event_def)

lemma events_put_stats [simp]:
  "events (put_stats u s db) = events db" "next_event_id (put_stats u s db) = next_event_id db"
  by (simp_all add: put_stats_def)

lemma get_put_stats [simp]:
  "get_stats_row (put_stats u s db) v = (if v = u then Some s else get_stats_row db v)"
  by (simp add: get_stats_row_def put_stats_def update_conv')

lemma get_add_event [simp]: "get_stats_row (add_event now u k f t d n db) v = get_stats_row db v"
  by (simp add: get_stats_row_def)

lemma stats_tbl_add_rows [simp]: "stats_tbl (add_rows now k rows db) = stats_tbl db"
  by (induction rows arbitrary: db) (auto simp: add_rows_def)

lemma get_add_rows [simp]: "get_stats_row (add_rows now k rows db) v = get_stats_row db v"
  by (simp add: get_stats_row_def)

lemma next_event_id_add_rows [simp]:
  "next_event_id (add_rows now k rows db) = next_event_id db + length rows"
  by (induction rows arbitrary: db) (auto simp: add_rows_def add_event_def)

lemma events_add_rows:
  "events (add_rows now k rows db) =
     events db @ map (\<lambda>(i, u, v, d, n).
       \<lparr>ev_id = i, ev_user = u, ev_kind = k, from_value = v, to_value = v,
        ev_local_date = d, ev_note = n, created_at = now\<rparr>) (enumerate (next_event_id db) rows)"
  by (induction rows arbitrary: db) (auto simp: add_rows_def add_event_def)

lemma add_rows_Nil [simp]: "add_rows now k [] db = db"
  by (simp add: add_rows_def)

lemma add_rows_Cons:
  "add_rows now k ((u, v, d, n) # rows) db = add_rows now k rows (add_event now u k v v d n db)"
  by (simp add: add_rows_def)

lemma new_stats_simps [simp]:
  "current_streak (new_user_stats S) = 0" "longest_streak (new_user_stats S) = 0"
  "last_active_local_date (new_user_stats S) = None"
  "streak_freezes (new_user_stats S) = STREAK_FREEZE_START S"
  "total_attempts (new_user_stats S) = 0" "total_correct (new_user_stats S) = 0"
  by (simp_all add: new_user_stats_def)

lemma set_missed_dates: "set (missed_dates l t) = {d. l < d \<and> d < t}"
proof (rule subset_antisym)
  show "set (missed_dates l t) \<subseteq> {d. l < d \<and> d < t}" by (auto simp: missed_dates_def)
  show "{d. l < d \<and> d < t} \<subseteq> set (missed_dates l t)"
  proof
    fix d assume "d \<in> {d. l < d \<and> d < t}"
    then have "d = l + int (nat (d - l))" "nat (d - l) \<in> set [1..<nat (t - l)]" by auto
    then show "d \<in> set (missed_dates l t)" unfolding missed_dates_def set_map by (rule image_eqI)
  qed
qed

lemma distinct_missed_dates: "distinct (missed_dates l t)"
  by (auto simp: missed_dates_def distinct_map inj_on_def)

lemma missed_dates_Nil: "missed_dates l t = [] \<longleftrightarrow> t \<le> l + 1"
proof -
  have "missed_dates l t = [] \<longleftrightarrow> set (missed_dates l t) = {}" by simp
  also have "\<dots> \<longleftrightarrow> t \<le> l + 1" unfolding set_missed_dates
    by (auto dest: spec [of _ "l + 1"])
  finally show ?thesis .
qed

end
