(* ===== verification/Streak_Ledger.thy ===== *)
theory Streak_Ledger
  imports Streak
begin

text \<open>
  What the streak ledger promises. Replaying a user's rows in insertion order, each from the
  value the last one ended on, gives the streak the \<open>user_stats\<close> row holds
  (\<open>ledger_ok\<close>); the balance of freezes stays between 0 and the cap (\<open>tbl_ok\<close>). Both
  are kept by every operation, so they hold in every reachable state of the two tables.
\<close>

section \<open>The invariant\<close>

fun replay :: "int \<Rightarrow> streak_event list \<Rightarrow> int option" where
  "replay v [] = Some v"
| "replay v (e # es) = (if from_value e = v then replay (to_value e) es else None)"

lemma replay_append: "replay v (xs @ ys) = Option.bind (replay v xs) (\<lambda>w. replay w ys)"
  by (induction xs arbitrary: v) auto

definition event_ok :: "streak_event \<Rightarrow> bool" where
  "event_ok e \<longleftrightarrow> 0 \<le> from_value e \<and>
     (case ev_kind e of
        Extended \<Rightarrow> to_value e = from_value e + 1
      | Reset \<Rightarrow> to_value e = 1
      | Repaired \<Rightarrow> from_value e \<le> to_value e
      | FreezeUsed \<Rightarrow> to_value e = from_value e
      | Adjusted \<Rightarrow> to_value e = from_value e)"

definition cur_of :: "streak_db \<Rightarrow> uid \<Rightarrow> int" where
  "cur_of db u = (case get_stats_row db u of None \<Rightarrow> 0 | Some s \<Rightarrow> current_streak s)"

definition ledger_ok :: "(uid \<Rightarrow> int) \<Rightarrow> streak_db \<Rightarrow> bool" where
  "ledger_ok cur db \<longleftrightarrow>
     (\<forall>e\<in>set (events db). ev_id e < next_event_id db) \<and>
     distinct (map ev_id (events db)) \<and>
     (\<forall>e\<in>set (events db). event_ok e) \<and>
     (\<forall>e\<in>set (events db). \<forall>e'\<in>set (events db).
        is_transition (ev_kind e) \<and> is_transition (ev_kind e') \<and>
        ev_user e = ev_user e' \<and> ev_local_date e = ev_local_date e' \<longrightarrow> e = e') \<and>
     (\<forall>u. replay 0 (events_of u db) = Some (cur u))"

lemma ledger_okD:
  assumes "ledger_ok cur db"
  shows "\<And>e. e \<in> set (events db) \<Longrightarrow> ev_id e < next_event_id db"
    "distinct (map ev_id (events db))" "\<And>e. e \<in> set (events db) \<Longrightarrow> event_ok e"
    "\<And>e e'. e \<in> set (events db) \<Longrightarrow> e' \<in> set (events db) \<Longrightarrow> is_transition (ev_kind e) \<Longrightarrow>
       is_transition (ev_kind e') \<Longrightarrow> ev_user e = ev_user e' \<Longrightarrow>
       ev_local_date e = ev_local_date e' \<Longrightarrow> e = e'"
    "\<And>u. replay 0 (events_of u db) = Some (cur u)"
  using assms unfolding ledger_ok_def by blast+

definition stats_ok :: "settings \<Rightarrow> user_stats \<Rightarrow> bool" where
  "stats_ok S s \<longleftrightarrow> 0 \<le> current_streak s \<and> current_streak s \<le> longest_streak s \<and>
     0 \<le> streak_freezes s \<and> streak_freezes s \<le> STREAK_FREEZE_MAX S"

definition tbl_ok :: "settings \<Rightarrow> streak_db \<Rightarrow> bool" where
  "tbl_ok S db \<longleftrightarrow> distinct (map fst (stats_tbl db)) \<and> (\<forall>(u, s)\<in>set (stats_tbl db). stats_ok S s)"

definition streak_inv :: "settings \<Rightarrow> streak_db \<Rightarrow> bool" where
  "streak_inv S db \<longleftrightarrow> tbl_ok S db \<and> ledger_ok (cur_of db) db \<and>
     (\<forall>e\<in>set (events db). get_stats_row db (ev_user e) \<noteq> None)"

definition freeze_settings_ok :: "settings \<Rightarrow> bool" where
  "freeze_settings_ok S \<longleftrightarrow> 0 \<le> STREAK_FREEZE_START S \<and> STREAK_FREEZE_START S \<le> STREAK_FREEZE_MAX S"

section \<open>One row at a time\<close>

lemma events_of_add_event:
  "events_of v (add_event now u k f t d n db) = events_of v db @
     (if v = u then [\<lparr>ev_id = next_event_id db, ev_user = u, ev_kind = k, from_value = f,
        to_value = t, ev_local_date = d, ev_note = n, created_at = now\<rparr>] else [])"
  by (simp add: events_of_def add_event_def)

lemma ledger_put_stats [simp]: "ledger_ok cur (put_stats u s db) = ledger_ok cur db"
  by (simp add: ledger_ok_def events_of_def)

lemma ledger_stats_tbl [simp]: "ledger_ok cur (db\<lparr>stats_tbl := t\<rparr>) = ledger_ok cur db"
  by (simp add: ledger_ok_def events_of_def)

lemma cur_of_put_stats [simp]: "cur_of (put_stats u s db) = (cur_of db)(u := current_streak s)"
  by (auto simp: cur_of_def)

lemma cur_of_add_event [simp]: "cur_of (add_event now u k f t d n db) = cur_of db"
  by (auto simp: cur_of_def)

lemma cur_of_add_rows [simp]: "cur_of (add_rows now k rows db) = cur_of db"
  by (auto simp: cur_of_def)

lemma ledger_add_event:
  assumes ok: "ledger_ok cur db" and f: "f = cur u" "0 \<le> f"
    and k: "case k of Extended \<Rightarrow> t = f + 1 | Reset \<Rightarrow> t = 1 | Repaired \<Rightarrow> f \<le> t | _ \<Rightarrow> t = f"
    and uniq: "is_transition k \<Longrightarrow> \<not> unique_violation db u d"
  shows "ledger_ok (cur(u := t)) (add_event now u k f t d n db)"
proof -
  let ?db = "add_event now u k f t d n db"
  let ?e = "\<lparr>ev_id = next_event_id db, ev_user = u, ev_kind = k, from_value = f,
      to_value = t, ev_local_date = d, ev_note = n, created_at = now\<rparr>"
  have evs: "events ?db = events db @ [?e]" and nx: "next_event_id ?db = Suc (next_event_id db)"
    by (simp_all add: add_event_def)
  have ids: "\<forall>e\<in>set (events db). ev_id e < next_event_id db" and dist: "distinct (map ev_id (events db))"
    and oks: "\<forall>e\<in>set (events db). event_ok e"
    and one: "\<forall>e\<in>set (events db). \<forall>e'\<in>set (events db).
        is_transition (ev_kind e) \<and> is_transition (ev_kind e') \<and>
        ev_user e = ev_user e' \<and> ev_local_date e = ev_local_date e' \<longrightarrow> e = e'"
    and rep: "\<forall>u. replay 0 (events_of u db) = Some (cur u)"
    using ok by (simp_all add: ledger_ok_def)
  have "\<forall>e\<in>set (events ?db). ev_id e < next_event_id ?db" using ids by (auto simp: evs nx less_Suc_eq)
  moreover have "distinct (map ev_id (events ?db))" using dist ids by (auto simp: evs)
  moreover have "event_ok ?e" using f k by (auto simp: event_ok_def split: event_kind.splits)
  then have "\<forall>e\<in>set (events ?db). event_ok e" using oks by (auto simp: evs)
  moreover have "\<forall>e\<in>set (events ?db). \<forall>e'\<in>set (events ?db).
        is_transition (ev_kind e) \<and> is_transition (ev_kind e') \<and>
        ev_user e = ev_user e' \<and> ev_local_date e = ev_local_date e' \<longrightarrow> e = e'"
    using one uniq by (fastforce simp: evs unique_violation_def)
  moreover have "\<forall>v. replay 0 (events_of v ?db) = Some ((cur(u := t)) v)"
    using rep f by (simp add: events_of_add_event replay_append)
  ultimately show ?thesis by (simp add: ledger_ok_def)
qed

text \<open>Rows that carry the value unchanged, in bulk.\<close>

lemma ledger_add_rows:
  assumes "ledger_ok cur db" and "k = FreezeUsed \<or> k = Adjusted"
    and "\<forall>(u, v, d, n)\<in>set rows. v = cur u \<and> 0 \<le> v"
  shows "ledger_ok cur (add_rows now k rows db)"
  using assms
proof (induction rows arbitrary: db)
  case Nil
  then show ?case by simp
next
  case (Cons r rows)
  obtain u v d n where r: "r = (u, v, d, n)" by (cases r)
  with Cons.prems have v: "v = cur u" "0 \<le> v" by auto
  have "ledger_ok (cur(u := v)) (add_event now u k v v d n db)"
    using Cons.prems v by (intro ledger_add_event) (auto simp: is_transition_def)
  then have "ledger_ok cur (add_event now u k v v d n db)" by (simp add: v(1))
  with Cons show ?case by (simp add: r add_rows_Cons)
qed

lemma events_grow_add_rows: "set (events db) \<subseteq> set (events (add_rows now k rows db))"
  by (auto simp: events_add_rows)

lemma users_add_event:
  "ev_user ` set (events (add_event now u k f t d n db)) = insert u (ev_user ` set (events db))"
  by (auto simp: add_event_def)

lemma users_add_rows:
  "ev_user ` set (events (add_rows now k rows db)) = ev_user ` set (events db) \<union> fst ` set rows"
proof (induction rows arbitrary: db)
  case (Cons r rows)
  then show ?case by (cases r) (simp add: add_rows_Cons users_add_event)
qed simp

lemma user_of_add_rows:
  assumes "e \<in> set (events (add_rows now k rows db))"
  shows "ev_user e \<in> ev_user ` set (events db) \<union> fst ` set rows"
  using imageI [OF assms, of ev_user] unfolding users_add_rows .

section \<open>The table of balances\<close>

lemma tbl_ok_put_stats:
  assumes "tbl_ok S db" and "stats_ok S s"
  shows "tbl_ok S (put_stats u s db)"
proof -
  have "set (AList.update u s xs) \<subseteq> insert (u, s) (set xs)" for xs
    by (induction xs) auto
  with assms show ?thesis
    unfolding tbl_ok_def put_stats_def by (fastforce simp: distinct_update)
qed

lemma tbl_ok_same_rows: "stats_tbl db' = stats_tbl db \<Longrightarrow> tbl_ok S db' = tbl_ok S db"
  by (simp add: tbl_ok_def)

lemma tbl_ok_add_event [simp]: "tbl_ok S (add_event now u k f t d n db) = tbl_ok S db"
  by (rule tbl_ok_same_rows) simp

lemma tbl_ok_add_rows [simp]: "tbl_ok S (add_rows now k rows db) = tbl_ok S db"
  by (rule tbl_ok_same_rows) simp

lemma tbl_ok_get: "tbl_ok S db \<Longrightarrow> get_stats_row db u = Some s \<Longrightarrow> stats_ok S s"
  by (auto simp: tbl_ok_def get_stats_row_def dest!: map_of_SomeD)

lemma get_stats_row_in:
  "tbl_ok S db \<Longrightarrow> (u, s) \<in> set (stats_tbl db) \<Longrightarrow> get_stats_row db u = Some s"
  by (auto simp: tbl_ok_def get_stats_row_def)

section \<open>Each operation keeps the invariant\<close>

lemma streak_invD:
  assumes "streak_inv S db"
  shows "tbl_ok S db" "ledger_ok (cur_of db) db"
    "\<And>e. e \<in> set (events db) \<Longrightarrow> get_stats_row db (ev_user e) \<noteq> None"
  using assms by (auto simp: streak_inv_def)

lemma submitted_stats_ok:
  assumes "streak_inv S db" and "freeze_settings_ok S"
  shows "stats_ok S (submitted_stats S db u)" "current_streak (submitted_stats S db u) = cur_of db u"
  using assms tbl_ok_get [OF streak_invD(1) [OF assms(1)], of u]
  by (auto simp: submitted_stats_def stats_or_new_def cur_of_def stats_ok_def freeze_settings_ok_def split: option.splits)

lemma try_cover_gap_cases:
  assumes "try_cover_gap S now u s l t db = (ok, s', db')"
  obtains (no) "\<not> ok" "s' = s" "db' = db"
  | (yes) unc where "ok" "l + 1 < t"
      "unc = filter (\<lambda>d. d \<notin> set (covered_dates db u (missed_dates l t))) (missed_dates l t)"
      "int (length unc) \<le> streak_freezes s" "int (length unc) \<le> STREAK_FREEZE_MAX S"
      "s' = s\<lparr>streak_freezes := streak_freezes s - int (length unc)\<rparr>"
      "db' = add_rows now FreezeUsed (map (\<lambda>d. (u, current_streak s, d,
               FreezeSpent d (streak_freezes s' + 1) (streak_freezes s'))) unc) db"
proof (cases ok)
  case False
  with assms show ?thesis
    by (intro no) (auto simp: try_cover_gap_def Let_def split: if_splits)
next
  case True
  let ?unc = "filter (\<lambda>d. d \<notin> set (covered_dates db u (missed_dates l t))) (missed_dates l t)"
  from True assms have "\<not> t \<le> l + 1" "int (length ?unc) \<le> min (streak_freezes s) (STREAK_FREEZE_MAX S)"
    "s' = s\<lparr>streak_freezes := streak_freezes s - int (length ?unc)\<rparr>"
    "db' = add_rows now FreezeUsed (map (\<lambda>d. (u, current_streak s, d,
               FreezeSpent d (streak_freezes s' + 1) (streak_freezes s'))) ?unc) db"
    by (auto simp: try_cover_gap_def Let_def missed_dates_Nil split: if_splits)
  with True show ?thesis by (intro yes [of ?unc]) auto
qed

lemma try_cover_gap_keeps:
  assumes "try_cover_gap S now u s l t db = (ok, s', db')"
    and "ledger_ok cur db" "current_streak s = cur u" "stats_ok S s"
  shows "ledger_ok cur db' \<and> stats_tbl db' = stats_tbl db \<and> stats_ok S s' \<and>
    current_streak s' = current_streak s \<and> longest_streak s' = longest_streak s \<and>
    ev_user ` set (events db') \<subseteq> insert u (ev_user ` set (events db))"
  using assms(1)
proof (cases rule: try_cover_gap_cases)
  case no
  with assms show ?thesis by auto
next
  case (yes unc)
  have "ledger_ok cur db'"
    unfolding yes(7) using assms by (intro ledger_add_rows) (auto simp: stats_ok_def)
  moreover have "ev_user ` set (events db') \<subseteq> insert u (ev_user ` set (events db))"
    unfolding yes(7) users_add_rows by auto
  ultimately show ?thesis using assms(4) yes by (simp add: stats_ok_def)
qed

lemma streak_transition_keeps:
  assumes "streak_transition S now u s t db = (k, to, s', db')"
    and "ledger_ok cur db" "current_streak s = cur u" "stats_ok S s"
  shows "ledger_ok cur db' \<and> stats_tbl db' = stats_tbl db \<and> stats_ok S s' \<and>
    (k = Extended \<and> to = current_streak s + 1 \<or> k = Reset \<and> to = 1) \<and>
    ev_user ` set (events db') \<subseteq> insert u (ev_user ` set (events db))"
proof (cases "last_active_local_date s")
  case None
  with assms show ?thesis by (auto simp: streak_transition_def)
next
  case (Some l)
  show ?thesis
  proof (cases "l = t - 1")
    case True
    with Some assms show ?thesis by (auto simp: streak_transition_def)
  next
    case False
    obtain ok s1 db1 where g: "try_cover_gap S now u s l t db = (ok, s1, db1)"
      by (metis prod_cases3)
    with Some False assms(1)
    have "s' = s1" "db' = db1" "k = (if ok then Extended else Reset)"
      "to = (if ok then current_streak s + 1 else 1)"
      by (auto simp: streak_transition_def split: if_splits)
    with try_cover_gap_keeps [OF g assms(2-4)] show ?thesis by auto
  qed
qed

lemma accrue_keeps:
  assumes "accrue_freeze_if_earned S now u s d db = (ok, s', db')"
    and "ledger_ok cur db" "current_streak s = cur u" "stats_ok S s"
  shows "ledger_ok cur db' \<and> stats_tbl db' = stats_tbl db \<and> stats_ok S s' \<and>
    current_streak s' = current_streak s \<and>
    ev_user ` set (events db') \<subseteq> insert u (ev_user ` set (events db))"
proof (cases ok)
  case False
  with assms show ?thesis
    by (auto simp: accrue_freeze_if_earned_def Let_def split: if_splits)
next
  case True
  then have s': "s' = s\<lparr>streak_freezes := streak_freezes s + 1\<rparr>" "streak_freezes s < STREAK_FREEZE_MAX S"
    and db': "db' = add_event now u Adjusted (current_streak s) (current_streak s) d
      (FreezeEarned (current_streak s) (STREAK_FREEZE_EARN_EVERY S) (streak_freezes s)
         (streak_freezes s + 1)) db"
    using assms(1) by (auto simp: accrue_freeze_if_earned_def Let_def split: if_splits)
  have "ledger_ok (cur(u := current_streak s)) db'"
    unfolding db' using assms by (intro ledger_add_event) (auto simp: stats_ok_def is_transition_def)
  moreover have "cur(u := current_streak s) = cur" using assms(3) by auto
  ultimately show ?thesis using assms(4) s' by (auto simp: db' stats_ok_def users_add_event)
qed

lemma streak_inv_put:
  assumes "tbl_ok S db" "stats_ok S s" "ledger_ok ((cur_of db)(u := current_streak s)) db"
    and "\<And>e. e \<in> set (events db) \<Longrightarrow> ev_user e = u \<or> get_stats_row db (ev_user e) \<noteq> None"
  shows "streak_inv S (put_stats u s db)"
  using assms by (auto simp: streak_inv_def tbl_ok_put_stats)

lemma record_transition_keeps:
  assumes rec: "record_transition S now u d f k to s db = (s', db')"
    and led: "ledger_ok cur db" and f: "f = cur u" "0 \<le> f"
    and s: "stats_ok S s" and uniq: "\<not> unique_violation db u d"
    and k: "k = Extended \<and> to = f + 1 \<or> k = Reset \<and> to = 1"
  shows "ledger_ok (cur(u := to)) db' \<and> stats_tbl db' = stats_tbl db \<and> stats_ok S s' \<and>
    current_streak s' = to \<and> ev_user ` set (events db') \<subseteq> insert u (ev_user ` set (events db))"
proof -
  let ?s2 = "s\<lparr>current_streak := to, longest_streak := max (longest_streak s) to,
                   last_active_local_date := Some d\<rparr>"
  let ?db2 = "add_event now u k f to d NoNote db"
  have l2: "ledger_ok (cur(u := to)) ?db2"
    using led f k uniq by (intro ledger_add_event) auto
  have s2: "stats_ok S ?s2" "current_streak ?s2 = (cur(u := to)) u"
    using s k f by (auto simp: stats_ok_def)
  show ?thesis
  proof (cases "k = Extended")
    case True
    obtain ok where "accrue_freeze_if_earned S now u ?s2 d ?db2 = (ok, s', db')"
      using rec True unfolding record_transition_def Let_def
      by (cases "accrue_freeze_if_earned S now u ?s2 d ?db2") simp
    from accrue_keeps [where cur = "cur(u := to)", OF this l2 s2(2,1)] show ?thesis by (auto simp: users_add_event)
  next
    case False
    then have "s' = ?s2" "db' = ?db2" using rec by (simp_all add: record_transition_def Let_def)
    then show ?thesis using l2 s2 by (simp add: users_add_event)
  qed
qed

text \<open>What a submit does: it is either not the first of its day, or it makes the transition.\<close>

lemma submit_cases:
  assumes "update_streak_and_attempt_count S now u today db = Inr (i, db')"
  obtains (same) "last_active_local_date (submitted_stats S db u) = Some today" "i = None"
      "db' = put_stats u (submitted_stats S db u) db"
  | (first) k to s1 db1 s3 db3 where
      "last_active_local_date (submitted_stats S db u) \<noteq> Some today"
      "streak_transition S now u (submitted_stats S db u) today db = (k, to, s1, db1)"
      "\<not> unique_violation db1 u today" "i = Some \<lparr>si_current = to, si_event = k\<rparr>"
      "record_transition S now u today (current_streak (submitted_stats S db u)) k to s1 db1 = (s3, db3)"
      "db' = put_stats u s3 db3"
proof (cases "last_active_local_date (submitted_stats S db u) = Some today")
  case True
  with assms same show ?thesis by (simp add: update_streak_and_attempt_count_def Let_def)
next
  case False
  obtain k to s1 db1 where t: "streak_transition S now u (submitted_stats S db u) today db = (k, to, s1, db1)"
    by (metis prod_cases4)
  obtain s3 db3 where r: "record_transition S now u today
      (current_streak (submitted_stats S db u)) k to s1 db1 = (s3, db3)"
    by fastforce
  show ?thesis using assms False
    by (intro first [OF False t _ _ r])
       (auto simp: update_streak_and_attempt_count_def t r split: if_splits)
qed

lemma submit_inv [preserve]:
  assumes inv: "streak_inv S db" and fs: "freeze_settings_ok S"
    and run: "update_streak_and_attempt_count S now u today db = Inr (i, db')"
  shows "streak_inv S db'"
proof -
  note s0 = submitted_stats_ok [OF inv fs, of u]
  show ?thesis using run
  proof (cases rule: submit_cases)
    case same
    show ?thesis unfolding same(3)
      using streak_invD [OF inv] s0 by (intro streak_inv_put) (simp_all add: fun_upd_idem)
  next
    case (first k to s1 db1 s3 db3)
    have pos: "0 \<le> current_streak (submitted_stats S db u)" using s0(1) by (simp add: stats_ok_def)
    note tr = streak_transition_keeps [OF first(2) streak_invD(2) [OF inv] s0(2,1)]
    have p: "ledger_ok ((cur_of db)(u := to)) db3 \<and> stats_tbl db3 = stats_tbl db1 \<and> stats_ok S s3 \<and>
        current_streak s3 = to \<and> ev_user ` set (events db3) \<subseteq> insert u (ev_user ` set (events db1))"
      using tr by (intro record_transition_keeps [where cur = "cur_of db", OF first(5) _ s0(2) pos _ first(3)]) simp_all
    with tr have tbl: "stats_tbl db3 = stats_tbl db" by simp
    have g: "get_stats_row db3 = get_stats_row db" using tbl by (simp add: get_stats_row_def fun_eq_iff)
    show ?thesis unfolding first(6)
    proof (rule streak_inv_put)
      show "tbl_ok S db3" using streak_invD(1) [OF inv] tbl_ok_same_rows [OF tbl] by simp
      have "cur_of db3 = cur_of db" using g by (simp add: cur_of_def fun_eq_iff)
      then show "ledger_ok ((cur_of db3)(u := current_streak s3)) db3" using p by simp
      have users: "ev_user ` set (events db3) \<subseteq> insert u (ev_user ` set (events db))"
        using p tr by (meson insert_mono insert_subset order_trans subset_insertI subset_insert_iff)
      show "ev_user e = u \<or> get_stats_row db3 (ev_user e) \<noteq> None" if "e \<in> set (events db3)" for e
      proof -
        have "ev_user e \<in> insert u (ev_user ` set (events db))" using users that by auto
        then show ?thesis using streak_invD(3) [OF inv] unfolding g by auto
      qed
    qed (use p in simp)
  qed
qed

lemma tbl_ok_row:
  assumes "tbl_ok S db" "(u, s) \<in> set (stats_tbl db)"
  shows "get_stats_row db u = Some s" "cur_of db u = current_streak s" "0 \<le> current_streak s"
  using get_stats_row_in [OF assms] tbl_ok_get [OF assms(1)] by (auto simp: cur_of_def stats_ok_def)

lemma users_have_rows:
  assumes "\<And>e. e \<in> set (events db) \<Longrightarrow> get_stats_row db (ev_user e) \<noteq> None"
    and "e \<in> set (events (add_event now u k f t d n (put_stats u s db)))"
  shows "get_stats_row (put_stats u s db) (ev_user e) \<noteq> None"
  using assms by (auto simp: add_event_def simp del: not_None_eq)

lemma outage_inv [preserve]:
  assumes inv: "streak_inv S db" and run: "outage_freeze now d db = (n, db')"
  shows "streak_inv S db'"
proof -
  note I = streak_invD [OF inv]
  obtain rows where rows: "set rows \<subseteq> set (stats_tbl db)"
    and db': "db' = add_rows now FreezeUsed (map (\<lambda>(u, s). (u, current_streak s, d, Outage)) rows) db"
    using run by (auto simp: outage_freeze_def Let_def intro: that [OF filter_is_subset])
  have row: "get_stats_row db u = Some s \<and> 0 \<le> current_streak s" if "(u, s) \<in> set rows" for u s
    using that rows tbl_ok_row [OF I(1)] by blast
  have "ledger_ok (cur_of db) db'" unfolding db'
    using I(2) row by (intro ledger_add_rows) (auto simp: cur_of_def)
  moreover have "get_stats_row db' (ev_user e) \<noteq> None" if "e \<in> set (events db')" for e
  proof -
    have "ev_user e \<in> ev_user ` set (events db) \<union> fst ` set rows"
      using user_of_add_rows [OF that [unfolded db']] by (simp add: image_image split_beta)
    then show ?thesis using I(3) row by (auto simp: db')
  qed
  ultimately show ?thesis using I(1) by (simp add: streak_inv_def db')
qed

lemma map_of_map_pair:
  "map_of (map (\<lambda>(u, s). if P (u, s) then (u, f s) else (u, s)) xs) u =
     map_option (\<lambda>s. if P (u, s) then f s else s) (map_of xs u)"
  by (induction xs) auto

lemma grant_inv [preserve]:
  assumes inv: "streak_inv S db" and fs: "freeze_settings_ok S"
    and run: "grant_initial_freezes S now d db = (n, db')"
  shows "streak_inv S db'"
proof -
  note I = streak_invD [OF inv]
  define grant where "grant = min (STREAK_FREEZE_START S) (STREAK_FREEZE_MAX S)"
  define due :: "uid \<times> user_stats \<Rightarrow> bool" where "due = (\<lambda>(u, s). streak_freezes s < grant \<and>
      \<not> (\<exists>e\<in>set (events db). ev_user e = u \<and> ev_kind e = Adjusted \<and> is_initial_grant (ev_note e)))"
  define tbl where "tbl = map (\<lambda>(u, s). if due (u, s) then (u, s\<lparr>streak_freezes := grant\<rparr>) else (u, s))
      (stats_tbl db)"
  define rows where "rows = map (\<lambda>(u, s). (u, current_streak s, d, InitialGrant grant))
      (filter due (stats_tbl db))"
  have db': "db' = add_rows now Adjusted rows (db\<lparr>stats_tbl := tbl\<rparr>)"
    using run unfolding grant_initial_freezes_def Let_def rows_def tbl_def due_def grant_def
    by (elim Pair_inject) (rule sym)
  have get: "get_stats_row db' u = map_option (\<lambda>s. if due (u, s) then s\<lparr>streak_freezes := grant\<rparr> else s)
      (get_stats_row db u)" for u
    unfolding db' get_add_rows
    by (simp add: get_stats_row_def tbl_def map_of_map_pair [where P = due])
  have cur: "cur_of db' = cur_of db" by (auto simp: cur_of_def get split: option.splits)
  have "map fst tbl = map fst (stats_tbl db)" by (auto simp: tbl_def)
  moreover have "stats_ok S s" if "(u, s) \<in> set tbl" for u s
    using that I(1) fs by (auto simp: tbl_def tbl_ok_def stats_ok_def grant_def freeze_settings_ok_def split: if_splits)
  ultimately have tb: "tbl_ok S db'" using I(1) by (auto simp: tbl_ok_def db')
  have "\<forall>(u, v, dd, nn)\<in>set rows. v = cur_of db u \<and> 0 \<le> v"
    using tbl_ok_row [OF I(1)] by (auto simp: rows_def)
  then have led: "ledger_ok (cur_of db') db'"
    unfolding cur unfolding db' using I(2) by (intro ledger_add_rows) auto
  have "get_stats_row db' (ev_user e) \<noteq> None" if "e \<in> set (events db')" for e
  proof -
    have "ev_user e \<in> ev_user ` set (events db) \<union> fst ` set rows"
      using user_of_add_rows [OF that [unfolded db']] by simp
    then have "get_stats_row db (ev_user e) \<noteq> None"
      using I(3) get_stats_row_in [OF I(1)] by (fastforce simp: rows_def)
    then show ?thesis by (simp add: get)
  qed
  with tb led show ?thesis by (simp add: streak_inv_def)
qed

lemma repair_cases:
  assumes "repair_streak S off now u tz db = Inr (v, db')"
  obtains r s where "load_restorable S now u db = Some r" "get_stats_row db u = Some s"
    "v = restores_to r" "current_streak s < v"
    "db' = add_event now u Repaired (current_streak s) v (local_date_for off tz now)
       (StreakRepaired (STREAK_REPAIR_WINDOW_H S) (rr_local_date r) (rr_from_value r)
          (current_streak s) v (rr_run r) (reset_id r))
       (put_stats u (s\<lparr>current_streak := v, longest_streak := max (longest_streak s) v\<rparr>) db)"
  using assms by (auto simp: repair_streak_def Let_def split: option.splits if_splits)

lemma repair_inv [preserve]:
  assumes inv: "streak_inv S db" and run: "repair_streak S off now u tz db = Inr (v, db')"
  shows "streak_inv S db'"
  using run
proof (cases rule: repair_cases)
  case (1 r s)
  note I = streak_invD [OF inv]
  let ?s = "s\<lparr>current_streak := v, longest_streak := max (longest_streak s) v\<rparr>"
  have s: "stats_ok S s" "current_streak s = cur_of db u" "0 \<le> current_streak s"
    using 1(2) tbl_ok_get [OF I(1)] by (auto simp: cur_of_def stats_ok_def)
  have led: "ledger_ok ((cur_of db)(u := v)) db'"
    unfolding 1(5) using I(2) s 1(4) by (intro ledger_add_event) (auto simp: is_transition_def)
  have c: "cur_of db' = (cur_of db)(u := v)" by (simp add: 1(5))
  have t: "tbl_ok S db'" unfolding 1(5) using I(1) s 1(4)
    by (auto simp: stats_ok_def intro!: tbl_ok_put_stats)
  have "get_stats_row db' (ev_user e) \<noteq> None" if "e \<in> set (events db')" for e
    using users_have_rows [OF I(3)] that unfolding 1(5) by simp
  with t led c show ?thesis by (simp add: streak_inv_def)
qed

lemma reconcile_cases:
  obtains (same) "reconcile_streak_for_timezone_change off now u tz tz' db = db"
  | (moved) s l where "get_stats_row db u = Some s" "last_active_local_date s = Some l"
      "local_date_for off tz' now < l" "tz' \<noteq> tz"
      "reconcile_streak_for_timezone_change off now u tz tz' db =
         add_event now u Repaired (current_streak s) (current_streak s) (local_date_for off tz' now)
           (TimezoneRepair tz tz' l (local_date_for off tz' now))
           (put_stats u (s\<lparr>last_active_local_date := Some (local_date_for off tz' now)\<rparr>) db)"
proof (cases "reconcile_streak_for_timezone_change off now u tz tz' db = db")
  case True
  then show ?thesis by (rule same)
next
  case False
  then show ?thesis using moved
    by (auto simp: reconcile_streak_for_timezone_change_def Let_def not_le split: option.splits if_splits)
qed

lemma reconcile_inv [preserve]:
  assumes inv: "streak_inv S db"
  shows "streak_inv S (reconcile_streak_for_timezone_change off now u tz tz' db)"
proof (cases rule: reconcile_cases [of off now u tz tz' db])
  case same
  with inv show ?thesis by simp
next
  case (moved s l)
  note I = streak_invD [OF inv]
  let ?d = "local_date_for off tz' now" and ?db = "reconcile_streak_for_timezone_change off now u tz tz' db"
  have s: "stats_ok S s" "current_streak s = cur_of db u" "0 \<le> current_streak s"
    using moved(1) tbl_ok_get [OF I(1)] by (auto simp: cur_of_def stats_ok_def)
  have "ledger_ok ((cur_of db)(u := current_streak s)) ?db"
    unfolding moved(5) using I(2) s by (intro ledger_add_event) (auto simp: is_transition_def)
  moreover have "cur_of ?db = (cur_of db)(u := current_streak s)" by (simp add: moved(5))
  moreover have "tbl_ok S ?db" unfolding moved(5)
    using I(1) s by (auto simp: stats_ok_def intro!: tbl_ok_put_stats)
  moreover have "get_stats_row ?db (ev_user e) \<noteq> None" if "e \<in> set (events ?db)" for e
    using users_have_rows [OF I(3)] that unfolding moved(5) by simp
  ultimately show ?thesis by (simp add: streak_inv_def)
qed

section \<open>Every reachable state\<close>

inductive streak_step ::
    "settings \<Rightarrow> (string \<Rightarrow> instant \<Rightarrow> int) \<Rightarrow> streak_db \<Rightarrow> streak_db \<Rightarrow> bool" for S off where
  submit: "update_streak_and_attempt_count S now u d db = Inr (i, db') \<Longrightarrow> streak_step S off db db'"
| repair: "repair_streak S off now u tz db = Inr (v, db') \<Longrightarrow> streak_step S off db db'"
| outage: "outage_freeze now d db = (n, db') \<Longrightarrow> streak_step S off db db'"
| grant: "grant_initial_freezes S now d db = (n, db') \<Longrightarrow> streak_step S off db db'"
| timezone: "reconcile_streak_for_timezone_change off now u tz tz' db = db' \<Longrightarrow>
    streak_step S off db db'"

inductive streak_reachable ::
    "settings \<Rightarrow> (string \<Rightarrow> instant \<Rightarrow> int) \<Rightarrow> streak_db \<Rightarrow> bool" for S off where
  start: "streak_reachable S off empty_streak_db"
| step: "streak_reachable S off db \<Longrightarrow> streak_step S off db db' \<Longrightarrow> streak_reachable S off db'"

lemma streak_step_inv:
  assumes "streak_step S off db db'" and "freeze_settings_ok S" and "streak_inv S db"
  shows "streak_inv S db'"
  using assms by (induction rule: streak_step.induct) (auto intro: preserve)

lemma empty_streak_inv: "streak_inv S empty_streak_db"
  by (simp add: streak_inv_def tbl_ok_def ledger_ok_def empty_streak_db_def cur_of_def
      get_stats_row_def events_of_def)

lemma streak_reachable_inv:
  assumes "streak_reachable S off db" and "freeze_settings_ok S"
  shows "streak_inv S db"
  using assms(1) by induction (auto intro: empty_streak_inv streak_step_inv [OF _ assms(2)])

end
