(* ===== verification/Streak_Props.thy ===== *)
theory Streak_Props
  imports Streak_Ledger
begin

text \<open>
  The properties of the streak component. The lemmas that only serve one property precede it.
\<close>

section \<open>The ledger and the balance\<close>

definition first_submit_db :: streak_db where
  "first_submit_db =
     \<lparr>stats_tbl = [(7, \<lparr>current_streak = 1, longest_streak = 1, last_active_local_date = Some 100,
                     streak_freezes = 2, total_attempts = 1, total_correct = 0,
                     accuracy_by_type = Map.empty\<rparr>)],
      events = [\<lparr>ev_id = 1, ev_user = 7, ev_kind = Extended, from_value = 0, to_value = 1,
                 ev_local_date = 100, ev_note = NoNote, created_at = 0\<rparr>],
      next_event_id = 2\<rparr>"

lemma first_submit:
  "update_streak_and_attempt_count default_settings 0 7 100 empty_streak_db =
     Inr (Some \<lparr>si_current = 1, si_event = Extended\<rparr>, first_submit_db)"
  by (simp add: update_streak_and_attempt_count_def submitted_stats_def stats_or_new_def
      get_stats_row_def empty_streak_db_def streak_transition_def unique_violation_def
      record_transition_def accrue_freeze_if_earned_def default_settings_def new_user_stats_def
      add_event_def put_stats_def first_submit_db_def)

lemma reachable_first_submit: "streak_reachable default_settings (\<lambda>_ _. 0) first_submit_db"
  by (blast intro: first_submit streak_step.submit streak_reachable.intros)

lemma first_submit_db_simps:
  "cur_of first_submit_db 7 = 1" "events_of 7 first_submit_db = events first_submit_db"
  "get_stats_row first_submit_db 7 = Some \<lparr>current_streak = 1, longest_streak = 1,
     last_active_local_date = Some 100, streak_freezes = 2, total_attempts = 1, total_correct = 0,
     accuracy_by_type = Map.empty\<rparr>"
  by (simp_all add: first_submit_db_def cur_of_def get_stats_row_def events_of_def)

lemma default_freeze_settings_ok: "freeze_settings_ok default_settings"
  by (simp add: freeze_settings_ok_def default_settings_def)

text \<open>
  C1: Replaying a user's rows of the streak ledger in insertion order, each row starting at the
  value the previous one ended on, succeeds and ends on the streak their stats row shows (0 when
  they have none); and the ledger holds at most one extending or resetting row per user and day.
  This holds after any sequence of submits, repairs, outage fills, grants and timezone changes.
\<close>

theorem ledger_replays_to_streak:
  assumes "streak_reachable S off db" and "freeze_settings_ok S"
  shows "replay 0 (events_of u db) = Some (cur_of db u) \<and>
    length (filter (\<lambda>e. is_transition (ev_kind e) \<and> ev_local_date e = d) (events_of u db)) \<le> 1"
proof -
  have L: "ledger_ok (cur_of db) db"
    by (rule streak_invD(2) [OF streak_reachable_inv [OF assms]])
  let ?xs = "filter (\<lambda>e. is_transition (ev_kind e) \<and> ev_local_date e = d) (events_of u db)"
  have "distinct ?xs" using ledger_okD(2) [OF L] by (simp add: events_of_def distinct_map)
  moreover have "x = y" if "x \<in> set ?xs" "y \<in> set ?xs" for x y
    using that by (intro ledger_okD(4) [OF L]) (simp_all add: events_of_def)
  ultimately have "length ?xs \<le> 1" by (rule length_le_1)
  with ledger_okD(5) [OF L] show ?thesis by simp
qed

theorem ledger_replays_to_streak_witness:
  "replay 0 (events_of 7 first_submit_db) = Some 1"
  using ledger_replays_to_streak [OF reachable_first_submit default_freeze_settings_ok, of 7]
  by (simp add: first_submit_db_simps(1))



section \<open>Covering a gap\<close>

lemma covered_dates_mono:
  "d \<in> set (covered_dates db u ds) \<Longrightarrow> d \<in> set (covered_dates (add_rows now k rows db) u ds)"
  by (auto simp: covered_dates_def events_add_rows)

lemma covered_dates_add_rows:
  assumes "(u, v, d, n) \<in> set rows" and "d \<in> set ds"
  shows "d \<in> set (covered_dates (add_rows now FreezeUsed rows db) u ds)"
proof -
  obtain j where j: "j < length rows" "rows ! j = (u, v, d, n)"
    using assms(1) by (auto simp: in_set_conv_nth)
  have "(next_event_id db + j, u, v, d, n) \<in> set (enumerate (next_event_id db) rows)"
    using j by (auto simp: in_set_enumerate_eq)
  then show ?thesis using assms(2) by (force simp: covered_dates_def events_add_rows)
qed

text \<open>
  Covering a gap is all or nothing. If it fails, stats and ledger are unchanged. If it succeeds,
  every date strictly between the last active day and today carries a freeze row, the balance falls
  by exactly the number of dates that carried none before, and that number is within the balance and
  the cap.
\<close>

theorem try_cover_gap_all_or_nothing:
  assumes "try_cover_gap S now u s l t db = (ok, s', db')"
  shows "(ok = False \<and> s' = s \<and> db' = db) \<or>
    (ok = True \<and>
     {d. l < d \<and> d < t} = set (covered_dates db' u (missed_dates l t)) \<and>
     streak_freezes s' = streak_freezes s -
       int (card ({d. l < d \<and> d < t} - set (covered_dates db u (missed_dates l t)))) \<and>
     int (card ({d. l < d \<and> d < t} - set (covered_dates db u (missed_dates l t))))
       \<le> min (streak_freezes s) (STREAK_FREEZE_MAX S))"
  using assms
proof (cases rule: try_cover_gap_cases)
  case no
  then show ?thesis by simp
next
  case (yes unc)
  let ?cov = "set (covered_dates db u (missed_dates l t))"
  have "set unc = {d. l < d \<and> d < t} - ?cov" and "distinct unc"
    using yes(3) distinct_missed_dates by (auto simp: set_missed_dates)
  then have len: "length unc = card ({d. l < d \<and> d < t} - ?cov)" by (metis distinct_card)
  have "d \<in> set (covered_dates db' u (missed_dates l t))" if "l < d" "d < t" for d
  proof (cases "d \<in> ?cov")
    case True
    then show ?thesis unfolding yes(7) by (rule covered_dates_mono)
  next
    case False
    with that have d: "d \<in> set unc" "d \<in> set (missed_dates l t)" by (auto simp: yes(3) set_missed_dates)
    then show ?thesis unfolding yes(7) by (intro covered_dates_add_rows) auto
  qed
  then have "{d. l < d \<and> d < t} = set (covered_dates db' u (missed_dates l t))"
    by (auto simp: covered_dates_def set_missed_dates)
  with yes len show ?thesis by simp
qed

theorem try_cover_gap_all_or_nothing_witness:
  "\<exists>s' db'. try_cover_gap default_settings 0 7 ((new_user_stats default_settings)\<lparr>current_streak := 5\<rparr>)
      100 103 empty_streak_db = (True, s', db') \<and> streak_freezes s' = 0"
proof -
  let ?s = "(new_user_stats default_settings)\<lparr>current_streak := 5\<rparr>"
  obtain ok s' db' where g: "try_cover_gap default_settings 0 7 ?s 100 103 empty_streak_db = (ok, s', db')"
    by (metis prod_cases3)
  have m: "missed_dates 100 103 = [101, 102]" by (simp add: missed_dates_def upt_rec)
  have c: "covered_dates empty_streak_db 7 [101, 102] = []"
    by (simp add: covered_dates_def empty_streak_db_def)
  have ok: "ok = True"
    using g by (simp add: try_cover_gap_def m c default_settings_def split: if_splits)
  have "{d::int. 100 < d \<and> d < 103} = {101, 102}" by auto
  with try_cover_gap_all_or_nothing [OF g] ok m c have "streak_freezes s' = 0"
    by (simp add: default_settings_def)
  with g ok show ?thesis by blast
qed

section \<open>Earning freezes\<close>

definition submit_days ::
    "settings \<Rightarrow> instant \<Rightarrow> uid \<Rightarrow> date \<Rightarrow> nat \<Rightarrow> streak_db \<Rightarrow> streak_db result" where
  "submit_days S now u d n db =
     fold (\<lambda>k r. case r of Inl e \<Rightarrow> Inl e
            | Inr db \<Rightarrow> map_sum id snd (update_streak_and_attempt_count S now u (d + int k) db))
       [0..<n] (Inr db)"

definition earned :: "settings \<Rightarrow> int \<Rightarrow> int" where
  "earned S n = (if STREAK_FREEZE_EARN_EVERY S \<le> 0 then STREAK_FREEZE_START S
     else min (STREAK_FREEZE_MAX S) (STREAK_FREEZE_START S + n div STREAK_FREEZE_EARN_EVERY S))"

definition after_days :: "settings \<Rightarrow> uid \<Rightarrow> date \<Rightarrow> nat \<Rightarrow> streak_db \<Rightarrow> bool" where
  "after_days S u d n db \<longleftrightarrow>
     (let s = stats_or_new S db u in
      current_streak s = int n \<and> longest_streak s = int n \<and> streak_freezes s = earned S (int n) \<and>
      last_active_local_date s = (if n = 0 then None else Some (d + int n - 1))) \<and>
     (\<forall>e\<in>set (events db). ev_local_date e < d + int n)"

lemma earned_succ:
  "earned S (n + 1) =
    (if STREAK_FREEZE_EARN_EVERY S \<le> 0 \<or> (n + 1) mod STREAK_FREEZE_EARN_EVERY S \<noteq> 0 \<or>
        STREAK_FREEZE_MAX S \<le> earned S n then earned S n else earned S n + 1)"
proof (cases "0 < STREAK_FREEZE_EARN_EVERY S")
  case True
  define q where "q = n div STREAK_FREEZE_EARN_EVERY S"
  have "earned S n = min (STREAK_FREEZE_MAX S) (STREAK_FREEZE_START S + q)"
    "earned S (n + 1) = min (STREAK_FREEZE_MAX S)
       (STREAK_FREEZE_START S + (q + (if (n + 1) mod STREAK_FREEZE_EARN_EVERY S = 0 then 1 else 0)))"
    using True by (simp_all add: earned_def int_div_succ q_def)
  with True show ?thesis by (simp split: if_split)
qed (simp add: earned_def)

lemma record_extended:
  assumes "record_transition S now u t f Extended to s db = (s3, db3)"
  shows "current_streak s3 = to" "longest_streak s3 = max (longest_streak s) to"
    "last_active_local_date s3 = Some t"
    "streak_freezes s3 = (if STREAK_FREEZE_EARN_EVERY S \<le> 0 \<or> to \<le> 0 \<or>
        to mod STREAK_FREEZE_EARN_EVERY S \<noteq> 0 \<or> STREAK_FREEZE_MAX S \<le> streak_freezes s
      then streak_freezes s else streak_freezes s + 1)"
    "e \<in> set (events db3) \<Longrightarrow> e \<in> set (events db) \<or> ev_local_date e = t"
  using assms unfolding record_transition_def accrue_freeze_if_earned_def Let_def
  by (auto simp: add_event_def split: if_split_asm)

lemma after_days_step:
  assumes fs: "freeze_settings_ok S" and ad: "after_days S u d n db"
  shows "\<exists>i db'. update_streak_and_attempt_count S now u (d + int n) db = Inr (i, db') \<and>
    after_days S u d (Suc n) db'"
proof -
  let ?t = "d + int n" and ?s = "submitted_stats S db u"
  have s: "current_streak ?s = int n" "longest_streak ?s = int n" "streak_freezes ?s = earned S (int n)"
      "last_active_local_date ?s = (if n = 0 then None else Some (?t - 1))"
    and ev: "\<forall>e\<in>set (events db). ev_local_date e < ?t"
    using ad by (auto simp: after_days_def submitted_stats_def Let_def)
  have tr: "streak_transition S now u ?s ?t db = (Extended, int n + 1, ?s, db)"
    using s by (auto simp: streak_transition_def)
  have nl: "last_active_local_date ?s \<noteq> Some ?t" using s(4) by simp
  have uv: "\<not> unique_violation db u ?t" using ev by (auto simp: unique_violation_def)
  obtain s3 db3 where r: "record_transition S now u ?t (int n) Extended (int n + 1) ?s db = (s3, db3)"
    by fastforce
  note R = record_extended [OF r]
  have "streak_freezes s3 = earned S (int n + 1)" unfolding R(4) earned_succ s(3) by simp
  moreover have "\<forall>e\<in>set (events db3). ev_local_date e < ?t + 1" using R(5) ev by fastforce
  moreover have "longest_streak s3 = int n + 1" unfolding R(2) s(2) by simp
  ultimately have "streak_freezes s3 = earned S (int n + 1) \<and> current_streak s3 = int n + 1 \<and>
      longest_streak s3 = int n + 1 \<and> last_active_local_date s3 = Some ?t \<and>
      (\<forall>e\<in>set (events db3). ev_local_date e < ?t + 1)"
    using R(1,3) by (intro conjI)
  then have "after_days S u d (Suc n) (put_stats u s3 db3)"
    by (simp add: after_days_def stats_or_new_def algebra_simps)
  moreover have "update_streak_and_attempt_count S now u ?t db =
      Inr (Some \<lparr>si_current = int n + 1, si_event = Extended\<rparr>, put_stats u s3 db3)"
    using nl by (simp add: update_streak_and_attempt_count_def tr uv r s(1))
  ultimately show ?thesis by blast
qed

lemma submit_days_ok:
  assumes "freeze_settings_ok S"
  shows "\<exists>db. submit_days S now u d n empty_streak_db = Inr db \<and> after_days S u d n db"
proof (induction n)
  case 0
  show ?case using assms
    by (auto simp: submit_days_def after_days_def stats_or_new_def get_stats_row_def empty_streak_db_def
        earned_def freeze_settings_ok_def)
next
  case (Suc n)
  then obtain db where db: "submit_days S now u d n empty_streak_db = Inr db" "after_days S u d n db"
    by blast
  with after_days_step [OF assms db(2), of now] show ?case by (auto simp: submit_days_def)
qed

text \<open>
  A new user who submits on \<open>n\<close> consecutive days, the first of each day never failing,
  has a streak of \<open>n\<close>, a longest streak of \<open>n\<close>, and as balance the starting grant plus
  one freeze for every \<open>STREAK_FREEZE_EARN_EVERY\<close> days, cut at the cap.
\<close>

theorem consecutive_days_streak_and_freezes:
  assumes "freeze_settings_ok S" and "0 < n" and "0 < STREAK_FREEZE_EARN_EVERY S"
  shows "\<exists>db s. submit_days S now u d n empty_streak_db = Inr db \<and> get_stats_row db u = Some s \<and>
    current_streak s = int n \<and> longest_streak s = int n \<and>
    last_active_local_date s = Some (d + int n - 1) \<and>
    streak_freezes s = min (STREAK_FREEZE_MAX S)
      (STREAK_FREEZE_START S + int n div STREAK_FREEZE_EARN_EVERY S)"
  using submit_days_ok [OF assms(1), of now u d n] assms(2,3)
  by (auto simp: after_days_def stats_or_new_def earned_def Let_def split: option.splits)

theorem consecutive_days_streak_and_freezes_witness:
  "\<exists>db s. submit_days (default_settings\<lparr>STREAK_FREEZE_START := 0, STREAK_FREEZE_EARN_EVERY := 3\<rparr>)
      0 7 100 4 empty_streak_db = Inr db \<and>
    get_stats_row db 7 = Some s \<and> current_streak s = 4 \<and> streak_freezes s = 1"
  using consecutive_days_streak_and_freezes
    [of "default_settings\<lparr>STREAK_FREEZE_START := 0, STREAK_FREEZE_EARN_EVERY := 3\<rparr>" 4 0 7 100]
  by (auto simp: freeze_settings_ok_def default_settings_def)

section \<open>The ledger only grows\<close>

lemma append_add_rows: "\<exists>xs. events (add_rows now k rows db) = events db @ xs"
  by (simp add: events_add_rows)

lemma append_try_cover_gap:
  assumes "try_cover_gap S now u s l t db = (ok, s', db')"
  shows "\<exists>xs. events db' = events db @ xs"
  using assms by (cases rule: try_cover_gap_cases) (simp_all add: append_add_rows)

lemma append_streak_transition:
  assumes "streak_transition S now u s t db = (k, to, s', db')"
  shows "\<exists>xs. events db' = events db @ xs"
proof -
  obtain ok s1 db1 where g: "try_cover_gap S now u s (the (last_active_local_date s)) t db = (ok, s1, db1)"
    by (metis prod_cases3)
  then have "db' = db \<or> db' = db1"
    using assms by (auto simp: streak_transition_def split: option.splits if_splits)
  with append_try_cover_gap [OF g] show ?thesis by auto
qed

lemma append_record_transition: "\<exists>xs. events (snd (record_transition S now u t f k to s db)) = events db @ xs"
  by (simp add: record_transition_def accrue_freeze_if_earned_def Let_def add_event_def)

lemma append_submit:
  assumes "update_streak_and_attempt_count S now u d db = Inr (i, db')"
  shows "\<exists>xs. events db' = events db @ xs"
  using assms
proof (cases rule: submit_cases)
  case (first k to s1 db1 s3 db3)
  have "\<exists>xs. events db3 = events db1 @ xs"
    using append_record_transition [of S now u d _ k to s1 db1] unfolding first(5) [symmetric]
    by (metis first(5) snd_conv)
  with append_streak_transition [OF first(2)] show ?thesis by (auto simp: first(6))
qed simp

lemma append_step:
  assumes "streak_step S off db db'"
  shows "\<exists>xs. events db' = events db @ xs"
  using assms
proof (induction rule: streak_step.induct)
  case (submit now u d db i db')
  then show ?case by (rule append_submit)
next
  case (repair now u tz db v db')
  then show ?case by (cases rule: repair_cases) (simp add: add_event_def)
next
  case (outage now d db n db')
  then show ?case by (auto simp: outage_freeze_def Let_def events_add_rows)
next
  case (grant now d db n db')
  then show ?case by (auto simp: grant_initial_freezes_def Let_def events_add_rows)
next
  case (timezone now u tz tz' db db')
  then show ?case by (cases rule: reconcile_cases [of off now u tz tz' db]) (auto simp: add_event_def)
qed

lemma append_steps:
  assumes "(streak_step S off)\<^sup>*\<^sup>* db db'"
  shows "\<exists>xs. events db' = events db @ xs"
  using assms
proof induction
  case (step y z)
  then show ?case using append_step [OF step(2)] by auto
qed simp

lemma load_restorable_not_anchored:
  assumes "load_restorable S now u db = Some r"
  shows "\<not> (\<exists>e\<in>set (events_of u db). ev_kind e = Repaired \<and> has_anchor (reset_id r) (ev_note e))"
  using assms by (auto simp: load_restorable_def Let_def split: option.splits if_splits)

text \<open>
  A reset is repaired at most once. A repair that succeeds restores the run the reset broke plus
  the days re-earned since, strictly above the current streak; and in every later state, whatever
  happened in between, the reset a repair would act on is a different one.
\<close>

theorem reset_repaired_at_most_once:
  assumes "repair_streak S off now u tz db = Inr (v, db')"
  shows "\<exists>r. load_restorable S now u db = Some r \<and> v = restores_to r \<and> cur_of db u < v \<and>
    cur_of db' u = v \<and>
    (\<forall>db2 now2 r2. (streak_step S off)\<^sup>*\<^sup>* db' db2 \<and> load_restorable S now2 u db2 = Some r2 \<longrightarrow>
       reset_id r2 \<noteq> reset_id r)"
  using assms
proof (cases rule: repair_cases)
  case (1 r s)
  have anchored: "\<exists>e\<in>set (events_of u db'). ev_kind e = Repaired \<and> has_anchor (reset_id r) (ev_note e)"
    by (simp add: 1(5) events_of_add_event)
  have "reset_id r2 \<noteq> reset_id r"
    if later: "(streak_step S off)\<^sup>*\<^sup>* db' db2" and lr: "load_restorable S now2 u db2 = Some r2"
    for db2 now2 r2
  proof -
    obtain xs where "events db2 = events db' @ xs" using append_steps [OF later] by blast
    then have "set (events_of u db') \<subseteq> set (events_of u db2)" by (auto simp: events_of_def)
    with anchored load_restorable_not_anchored [OF lr] show ?thesis by auto
  qed
  with 1 show ?thesis by (auto simp: cur_of_def)
qed

definition lost_streak_db :: streak_db where
  "lost_streak_db =
     \<lparr>stats_tbl = [(7, \<lparr>current_streak = 1, longest_streak = 1, last_active_local_date = Some 105,
                     streak_freezes = 2, total_attempts = 2, total_correct = 0,
                     accuracy_by_type = Map.empty\<rparr>)],
      events = events first_submit_db @
               [\<lparr>ev_id = 2, ev_user = 7, ev_kind = Reset, from_value = 1, to_value = 1,
                 ev_local_date = 105, ev_note = NoNote, created_at = 5\<rparr>],
      next_event_id = 3\<rparr>"

lemma second_submit:
  "update_streak_and_attempt_count default_settings 5 7 105 first_submit_db =
     Inr (Some \<lparr>si_current = 1, si_event = Reset\<rparr>, lost_streak_db)"
  by (simp add: update_streak_and_attempt_count_def submitted_stats_def stats_or_new_def
      get_stats_row_def first_submit_db_def lost_streak_db_def streak_transition_def
      unique_violation_def try_cover_gap_def missed_dates_def covered_dates_def upt_rec
      record_transition_def default_settings_def add_event_def put_stats_def)

lemma reachable_lost_streak: "streak_reachable default_settings (\<lambda>_ _. 0) lost_streak_db"
  by (blast intro: reachable_first_submit second_submit streak_step.submit streak_reachable.step)

lemma load_lost_streak:
  "load_restorable default_settings 9 7 lost_streak_db =
     Some \<lparr>reset_id = 2, rr_from_value = 1, rr_local_date = 105, rr_run = 1\<rparr>"
  by (simp add: load_restorable_def lost_streak_db_def first_submit_db_def events_of_def
      default_settings_def hours_us_def is_transition_def)

lemma repair_lost_streak:
  "\<exists>db'. repair_streak default_settings (\<lambda>_ _. 0) 9 7 ''UTC'' lost_streak_db = Inr (2, db')"
  unfolding repair_streak_def load_lost_streak
  by (simp add: lost_streak_db_def get_stats_row_def restores_to_def Let_def)

theorem reset_repaired_at_most_once_witness: "cur_of lost_streak_db 7 < 2"
proof -
  obtain db' where "repair_streak default_settings (\<lambda>_ _. 0) 9 7 ''UTC'' lost_streak_db = Inr (2, db')"
    using repair_lost_streak by blast
  from reset_repaired_at_most_once [OF this] show ?thesis by blast
qed

section \<open>What the client is told is what repairing gives\<close>

lemma no_row_no_events:
  assumes "streak_inv S db" and "get_stats_row db u = None"
  shows "events_of u db = []"
  using streak_invD(3) [OF assms(1)] assms(2)
  by (force simp: events_of_def filter_empty_conv simp del: not_None_eq)

text \<open>
  The value shown to the client as restorable is exactly what a repair at the same moment
  returns, and nothing is shown exactly when the repair is refused.
\<close>

theorem restorable_value_iff_repair:
  assumes "streak_reachable S off db" and "freeze_settings_ok S"
  shows "restorable_value S now u db = Some v \<longleftrightarrow>
    (\<exists>db'. repair_streak S off now u tz db = Inr (v, db'))"
proof (cases "get_stats_row db u")
  case None
  have "load_restorable S now u db = None"
    using no_row_no_events [OF streak_reachable_inv [OF assms] None]
    by (simp add: load_restorable_def)
  then show ?thesis by (simp add: restorable_value_def repair_streak_def)
next
  case (Some s)
  then show ?thesis
    by (auto simp: restorable_value_def repair_streak_def Let_def split: option.splits)
qed

theorem restorable_value_iff_repair_witness:
  "restorable_value default_settings 9 7 lost_streak_db = Some 2"
  using repair_lost_streak unfolding restorable_value_iff_repair
    [OF reachable_lost_streak default_freeze_settings_ok, where tz = "''UTC''", symmetric] .

section \<open>Outages\<close>

text \<open>
  Filling an outage day is idempotent and free: no balance and no streak changes, afterwards
  every user who was ever active carries a freeze row for the day, and a second run writes nothing.
\<close>

theorem outage_freeze_idempotent_and_free:
  assumes "outage_freeze now d db = (n, db')"
  shows "stats_tbl db' = stats_tbl db \<and>
    (\<forall>(u, s)\<in>set (stats_tbl db). last_active_local_date s \<noteq> None \<longrightarrow>
       d \<in> set (covered_dates db' u [d])) \<and>
    outage_freeze now' d db' = (0, db')"
proof -
  define has where "has = (\<lambda>u (es :: streak_event list). \<exists>e\<in>set es. ev_user e = u \<and> ev_local_date e = d \<and> ev_kind e = FreezeUsed)"
  define rows where "rows = filter (\<lambda>(u, s). last_active_local_date s \<noteq> None \<and> \<not> has u (events db))
      (stats_tbl db)"
  have db': "db' = add_rows now FreezeUsed (map (\<lambda>(u, s). (u, current_streak s, d, Outage)) rows) db"
    using assms by (auto simp: outage_freeze_def rows_def has_def Let_def)
  have has_covered: "d \<in> set (covered_dates db' u [d])" if "has u (events db')" for u
    using that by (auto simp: has_def covered_dates_def)
  have covered: "has u (events db')"
    if "(u, s) \<in> set (stats_tbl db)" "last_active_local_date s \<noteq> None" for u s
  proof (cases "has u (events db)")
    case True
    then show ?thesis using events_grow_add_rows unfolding db' has_def by blast
  next
    case False
    with that have "(u, s) \<in> set rows" by (simp add: rows_def)
    then have "(u, current_streak s, d, Outage) \<in> set (map (\<lambda>(u, s). (u, current_streak s, d, Outage)) rows)"
      by force
    from covered_dates_add_rows [OF this, where ds = "[d]"] show ?thesis
      by (auto simp: db' has_def covered_dates_def)
  qed
  have "filter (\<lambda>(u, s). last_active_local_date s \<noteq> None \<and> \<not> has u (events db')) (stats_tbl db') = []"
    using covered by (auto simp: filter_empty_conv db')
  then have "outage_freeze now' d db' = (0, db')" by (simp add: outage_freeze_def has_def)
  with covered has_covered show ?thesis by (auto simp: db')
qed

theorem outage_freeze_idempotent_and_free_witness:
  "stats_tbl (snd (outage_freeze 3 103 first_submit_db)) = stats_tbl first_submit_db"
proof -
  obtain n db' where "outage_freeze 3 103 first_submit_db = (n, db')" by fastforce
  from outage_freeze_idempotent_and_free [OF this] this show ?thesis by simp
qed

section \<open>A timezone change that moves the last active day back\<close>



end
