(* ===== verification/Mastery.thy ===== *)
theory Mastery
  imports Streak
begin

text \<open>
  What a known grade changes: the row per user and concept (\<open>update_concept_state\<close>) and the
  counters of the stats row (\<open>update_correctness_stats\<close>, \<open>core/accuracy.py\<close>).
  A mastery is a \<open>numeric(4,3)\<close>; it is held here in thousandths, so that the decimal
  products of the code are products of integers and \<open>quantize\<close> is \<open>round_half_even\<close>.
\<close>

section \<open>Concept state\<close>

datatype concept_outcome = Correct | Incorrect | Skipped

record concept_state =
  mastery :: int
  attempts :: int
  correct :: int
  declined :: int
  last_seen_at :: "instant option"
  next_review_at :: "instant option"

type_synonym concept_tbl = "((uid \<times> string) \<times> concept_state) list"

definition new_concept_state :: concept_state where
  "new_concept_state = \<lparr>mastery = 0, attempts = 0, correct = 0, declined = 0,
     last_seen_at = None, next_review_at = None\<rparr>"

definition skip_concept :: "instant \<Rightarrow> concept_state \<Rightarrow> concept_state" where
  "skip_concept now row =
     row\<lparr>declined := declined row + 1,
         mastery := round_half_even (mastery row * 85) 100,
         next_review_at := Some (now + days_us 1)\<rparr>"

definition grade_concept :: "bool \<Rightarrow> instant \<Rightarrow> concept_state \<Rightarrow> concept_state" where
  "grade_concept is_correct now row =
     (let already_correct_before = correct row > 0;
          target = (if is_correct then 1000 else 0);
          interval_days = (if \<not> is_correct then 2 else if already_correct_before then 21 else 7)
      in row\<lparr>attempts := attempts row + 1,
             correct := (if is_correct then correct row + 1 else correct row),
             mastery := round_half_even (mastery row * 7 + target * 3) 10,
             next_review_at := Some (now + days_us interval_days)\<rparr>)"

definition touch_concept :: "concept_outcome \<Rightarrow> instant \<Rightarrow> concept_state \<Rightarrow> concept_state" where
  "touch_concept outcome now row =
     (if outcome = Skipped then skip_concept now row
      else grade_concept (outcome = Correct) now row)\<lparr>last_seen_at := Some now\<rparr>"

definition concept_row :: "concept_tbl \<Rightarrow> uid \<Rightarrow> string \<Rightarrow> concept_state" where
  "concept_row t u c = (case map_of t (u, c) of None \<Rightarrow> new_concept_state | Some r \<Rightarrow> r)"

fun update_concept_state ::
    "uid \<Rightarrow> string list \<Rightarrow> concept_outcome \<Rightarrow> instant \<Rightarrow> concept_tbl \<Rightarrow> concept_tbl" where
  "update_concept_state u [] outcome now t = t"
| "update_concept_state u (c # cs) outcome now t =
     update_concept_state u cs outcome now 
       (AList.update (u, c) (touch_concept outcome now (concept_row t u c)) t)"

section \<open>Correctness counters\<close>

definition bump_accuracy :: "(string \<rightharpoonup> int \<times> int) \<Rightarrow> string \<Rightarrow> bool \<Rightarrow> (string \<rightharpoonup> int \<times> int)" where
  "bump_accuracy acc exercise_type is_correct =
     (let (a, c) = (case acc exercise_type of None \<Rightarrow> (0, 0) | Some p \<Rightarrow> p)
      in acc(exercise_type \<mapsto> (a + 1, if is_correct then c + 1 else c)))"

definition update_correctness_stats ::
    "settings \<Rightarrow> uid \<Rightarrow> string \<Rightarrow> bool \<Rightarrow> streak_db \<Rightarrow> streak_db" where
  "update_correctness_stats S u exercise_type is_correct db =
     (let stats = stats_or_new S db u
      in put_stats u (stats\<lparr>total_correct := (if is_correct then total_correct stats + 1
                                            else total_correct stats),
                            accuracy_by_type :=
                              bump_accuracy (accuracy_by_type stats) exercise_type is_correct\<rparr>) db)"

section \<open>Range of a mastery\<close>

definition concept_ok :: "concept_state \<Rightarrow> bool" where
  "concept_ok r \<longleftrightarrow> 0 \<le> mastery r \<and> mastery r \<le> 1000 \<and> 0 \<le> correct r \<and> correct r \<le> attempts r \<and>
     0 \<le> declined r"

lemma new_concept_ok [simp]: "concept_ok new_concept_state"
  by (simp add: concept_ok_def new_concept_state_def)

lemma touch_concept_ok:
  assumes "concept_ok r"
  shows "concept_ok (touch_concept outcome now r)"
proof -
  have m: "0 \<le> mastery r" "mastery r \<le> 1000" using assms by (simp_all add: concept_ok_def)
  have "round_half_even (mastery r * 85) 100 \<le> 1000" by (rule round_half_even_le) (use m in simp_all)
  moreover have "round_half_even (mastery r * 7 + 3000) 10 \<le> 1000"
    by (rule round_half_even_le) (use m in simp_all)
  moreover have "round_half_even (mastery r * 7) 10 \<le> 1000"
    by (rule round_half_even_le) (use m in simp_all)
  ultimately show ?thesis using assms
    by (auto simp: concept_ok_def touch_concept_def skip_concept_def grade_concept_def Let_def
        intro!: round_half_even_nonneg)
qed

definition concept_tbl_ok :: "concept_tbl \<Rightarrow> bool" where
  "concept_tbl_ok t \<longleftrightarrow> (\<forall>k r. map_of t k = Some r \<longrightarrow> concept_ok r)"

lemma concept_row_ok: "concept_tbl_ok t \<Longrightarrow> concept_ok (concept_row t u c)"
  by (simp add: concept_tbl_ok_def concept_row_def split: option.split)

lemma update_concept_state_ok [preserve]:
  "concept_tbl_ok t \<Longrightarrow> concept_tbl_ok (update_concept_state u cs outcome now t)"
proof (induction cs arbitrary: t)
  case (Cons c cs)
  have "concept_tbl_ok (AList.update (u, c) (touch_concept outcome now (concept_row t u c)) t)"
    using Cons.prems touch_concept_ok [OF concept_row_ok [OF Cons.prems]]
    by (auto simp: concept_tbl_ok_def update_conv' split: if_splits)
  then show ?case unfolding update_concept_state.simps by (rule Cons.IH)
qed simp

lemma update_concept_state_other [frame]:
  "v \<noteq> u \<or> d \<notin> set cs \<Longrightarrow> map_of (update_concept_state u cs outcome now t) (v, d) = map_of t (v, d)"
  by (induction cs arbitrary: t) (auto simp: update_conv')

lemma concept_row_update [simp]:
  "concept_row (AList.update (u, c) r t) v d = (if v = u \<and> d = c then r else concept_row t v d)"
  by (auto simp: concept_row_def update_conv')

lemma update_concept_state_row:
  assumes "distinct cs" and "c \<in> set cs"
  shows "map_of (update_concept_state u cs outcome now t) (u, c) =
    Some (touch_concept outcome now (concept_row t u c))"
  using assms
proof (induction cs arbitrary: t)
  case (Cons d cs)
  show ?case
  proof (cases "c = d")
    case True
    then show ?thesis using Cons.prems by (simp add: update_concept_state_other update_conv')
  next
    case False
    then show ?thesis using Cons by simp
  qed
qed simp

section \<open>Properties\<close>

text \<open>
  Every mastery stays between 0 and 1, and the counters of a row consistent, whatever grades
  arrive for whatever concepts; rows of other users and other concepts are not touched.
\<close>

theorem mastery_stays_in_unit_interval:
  assumes "\<forall>k r. map_of t k = Some r \<longrightarrow> 0 \<le> mastery r \<and> mastery r \<le> 1000 \<and> 0 \<le> correct r \<and>
    correct r \<le> attempts r \<and> 0 \<le> declined r"
  shows "(\<forall>k r. map_of (update_concept_state u cs outcome now t) k = Some r \<longrightarrow>
      0 \<le> mastery r \<and> mastery r \<le> 1000 \<and> 0 \<le> correct r \<and> correct r \<le> attempts r \<and> 0 \<le> declined r) \<and>
    (\<forall>v d. v \<noteq> u \<or> d \<notin> set cs \<longrightarrow>
      map_of (update_concept_state u cs outcome now t) (v, d) = map_of t (v, d))"
  using update_concept_state_ok [of t u cs outcome now] assms update_concept_state_other
  unfolding concept_tbl_ok_def concept_ok_def by blast

theorem mastery_stays_in_unit_interval_witness:
  "\<exists>r. map_of (update_concept_state 7 [''loops''] Correct 0 []) (7, ''loops'') = Some r \<and>
     mastery r \<le> 1000"
proof -
  obtain r where "map_of (update_concept_state 7 [''loops''] Correct 0 []) (7, ''loops'') = Some r"
    by simp
  with mastery_stays_in_unit_interval [of "[]" 7 "[''loops'']" Correct 0] show ?thesis by auto
qed

text \<open>
  The three outcomes are ordered as the review schedule promises. From the same row, a correct
  answer leaves at least as much mastery as a skip, a skip at least as much as a wrong answer; a skip
  is reviewed after 1 day, a wrong answer after 2, a right one after 7, and after 21 when the concept
  had been answered correctly before; and only a skip leaves the accuracy denominator alone.
\<close>

theorem outcomes_are_ordered:
  assumes "distinct cs" and "c \<in> set cs" and "0 \<le> mastery (concept_row t u c)"
    and "mastery (concept_row t u c) \<le> 1000"
  shows "\<exists>r w s. map_of (update_concept_state u cs Correct now t) (u, c) = Some r \<and>
    map_of (update_concept_state u cs Incorrect now t) (u, c) = Some w \<and>
    map_of (update_concept_state u cs Skipped now t) (u, c) = Some s \<and>
    mastery w \<le> mastery s \<and> mastery s \<le> mastery r \<and> mastery s \<le> mastery (concept_row t u c) \<and>
    next_review_at s = Some (now + days_us 1) \<and> next_review_at w = Some (now + days_us 2) \<and>
    next_review_at r = Some (now + days_us (if 0 < correct (concept_row t u c) then 21 else 7)) \<and>
    attempts s = attempts (concept_row t u c) \<and> attempts w = attempts (concept_row t u c) + 1 \<and>
    attempts r = attempts (concept_row t u c) + 1"
proof -
  let ?m = "mastery (concept_row t u c)"
  have "round_half_even (?m * 7) 10 = round_half_even (?m * 70) 100"
    using round_half_even_scale [of 10 10 "?m * 7"] by (simp add: mult.assoc)
  also have "\<dots> \<le> round_half_even (?m * 85) 100" by (rule round_half_even_mono) (use assms in simp_all)
  finally have ws: "round_half_even (?m * 7) 10 \<le> round_half_even (?m * 85) 100" .
  have "round_half_even (?m * 85) 100 \<le> round_half_even (?m * 70 + 30000) 100"
    by (rule round_half_even_mono) (use assms in simp_all)
  also have "\<dots> = round_half_even (?m * 7 + 3000) 10"
    using round_half_even_scale [of 10 10 "?m * 7 + 3000"] by (simp add: algebra_simps)
  finally have sr: "round_half_even (?m * 85) 100 \<le> round_half_even (?m * 7 + 3000) 10" .
  have sm: "round_half_even (?m * 85) 100 \<le> ?m" by (rule round_half_even_le) (use assms in simp_all)
  show ?thesis using ws sr sm
    by (simp add: update_concept_state_row [OF assms(1,2)] touch_concept_def skip_concept_def
        grade_concept_def Let_def)
qed

theorem outcomes_are_ordered_witness:
  "\<exists>w s. map_of (update_concept_state 7 [''loops''] Incorrect 0
       [((7, ''loops''), new_concept_state\<lparr>mastery := 500\<rparr>)]) (7, ''loops'') = Some w \<and>
     map_of (update_concept_state 7 [''loops''] Skipped 0
       [((7, ''loops''), new_concept_state\<lparr>mastery := 500\<rparr>)]) (7, ''loops'') = Some s \<and>
     mastery w \<le> mastery s"
  using outcomes_are_ordered
    [of "[''loops'']" "''loops''" "[((7, ''loops''), new_concept_state\<lparr>mastery := 500\<rparr>)]" 7 0]
  by (simp add: concept_row_def)

end
