(* ===== verification/Sampler.thy ===== *)
theory Sampler
  imports Prelude
begin

text \<open>
  The session sampler, \<open>sessions/sampler.py\<close>: due concepts, curriculum fill, one boss slot,
  degradation pad. A difficulty is a \<open>numeric(4,2)\<close> column or a small integer; it is held in
  hundredths, so distances between difficulties are exact (two candidates at the same exact distance
  on either side of a target are taken in list order). The order in which Python walks a set of
  concept names is not specified; \<open>enum\<close>, a listing of the elements, is a parameter.
\<close>

section \<open>Candidates\<close>

record candidate =
  cand_id :: nat
  cand_version :: nat
  cand_type :: string
  difficulty_authored :: int
  cand_concepts :: "string list"
  est_time_s :: int
  difficulty :: int

record session_slot =
  slot :: nat
  slot_exercise_id :: nat
  slot_version :: nat
  is_boss :: bool

text \<open>A row of the join of \<open>exercises_current\<close> with \<open>exercise_stats\<close>.\<close>

record live_row =
  row_id :: nat
  row_version :: nat
  row_language :: string
  row_type :: string
  row_difficulty_authored :: int
  row_difficulty_empirical :: "int option"
  row_concepts :: "string list"
  row_est_time_s :: int
  row_attempts_count :: "int option"

definition fetch_candidates :: "string \<Rightarrow> string list \<Rightarrow> live_row list \<Rightarrow> candidate list" where
  "fetch_candidates language types rows =
     map (\<lambda>r. \<lparr>cand_id = row_id r, cand_version = row_version r, cand_type = row_type r,
                difficulty_authored = row_difficulty_authored r, cand_concepts = row_concepts r,
                est_time_s = row_est_time_s r,
                difficulty =
                  (case row_difficulty_empirical r of
                     None \<Rightarrow> row_difficulty_authored r * 100
                   | Some e \<Rightarrow>
                       if 30 \<le> (case row_attempts_count r of None \<Rightarrow> 0 | Some n \<Rightarrow> n) then e
                       else row_difficulty_authored r * 100)\<rparr>)
       (filter (\<lambda>r. row_language r = language \<and> row_type r \<in> set types) rows)"

definition difficulty_band :: "int \<Rightarrow> bool \<Rightarrow> string" where
  "difficulty_band authored boss =
     (if boss then ''boss'' else if authored \<le> 3 then ''easy''
      else if authored \<le> 6 then ''medium'' else ''hard'')"

definition level_difficulty_of :: "string \<Rightarrow> int option" where
  "level_difficulty_of level = map_of [(''junior'', 3), (''mid'', 5), (''senior'', 7)] level"

definition level_band_of :: "string \<Rightarrow> (int \<times> int) option" where
  "level_band_of level =
     map_of [(''junior'', (1, 5)), (''mid'', (3, 8)), (''senior'', (5, 10))] level"

section \<open>Selection\<close>

definition closest_by_difficulty :: "candidate list \<Rightarrow> int \<Rightarrow> candidate list" where
  "closest_by_difficulty cs target = sort_key (\<lambda>c. \<bar>difficulty c - 100 * target\<bar>) cs"

definition in_band :: "int \<times> int \<Rightarrow> candidate \<Rightarrow> bool" where
  "in_band band c \<longleftrightarrow> 100 * fst band \<le> difficulty c \<and> difficulty c \<le> 100 * snd band"

text \<open>\<open>pick\<close> returns the choice and the ids used after it.\<close>

definition pick :: "nat set \<Rightarrow> nat list \<Rightarrow> candidate list \<Rightarrow> candidate option \<times> nat list" where
  "pick seen used pool =
     (let available = filter (\<lambda>c. cand_id c \<notin> set used) pool in
      if available = [] then (None, used)
      else
        (let fresh = filter (\<lambda>c. cand_id c \<notin> seen) available;
             chosen = (if fresh \<noteq> [] then hd fresh else hd available)
         in (Some chosen, cand_id chosen # used)))"

type_synonym selection = "nat list \<times> candidate list"

definition append_choice :: "candidate option \<times> nat list \<Rightarrow> candidate list \<Rightarrow> selection" where
  "append_choice p sel = (snd p, case fst p of None \<Rightarrow> sel | Some c \<Rightarrow> sel @ [c])"

fun due_loop ::
    "candidate list \<Rightarrow> nat set \<Rightarrow> int \<times> int \<Rightarrow> int \<Rightarrow> string list \<Rightarrow> selection \<Rightarrow> selection" where
  "due_loop cands seen band level [] st = st"
| "due_loop cands seen band level (concept # cs) (used, sel) =
     (if 4 \<le> length sel then (used, sel)
      else due_loop cands seen band level cs
        (append_choice
           (pick seen used
              (closest_by_difficulty
                 (filter (\<lambda>c. concept \<in> set (cand_concepts c) \<and> in_band band c) cands) level)) sel))"

definition weakest_first ::
    "(string list \<Rightarrow> string list) \<Rightarrow> (string \<rightharpoonup> int) \<Rightarrow> candidate list \<Rightarrow> string list" where
  "weakest_first enum concept_mastery banded =
     sort_key (\<lambda>k. case concept_mastery k of None \<Rightarrow> 0 | Some m \<Rightarrow> m)
       (enum (concat (map cand_concepts banded)))"

definition banded :: "candidate list \<Rightarrow> int \<times> int \<Rightarrow> nat list \<Rightarrow> candidate list" where
  "banded cands band used = filter (\<lambda>c. cand_id c \<notin> set used \<and> in_band band c) cands"

definition weakest_pool :: "candidate list \<Rightarrow> string \<Rightarrow> int \<Rightarrow> candidate list" where
  "weakest_pool bs weakest level =
     closest_by_difficulty (filter (\<lambda>c. weakest \<in> set (cand_concepts c)) bs) level"

function fill_loop ::
    "(string list \<Rightarrow> string list) \<Rightarrow> (string \<rightharpoonup> int) \<Rightarrow> candidate list \<Rightarrow> nat set \<Rightarrow> int \<times> int \<Rightarrow> int
       \<Rightarrow> nat list \<Rightarrow> candidate list \<Rightarrow> selection result" where
  "fill_loop enum mast cands seen band level used sel =
     (if 4 \<le> length sel then Inr (used, sel)
      else if banded cands band used = [] then Inr (used, sel)
      else
        (case weakest_first enum mast (banded cands band used) of
           [] \<Rightarrow> Inl IndexError
         | weakest # _ \<Rightarrow>
             (case pick seen used (weakest_pool (banded cands band used) weakest level) of
                (None, used') \<Rightarrow> Inr (used', sel)
              | (Some c, used') \<Rightarrow>
                  fill_loop enum mast cands seen band level used' (sel @ [c]))))"
  by pat_completeness auto
termination
  by (relation "measure (\<lambda>(enum, mast, cands, seen, band, level, used, sel). 4 - length sel)") auto

declare fill_loop.simps [simp del]

definition boss_max :: "int \<times> int \<Rightarrow> int" where
  "boss_max band = min 10 (snd band + 2)"

definition boss_target :: "int \<times> int \<Rightarrow> int \<Rightarrow> int" where
  "boss_target band level = min (boss_max band) (max 7 (level + 2))"

definition boss_eligible :: "candidate list \<Rightarrow> int \<times> int \<Rightarrow> nat list \<Rightarrow> candidate list" where
  "boss_eligible cands band used =
     sort_key (\<lambda>c. - difficulty c)
       (filter (\<lambda>c. cand_id c \<notin> set used \<and> 100 * fst band \<le> difficulty c \<and>
                  difficulty c \<le> 100 * boss_max band) cands)"

text \<open>\<open>pick(a) or pick(b)\<close>: the second call happens only when the first found nothing.\<close>

definition pick_or ::
    "nat set \<Rightarrow> nat list \<Rightarrow> candidate list \<Rightarrow> candidate list \<Rightarrow> candidate option \<times> nat list" where
  "pick_or seen used pool1 pool2 =
     (case pick seen used pool1 of
        (Some c, used') \<Rightarrow> (Some c, used')
      | (None, used') \<Rightarrow> pick seen used' pool2)"

definition choose_boss ::
    "candidate list \<Rightarrow> nat set \<Rightarrow> int \<times> int \<Rightarrow> int \<Rightarrow> nat list \<Rightarrow> nat
       \<Rightarrow> candidate option \<times> nat list" where
  "choose_boss cands seen band level used n =
     (let eligible = boss_eligible cands band used;
          hard_enough = filter (\<lambda>c. 100 * boss_target band level \<le> difficulty c) eligible
      in case pick_or seen used hard_enough eligible of
           (Some c, used') \<Rightarrow> (Some c, used')
         | (None, used') \<Rightarrow>
             if n < 3
             then pick seen used'
                    (closest_by_difficulty (filter (\<lambda>c. cand_id c \<notin> set used') cands) (boss_max band))
             else (None, used'))"

function pad_loop ::
    "candidate list \<Rightarrow> nat set \<Rightarrow> int \<Rightarrow> nat \<Rightarrow> nat list \<Rightarrow> candidate list \<Rightarrow> selection" where
  "pad_loop cands seen level b used sel =
     (if 3 \<le> length sel + b then (used, sel)
      else
        (case pick seen used
                (closest_by_difficulty (filter (\<lambda>c. cand_id c \<notin> set used) cands) level) of
           (None, used') \<Rightarrow> (used', sel)
         | (Some c, used') \<Rightarrow> pad_loop cands seen level b used' (sel @ [c])))"
  by pat_completeness auto
termination
  by (relation "measure (\<lambda>(cands, seen, level, b, used, sel). 3 - (length sel + b))") auto

declare pad_loop.simps [simp del]

definition number_slots :: "candidate list \<Rightarrow> candidate option \<Rightarrow> session_slot list" where
  "number_slots sel boss =
     (let slots = map (\<lambda>(i, c). \<lparr>slot = i + 1, slot_exercise_id = cand_id c,
                                 slot_version = cand_version c, is_boss = False\<rparr>) (enumerate 0 sel)
      in case boss of
           None \<Rightarrow> slots
         | Some c \<Rightarrow> slots @ [\<lparr>slot = length slots + 1, slot_exercise_id = cand_id c,
                               slot_version = cand_version c, is_boss = True\<rparr>])"

definition select_candidates ::
    "(string list \<Rightarrow> string list) \<Rightarrow> candidate list \<Rightarrow> string list \<Rightarrow> (string \<rightharpoonup> int) \<Rightarrow> nat set
       \<Rightarrow> int \<Rightarrow> int \<times> int \<Rightarrow> (candidate list \<times> candidate option) result" where
  "select_candidates enum cands due mast seen level band =
     (case due_loop cands seen band level due ([], []) of
        (used1, sel1) \<Rightarrow>
          (case fill_loop enum mast cands seen band level used1 sel1 of
             Inl e \<Rightarrow> Inl e
           | Inr (used2, sel2) \<Rightarrow>
               (case choose_boss cands seen band level used2 (length sel2) of
                  (boss, used3) \<Rightarrow>
                    Inr (snd (pad_loop cands seen level (case boss of None \<Rightarrow> 0 | Some _ \<Rightarrow> 1) used3 sel2),
                         boss))))"

definition build_session_slots ::
    "(string list \<Rightarrow> string list) \<Rightarrow> candidate list \<Rightarrow> string list \<Rightarrow> (string \<rightharpoonup> int) \<Rightarrow> nat set
       \<Rightarrow> int \<Rightarrow> int \<times> int \<Rightarrow> session_slot list result" where
  "build_session_slots enum cands due mast seen level band =
     map_sum id (\<lambda>(sel, boss). number_slots sel boss)
       (select_candidates enum cands due mast seen level band)"

end
