(* ===== verification/Sampler_Props.thy ===== *)
theory Sampler_Props
  imports Sampler
begin

text \<open>
  What a built session promises. Each stage extends a selection whose ids are exactly the used ones;
  \<open>sel_ok\<close> is that invariant, and the stages differ in the candidates they may add.
\<close>

section \<open>One pick\<close>

lemma pick_None [simp]: "fst (pick seen used pool) = None \<longleftrightarrow> (\<forall>c\<in>set pool. cand_id c \<in> set used)"
  by (auto simp: pick_def Let_def filter_empty_conv)

lemma pick_NoneD: "pick seen used pool = (None, used') \<Longrightarrow>
    used' = used \<and> (\<forall>c\<in>set pool. cand_id c \<in> set used)"
  by (auto simp: pick_def Let_def filter_empty_conv split: if_splits)

lemma pick_SomeD:
  assumes "pick seen used pool = (Some c, used')"
  shows "c \<in> set pool" "cand_id c \<notin> set used" "used' = cand_id c # used"
    "cand_id c \<in> seen \<Longrightarrow> d \<in> set pool \<Longrightarrow> cand_id d \<notin> set used \<Longrightarrow> cand_id d \<in> seen"
proof -
  define av where "av = filter (\<lambda>c. cand_id c \<notin> set used) pool"
  define fresh where "fresh = filter (\<lambda>c. cand_id c \<notin> seen) av"
  have ne: "av \<noteq> []" and c: "c = (if fresh \<noteq> [] then hd fresh else hd av)" and u: "used' = cand_id c # used"
    using assms by (auto simp: pick_def Let_def av_def fresh_def split: if_splits)
  have "c \<in> set av"
  proof (cases "fresh = []")
    case True
    then show ?thesis using ne c by simp
  next
    case False
    then have "c \<in> set fresh" using c by simp
    then show ?thesis by (simp add: fresh_def)
  qed
  then show "c \<in> set pool" "cand_id c \<notin> set used" "used' = cand_id c # used"
    using u by (simp_all add: av_def)
  show "cand_id d \<in> seen" if "cand_id c \<in> seen" "d \<in> set pool" "cand_id d \<notin> set used"
  proof (rule ccontr)
    assume "cand_id d \<notin> seen"
    then have "d \<in> set fresh" using that by (simp add: fresh_def av_def)
    then have "c \<in> set fresh" using c by (auto simp: hd_in_set)
    with that(1) show False by (simp add: fresh_def)
  qed
qed

lemma set_closest [simp]: "set (closest_by_difficulty cs t) = set cs"
  by (simp add: closest_by_difficulty_def)

section \<open>The invariant of a selection\<close>

definition sel_ok :: "candidate list \<Rightarrow> nat list \<Rightarrow> candidate list \<Rightarrow> bool" where
  "sel_ok cands used sel \<longleftrightarrow>
     set used = cand_id ` set sel \<and> distinct (map cand_id sel) \<and> set sel \<subseteq> set cands"

lemma sel_ok_append:
  assumes "sel_ok cands used sel" and "pick seen used pool = (Some c, used')" and "set pool \<subseteq> set cands"
  shows "sel_ok cands used' (sel @ [c])"
  using assms(1,3) pick_SomeD [OF assms(2)] by (auto simp: sel_ok_def)

lemma due_loop_ok:
  assumes "due_loop cands seen band level due (used, sel) = (used', sel')"
    and "sel_ok cands used sel" and "\<forall>c\<in>set sel. in_band band c" and "length sel \<le> 4"
  shows "sel_ok cands used' sel' \<and> (\<forall>c\<in>set sel'. in_band band c) \<and> length sel' \<le> 4 \<and>
    (\<exists>xs. sel' = sel @ xs)"
  using assms
proof (induction due arbitrary: used sel)
  case (Cons k due)
  show ?case
  proof (cases "4 \<le> length sel")
    case False
    let ?pool = "closest_by_difficulty
      (filter (\<lambda>c. k \<in> set (cand_concepts c) \<and> in_band band c) cands) level"
    show ?thesis
    proof (cases "pick seen used ?pool")
      case (Pair ch u)
      show ?thesis
      proof (cases ch)
        case None
        with Pair Cons.prems False pick_NoneD [of seen used ?pool u] show ?thesis
          by (intro Cons.IH) (auto simp: append_choice_def)
      next
        case (Some c)
        note p = Pair [unfolded Some]
        have "due_loop cands seen band level due (u, sel @ [c]) = (used', sel')"
          using Cons.prems(1) False p by (simp add: append_choice_def)
        moreover have "sel_ok cands u (sel @ [c])" by (rule sel_ok_append [OF Cons.prems(2) p]) auto
        moreover have "in_band band c" using pick_SomeD(1) [OF p] by simp
        ultimately have "sel_ok cands used' sel' \<and> (\<forall>c\<in>set sel'. in_band band c) \<and> length sel' \<le> 4 \<and>
            (\<exists>xs. sel' = (sel @ [c]) @ xs)"
          using Cons.prems False by (intro Cons.IH) auto
        then show ?thesis by auto
      qed
    qed
  qed (use Cons.prems in auto)
qed auto

lemma banded_subset: "set (banded cands band used) \<subseteq> set cands"
  "c \<in> set (banded cands band used) \<Longrightarrow> in_band band c \<and> cand_id c \<notin> set used"
  by (auto simp: banded_def)

lemma fill_loop_step:
  assumes "\<not> 4 \<le> length sel" and "banded cands band used \<noteq> []"
    and "weakest_first enum mast (banded cands band used) = w # ws"
    and "pick seen used (weakest_pool (banded cands band used) w level) = (Some c, used')"
  shows "fill_loop enum mast cands seen band level used sel =
    fill_loop enum mast cands seen band level used' (sel @ [c])"
  using assms by (subst fill_loop.simps) simp

lemma weakest_pool_subset: "c \<in> set (weakest_pool bs w level) \<Longrightarrow> c \<in> set bs \<and> w \<in> set (cand_concepts c)"
  by (simp add: weakest_pool_def)

lemma weakest_is_a_concept:
  assumes "\<And>xs. set (enum xs) = set xs" and "weakest_first enum mast bs = w # ws"
  shows "\<exists>c\<in>set bs. w \<in> set (cand_concepts c)"
proof -
  have "set (weakest_first enum mast bs) = (\<Union>c\<in>set bs. set (cand_concepts c))"
    by (simp add: weakest_first_def assms(1))
  then show ?thesis using assms(2) by auto
qed

lemma fill_loop_ok:
  assumes "fill_loop enum mast cands seen band level used sel = Inr (used', sel')"
    and "\<And>xs. set (enum xs) = set xs"
    and "sel_ok cands used sel" and "\<forall>c\<in>set sel. in_band band c" and "length sel \<le> 4"
  shows "sel_ok cands used' sel' \<and> (\<forall>c\<in>set sel'. in_band band c) \<and> length sel' \<le> 4 \<and>
    (\<exists>xs. sel' = sel @ xs) \<and> (length sel' = 4 \<or> banded cands band used' = [])"
  using assms(1,3,4,5)
proof (induction "4 - length sel" arbitrary: used sel rule: less_induct)
  case less
  let ?b = "banded cands band used"
  show ?case
  proof (cases "4 \<le> length sel \<or> ?b = []")
    case True
    then have "used' = used \<and> sel' = sel"
      using less.prems(1) by (subst (asm) fill_loop.simps) (auto split: if_splits)
    with True less.prems show ?thesis by auto
  next
    case False
    obtain w ws where w: "weakest_first enum mast ?b = w # ws"
      using False less.prems(1) by (subst (asm) fill_loop.simps) (auto split: list.splits)
    let ?pool = "weakest_pool ?b w level"
    obtain ch u where p: "pick seen used ?pool = (ch, u)" by fastforce
    obtain d where d: "d \<in> set ?b" "w \<in> set (cand_concepts d)"
      using weakest_is_a_concept [OF assms(2) w] by blast
    then have "d \<in> set ?pool" "cand_id d \<notin> set used"
      using banded_subset(2) by (auto simp: weakest_pool_def)
    then obtain c where c: "ch = Some c" using p pick_None [of seen used ?pool] by (cases ch) auto
    note p' = p [unfolded c]
    have pool: "c \<in> set ?b" using pick_SomeD(1) [OF p'] weakest_pool_subset by blast
    have "sel_ok cands u (sel @ [c])"
      using weakest_pool_subset banded_subset(1) by (intro sel_ok_append [OF less.prems(2) p']) blast
    moreover have "fill_loop enum mast cands seen band level u (sel @ [c]) = Inr (used', sel')"
      using fill_loop_step [OF _ _ w p'] False less.prems(1) by auto
    moreover have "\<forall>x\<in>set (sel @ [c]). in_band band x" using less.prems(3) banded_subset(2) [OF pool] by auto
    ultimately have "sel_ok cands used' sel' \<and> (\<forall>c\<in>set sel'. in_band band c) \<and> length sel' \<le> 4 \<and>
        (\<exists>xs. sel' = (sel @ [c]) @ xs) \<and> (length sel' = 4 \<or> banded cands band used' = [])"
      using False by (intro less.hyps) auto
    then show ?thesis by auto
  qed
qed

text \<open>The one way the fill can raise: an in-band candidate that lists no concept.\<close>

lemma fill_loop_returns:
  assumes "\<And>xs. set (enum xs) = set xs" and "\<forall>c\<in>set cands. cand_concepts c \<noteq> []"
  shows "\<exists>r. fill_loop enum mast cands seen band level used sel = Inr r"
proof (induction "4 - length sel" arbitrary: used sel rule: less_induct)
  case less
  let ?b = "banded cands band used"
  show ?case
  proof (cases "4 \<le> length sel \<or> ?b = []")
    case True
    then show ?thesis by (subst fill_loop.simps) auto
  next
    case False
    have "set (weakest_first enum mast ?b) = (\<Union>c\<in>set ?b. set (cand_concepts c))"
      by (simp add: weakest_first_def assms(1))
    moreover obtain c where "c \<in> set ?b" using False by (cases ?b) auto
    ultimately have "weakest_first enum mast ?b \<noteq> []"
      using assms(2) banded_subset(1) by (metis UN_I empty_iff hd_in_set set_empty subsetD)
    then obtain w ws where w: "weakest_first enum mast ?b = w # ws" by (cases "weakest_first enum mast ?b") auto
    show ?thesis
    proof (cases "pick seen used (weakest_pool ?b w level)")
      case (Pair ch u)
      show ?thesis
      proof (cases ch)
        case None
        with False w Pair show ?thesis by (subst fill_loop.simps) simp
      next
        case (Some c)
        with False less.hyps [of "sel @ [c]" u] show ?thesis
          using fill_loop_step [OF _ _ w Pair [unfolded Some]] by auto
      qed
    qed
  qed
qed

section \<open>The boss and the pad\<close>

lemma pick_or_SomeD:
  assumes "pick_or seen used p1 p2 = (Some c, used')"
  shows "(c \<in> set p1 \<or> c \<in> set p2) \<and> cand_id c \<notin> set used \<and> used' = cand_id c # used"
  using assms unfolding pick_or_def
  by (auto split: prod.splits option.splits dest!: pick_NoneD dest: pick_SomeD(1-3))

lemma pick_or_NoneD:
  assumes "pick_or seen used p1 p2 = (None, used')"
  shows "used' = used \<and> (\<forall>c\<in>set p2. cand_id c \<in> set used)"
  using assms unfolding pick_or_def by (auto split: prod.splits option.splits dest!: pick_NoneD)

lemma boss_eligible_iff: "c \<in> set (boss_eligible cands band used) \<longleftrightarrow>
    c \<in> set cands \<and> cand_id c \<notin> set used \<and> 100 * fst band \<le> difficulty c \<and>
    difficulty c \<le> 100 * boss_max band"
  by (auto simp: boss_eligible_def)

lemma choose_boss_Some:
  assumes "choose_boss cands seen band level used n = (Some c, used')"
  shows "c \<in> set cands \<and> cand_id c \<notin> set used \<and> used' = cand_id c # used \<and>
    (n < 3 \<or> 100 * fst band \<le> difficulty c \<and> difficulty c \<le> 100 * boss_max band)"
proof (cases "pick_or seen used (filter (\<lambda>c. 100 * boss_target band level \<le> difficulty c)
    (boss_eligible cands band used)) (boss_eligible cands band used)")
  case (Pair ch u)
  show ?thesis
  proof (cases ch)
    case None
    note n = pick_or_NoneD [OF Pair [unfolded None]]
    have "n < 3" and "pick seen used (closest_by_difficulty
        (filter (\<lambda>c. cand_id c \<notin> set used) cands) (boss_max band)) = (Some c, used')"
      using assms Pair None n by (auto simp: choose_boss_def Let_def split: if_splits)
    with pick_SomeD [OF this(2)] show ?thesis by auto
  next
    case (Some d)
    with assms Pair have "d = c" "u = used'" by (simp_all add: choose_boss_def Let_def)
    with pick_or_SomeD [OF Pair [unfolded Some]] show ?thesis
      by (auto simp: boss_eligible_iff)
  qed
qed

lemma choose_boss_None:
  assumes "choose_boss cands seen band level used n = (None, used')"
  shows "used' = used \<and> (n < 3 \<longrightarrow> (\<forall>c\<in>set cands. cand_id c \<in> set used))"
proof (cases "pick_or seen used (filter (\<lambda>c. 100 * boss_target band level \<le> difficulty c)
    (boss_eligible cands band used)) (boss_eligible cands band used)")
  case (Pair ch u)
  then have None: "ch = None" using assms by (cases ch) (auto simp: choose_boss_def Let_def)
  have u: "u = used" using pick_or_NoneD [OF Pair [unfolded None]] by simp
  show ?thesis
  proof (cases "n < 3")
    case True
    then have "pick seen used (closest_by_difficulty (filter (\<lambda>c. cand_id c \<notin> set used) cands)
        (boss_max band)) = (None, used')"
      using assms Pair None u by (simp add: choose_boss_def Let_def)
    from pick_NoneD [OF this] show ?thesis by auto
  next
    case False
    with assms Pair None u show ?thesis by (simp add: choose_boss_def Let_def)
  qed
qed

definition boss_ids :: "candidate option \<Rightarrow> nat list" where
  "boss_ids b = (case b of None \<Rightarrow> [] | Some c \<Rightarrow> [cand_id c])"

lemma pad_loop_ok:
  assumes "pad_loop cands seen level b used sel = (used', sel')"
    and "set used = set extra \<union> cand_id ` set sel" and "distinct (map cand_id sel @ extra)"
    and "set sel \<subseteq> set cands"
  shows "set used' = set extra \<union> cand_id ` set sel' \<and> distinct (map cand_id sel' @ extra) \<and>
    set sel' \<subseteq> set cands \<and> (\<exists>xs. sel' = sel @ xs) \<and>
    (length sel' \<le> length sel \<or> length sel' + b \<le> 3) \<and>
    (3 \<le> length sel' + b \<or> (\<forall>c\<in>set cands. cand_id c \<in> set used'))"
  using assms
proof (induction "3 - (length sel + b)" arbitrary: used sel rule: less_induct)
  case less
  let ?pool = "closest_by_difficulty (filter (\<lambda>c. cand_id c \<notin> set used) cands) level"
  show ?case
  proof (cases "3 \<le> length sel + b")
    case True
    with less.prems show ?thesis by (subst (asm) pad_loop.simps) auto
  next
    case False
    show ?thesis
    proof (cases "pick seen used ?pool")
      case (Pair ch u)
      show ?thesis
      proof (cases ch)
        case None
        have "used' = u" "sel' = sel" using less.prems(1) False Pair None
          by (subst (asm) pad_loop.simps; simp)+
        with pick_NoneD [OF Pair [unfolded None]] less.prems show ?thesis by auto
      next
        case (Some c)
        note p = pick_SomeD [OF Pair [unfolded Some]]
        have run: "pad_loop cands seen level b u (sel @ [c]) = (used', sel')"
          using less.prems(1) False Pair Some by (subst (asm) pad_loop.simps) simp
        have "set used' = set extra \<union> cand_id ` set sel' \<and> distinct (map cand_id sel' @ extra) \<and>
            set sel' \<subseteq> set cands \<and> (\<exists>xs. sel' = (sel @ [c]) @ xs) \<and>
            (length sel' \<le> length (sel @ [c]) \<or> length sel' + b \<le> 3) \<and>
            (3 \<le> length sel' + b \<or> (\<forall>c\<in>set cands. cand_id c \<in> set used'))"
          using False run less.prems p by (intro less.hyps) auto
        with False show ?thesis by auto
      qed
    qed
  qed
qed

section \<open>The whole selection\<close>

lemma select_candidates_stages:
  assumes "select_candidates enum cands due mast seen level band = Inr (sel, boss)"
  obtains used1 sel1 used2 sel2 used3 used4 where
    "due_loop cands seen band level due ([], []) = (used1, sel1)"
    "fill_loop enum mast cands seen band level used1 sel1 = Inr (used2, sel2)"
    "choose_boss cands seen band level used2 (length sel2) = (boss, used3)"
    "pad_loop cands seen level (length (boss_ids boss)) used3 sel2 = (used4, sel)"
proof -
  have len: "(case boss of None \<Rightarrow> 0 | Some _ \<Rightarrow> 1) = length (boss_ids boss)" for boss
    by (simp add: boss_ids_def split: option.split)
  obtain used1 sel1 where d: "due_loop cands seen band level due ([], []) = (used1, sel1)" by fastforce
  obtain used2 sel2 where f: "fill_loop enum mast cands seen band level used1 sel1 = Inr (used2, sel2)"
    using assms d by (cases "fill_loop enum mast cands seen band level used1 sel1")
      (auto simp: select_candidates_def)
  obtain b used3 where c: "choose_boss cands seen band level used2 (length sel2) = (b, used3)" by fastforce
  obtain used4 sel4 where p: "pad_loop cands seen level (length (boss_ids b)) used3 sel2 = (used4, sel4)"
    by fastforce
  have "b = boss" "sel4 = sel" using assms unfolding select_candidates_def len by (simp_all add: d f c p)
  with d f c p that show ?thesis by blast
qed

lemma choose_boss_ids:
  assumes "choose_boss cands seen band level used n = (boss, used')"
  shows "set used' = set (boss_ids boss) \<union> set used" "set (boss_ids boss) \<inter> set used = {}"
    "distinct (boss_ids boss)" "length (boss_ids boss) \<le> 1"
proof -
  have "set used' = set (boss_ids boss) \<union> set used \<and> set (boss_ids boss) \<inter> set used = {}"
  proof (cases boss)
    case None
    with choose_boss_None [of cands seen band level used n used'] assms show ?thesis
      by (simp add: boss_ids_def)
  next
    case (Some b)
    with choose_boss_Some [of cands seen band level used n b used'] assms show ?thesis
      by (simp add: boss_ids_def)
  qed
  then show "set used' = set (boss_ids boss) \<union> set used" "set (boss_ids boss) \<inter> set used = {}"
    by blast+
  show "distinct (boss_ids boss)" "length (boss_ids boss) \<le> 1"
    by (simp_all add: boss_ids_def split: option.split)
qed

definition selection_ok ::
    "candidate list \<Rightarrow> int \<times> int \<Rightarrow> candidate list \<Rightarrow> candidate option \<Rightarrow> bool" where
  "selection_ok cands band sel boss \<longleftrightarrow>
     distinct (map cand_id sel @ boss_ids boss) \<and> set sel \<subseteq> set cands \<and> length sel \<le> 4 \<and>
     (case boss of None \<Rightarrow> True | Some b \<Rightarrow> b \<in> set cands \<and>
        (length sel \<le> 2 \<or> 100 * fst band \<le> difficulty b \<and> difficulty b \<le> 100 * boss_max band)) \<and>
     (3 \<le> length sel + length (boss_ids boss) \<or>
        (\<forall>c\<in>set cands. cand_id c \<in> set (map cand_id sel @ boss_ids boss))) \<and>
     ((\<forall>c\<in>set sel. in_band band c) \<or>
        length sel + length (boss_ids boss) \<le> 3 \<and>
        (\<forall>c\<in>set cands. in_band band c \<longrightarrow> cand_id c \<in> set (map cand_id sel)))"

lemma select_candidates_ok:
  assumes "select_candidates enum cands due mast seen level band = Inr (sel, boss)"
    and enum: "\<And>xs. set (enum xs) = set xs"
  shows "selection_ok cands band sel boss"
  using assms(1)
proof (cases rule: select_candidates_stages)
  case (1 used1 sel1 used2 sel2 used3 used4)
  have "sel_ok cands used1 sel1 \<and> (\<forall>c\<in>set sel1. in_band band c) \<and> length sel1 \<le> 4"
    using due_loop_ok [OF 1(1)] by (auto simp: sel_ok_def)
  then have F: "sel_ok cands used2 sel2" "\<forall>c\<in>set sel2. in_band band c" "length sel2 \<le> 4"
    "length sel2 = 4 \<or> banded cands band used2 = []"
    using fill_loop_ok [OF 1(2) enum] by blast+
  note B = choose_boss_ids [OF 1(3)]
  have u3: "set used3 = set (boss_ids boss) \<union> cand_id ` set sel2"
    and d3: "distinct (map cand_id sel2 @ boss_ids boss)" and c3: "set sel2 \<subseteq> set cands"
    using B F(1) by (auto simp: sel_ok_def)
  from pad_loop_ok [OF 1(4) u3 d3 c3] obtain xs where
    P: "set used4 = set (boss_ids boss) \<union> cand_id ` set sel" "distinct (map cand_id sel @ boss_ids boss)"
      "set sel \<subseteq> set cands" "sel = sel2 @ xs"
      "length sel \<le> length sel2 \<or> length sel + length (boss_ids boss) \<le> 3"
      "3 \<le> length sel + length (boss_ids boss) \<or> (\<forall>c\<in>set cands. cand_id c \<in> set used4)"
    by blast
  have len: "length sel \<le> 4" using P(5) F(3) by auto
  have boss: "b \<in> set cands \<and>
      (length sel \<le> 2 \<or> 100 * fst band \<le> difficulty b \<and> difficulty b \<le> 100 * boss_max band)"
    if "boss = Some b" for b
    using choose_boss_Some [OF 1(3) [unfolded that]] P(5) that by (auto simp: boss_ids_def)
  have band: "(\<forall>c\<in>set sel. in_band band c) \<or>
      length sel + length (boss_ids boss) \<le> 3 \<and>
        (\<forall>c\<in>set cands. in_band band c \<longrightarrow> cand_id c \<in> set (map cand_id sel))"
  proof (cases "xs = []")
    case True
    with P(4) F(2) show ?thesis by simp
  next
    case False
    then have le: "length sel + length (boss_ids boss) \<le> 3" "length sel2 \<noteq> 4"
      using P(4,5) len by (cases xs; auto)+
    then have "\<forall>c\<in>set cands. in_band band c \<longrightarrow> cand_id c \<in> set used2"
      using F(4) by (auto simp: banded_def filter_empty_conv)
    with F(1) P(4) have "\<forall>c\<in>set cands. in_band band c \<longrightarrow> cand_id c \<in> set (map cand_id sel)"
      by (auto simp: sel_ok_def)
    with le(1) show ?thesis by blast
  qed
  show ?thesis unfolding selection_ok_def
    using P(1-3,6) len boss band by (auto split: option.split)
qed

lemma select_candidates_returns:
  assumes "\<And>xs. set (enum xs) = set xs" and "\<forall>c\<in>set cands. cand_concepts c \<noteq> []"
  shows "\<exists>r. select_candidates enum cands due mast seen level band = Inr r"
proof (cases "due_loop cands seen band level due ([], [])")
  case (Pair used1 sel1)
  obtain used2 sel2 where "fill_loop enum mast cands seen band level used1 sel1 = Inr (used2, sel2)"
    using fill_loop_returns [OF assms, of mast seen band level used1 sel1] by fastforce
  with Pair show ?thesis by (simp add: select_candidates_def split: prod.split)
qed

section \<open>Numbering\<close>

lemma number_slots_simps:
  "length (number_slots sel boss) = length sel + length (boss_ids boss)"
  "map slot_exercise_id (number_slots sel boss) = map cand_id sel @ boss_ids boss"
  "map slot (number_slots sel boss) = [1..<length (number_slots sel boss) + 1]"
proof -
  have "map slot_exercise_id (map (\<lambda>(i, c). \<lparr>slot = i + 1, slot_exercise_id = cand_id c,
      slot_version = cand_version c, is_boss = False\<rparr>) (enumerate n sel)) = map cand_id sel" for n
    by (induction sel arbitrary: n) auto
  moreover have "map slot (map (\<lambda>(i, c). \<lparr>slot = i + 1, slot_exercise_id = cand_id c,
      slot_version = cand_version c, is_boss = False\<rparr>) (enumerate n sel)) = [n + 1..<n + length sel + 1]" for n
    by (induction sel arbitrary: n) (auto simp: upt_rec)
  ultimately show "length (number_slots sel boss) = length sel + length (boss_ids boss)"
    "map slot_exercise_id (number_slots sel boss) = map cand_id sel @ boss_ids boss"
    "map slot (number_slots sel boss) = [1..<length (number_slots sel boss) + 1]"
    by (auto simp: number_slots_def Let_def boss_ids_def split: option.split)
qed

lemma number_slots_regular:
  "s \<in> set (number_slots sel boss) \<Longrightarrow> \<not> is_boss s \<Longrightarrow>
     \<exists>c\<in>set sel. slot_exercise_id s = cand_id c \<and> slot_version s = cand_version c"
  "s \<in> set (number_slots sel boss) \<Longrightarrow> is_boss s \<Longrightarrow>
     \<exists>c. boss = Some c \<and> slot_exercise_id s = cand_id c \<and> slot_version s = cand_version c \<and>
       s = last (number_slots sel boss) \<and> s \<notin> set (butlast (number_slots sel boss))"
  by (auto simp: number_slots_def Let_def in_set_enumerate_eq split: option.splits)

lemma build_session_slots_cases:
  assumes "build_session_slots enum cands due mast seen level band = Inr slots"
    and "\<And>xs. set (enum xs) = set xs"
  obtains sel boss where "slots = number_slots sel boss" "selection_ok cands band sel boss"
    "select_candidates enum cands due mast seen level band = Inr (sel, boss)"
  using assms that select_candidates_ok [OF _ assms(2)] unfolding build_session_slots_def
  by (cases "select_candidates enum cands due mast seen level band") auto

section \<open>Properties\<close>

definition sample_pool :: "candidate list" where
  "sample_pool =
     map (\<lambda>(i, d, k). \<lparr>cand_id = i, cand_version = 1, cand_type = ''trace'', difficulty_authored = d,
                        cand_concepts = [k], est_time_s = 90, difficulty = 100 * d\<rparr>)
       [(1, 3, ''loops''), (2, 4, ''scope''), (3, 9, ''async'')]"

lemma sample_pool_concepts: "\<forall>c\<in>set sample_pool. cand_concepts c \<noteq> []"
  by (simp add: sample_pool_def)

definition sample_slots :: "session_slot list" where
  "sample_slots =
     [\<lparr>slot = 1, slot_exercise_id = 2, slot_version = 1, is_boss = False\<rparr>,
      \<lparr>slot = 2, slot_exercise_id = 1, slot_version = 1, is_boss = False\<rparr>,
      \<lparr>slot = 3, slot_exercise_id = 3, slot_version = 1, is_boss = True\<rparr>]"

lemma set_id: "set (id xs) = set xs"
  by simp

lemma sample_session:
  "build_session_slots id sample_pool [''scope''] Map.empty {} 3 (1, 5) = Inr sample_slots"
  by code_simp

text \<open>
  C4: A session is built whenever every candidate names a concept, however small the pool, and it
  has at least three slots, or one per exercise when there are fewer than three.
\<close>

theorem session_builds_minimum:
  assumes "\<And>xs. set (enum xs) = set xs" and "\<forall>c\<in>set cands. cand_concepts c \<noteq> []"
  shows "\<exists>slots. build_session_slots enum cands due mast seen level band = Inr slots \<and>
    min 3 (card (cand_id ` set cands)) \<le> length slots"
proof -
  obtain sel boss where sel: "select_candidates enum cands due mast seen level band = Inr (sel, boss)"
    using select_candidates_returns [OF assms, of due mast seen level band] by fastforce
  note ok = select_candidates_ok [OF sel assms(1), unfolded selection_ok_def]
  have "min 3 (card (cand_id ` set cands)) \<le> length sel + length (boss_ids boss)"
  proof (cases "3 \<le> length sel + length (boss_ids boss)")
    case False
    then have "cand_id ` set cands \<subseteq> set (map cand_id sel @ boss_ids boss)" using ok by blast
    then have "card (cand_id ` set cands) \<le> length (map cand_id sel @ boss_ids boss)"
      by (meson List.finite_set card_length card_mono le_trans)
    then show ?thesis by simp
  qed simp
  with sel show ?thesis by (simp add: build_session_slots_def number_slots_simps(1))
qed

theorem session_builds_minimum_witness: "3 \<le> length sample_slots"
proof -
  have "card (cand_id ` set sample_pool) = 3" by (simp add: sample_pool_def)
  with session_builds_minimum [of id sample_pool "[''scope'']" Map.empty "{}" 3 "(1, 5)"]
  show ?thesis using sample_pool_concepts by (simp add: sample_session)
qed

text \<open>
  C5: The slots of a built session are numbered from 1 without gaps, hold pairwise different
  exercises, each at the version it was offered with, at most five in all, and only the last one can
  be a boss.
\<close>

theorem session_slots_wellformed:
  assumes "build_session_slots enum cands due mast seen level band = Inr slots"
    and "\<And>xs. set (enum xs) = set xs"
  shows "map slot slots = [1..<length slots + 1] \<and> distinct (map slot_exercise_id slots) \<and>
    length slots \<le> 5 \<and>
    (\<forall>s\<in>set slots. \<exists>c\<in>set cands. slot_exercise_id s = cand_id c \<and> slot_version s = cand_version c) \<and>
    (\<forall>s\<in>set (butlast slots). \<not> is_boss s)"
  using assms
proof (cases rule: build_session_slots_cases)
  case (1 sel boss)
  note ok = 1(2) [unfolded selection_ok_def]
  have "length (boss_ids boss) \<le> 1" by (simp add: boss_ids_def split: option.split)
  moreover have "\<exists>c\<in>set cands. slot_exercise_id s = cand_id c \<and> slot_version s = cand_version c"
    if "s \<in> set slots" for s
    using that ok number_slots_regular [of s sel boss] unfolding 1(1) by (cases "is_boss s") auto
  moreover have "\<not> is_boss s" if "s \<in> set (butlast slots)" for s
    using number_slots_regular(2) [of s sel boss] that in_set_butlastD [OF that] unfolding 1(1) by blast
  ultimately show ?thesis using ok unfolding 1(1) number_slots_simps by simp
qed

theorem session_slots_wellformed_witness:
  "map slot sample_slots = [1, 2, 3] \<and> length sample_slots \<le> 5"
  using session_slots_wellformed [OF sample_session] by (simp add: sample_slots_def)

text \<open>
  The level's difficulty band is respected. A slot that is not the boss is in band, unless the
  session has at most three slots and already holds every in-band exercise of the pool; a boss is
  between the bottom of the band and two above its top (ten at most), unless the session has at most
  three slots.
\<close>

theorem session_respects_band:
  assumes "build_session_slots enum cands due mast seen level band = Inr slots"
    and "\<And>xs. set (enum xs) = set xs" and "s \<in> set slots"
  shows "\<exists>c\<in>set cands. slot_exercise_id s = cand_id c \<and> slot_version s = cand_version c \<and>
    (if is_boss s
     then length slots \<le> 3 \<or>
       100 * fst band \<le> difficulty c \<and> difficulty c \<le> 100 * min 10 (snd band + 2)
     else in_band band c \<or>
       length slots \<le> 3 \<and>
       (\<forall>d\<in>set cands. in_band band d \<longrightarrow> cand_id d \<in> slot_exercise_id ` set slots))"
  using assms(1,2)
proof (cases rule: build_session_slots_cases)
  case (1 sel boss)
  note ok = 1(2) [unfolded selection_ok_def]
  have ids: "slot_exercise_id ` set slots = set (map cand_id sel @ boss_ids boss)"
    unfolding 1(1) by (metis number_slots_simps(2) set_map)
  have len: "length slots = length sel + length (boss_ids boss)" unfolding 1(1) by (rule number_slots_simps(1))
  show ?thesis
  proof (cases "is_boss s")
    case True
    then obtain c where "boss = Some c" "slot_exercise_id s = cand_id c" "slot_version s = cand_version c"
      using number_slots_regular(2) assms(3) unfolding 1(1) by blast
    with ok True len show ?thesis by (auto simp: boss_ids_def boss_max_def)
  next
    case False
    then obtain c where c: "c \<in> set sel" "slot_exercise_id s = cand_id c" "slot_version s = cand_version c"
      using number_slots_regular(1) assms(3) unfolding 1(1) by blast
    with ok have "in_band band c \<or> length slots \<le> 3 \<and>
        (\<forall>d\<in>set cands. in_band band d \<longrightarrow> cand_id d \<in> slot_exercise_id ` set slots)"
      unfolding ids len by auto
    with ok c False show ?thesis by auto
  qed
qed

theorem session_respects_band_witness:
  "slot_exercise_id (hd sample_slots) \<in> cand_id ` set sample_pool"
proof -
  have "hd sample_slots \<in> set sample_slots" by (simp add: sample_slots_def)
  from session_respects_band [OF sample_session set_id this]
  obtain c where "c \<in> set sample_pool" "slot_exercise_id (hd sample_slots) = cand_id c" by blast
  then show ?thesis by (rule image_eqI [rotated])
qed

section \<open>The most overdue concept\<close>

lemma hd_filter_sort_key:
  assumes "d \<in> set (filter P xs)"
  shows "f (hd (filter P (sort_key f xs))) \<le> f d"
proof -
  have s: "sorted (map f (filter P (sort_key f xs)))" by (intro sorted_filter sorted_sort_key)
  have "d \<in> set (filter P (sort_key f xs))" using assms by simp
  with s show ?thesis by (cases "filter P (sort_key f xs)") auto
qed

lemma pick_first_choice:
  assumes "p \<in> set xs"
  shows "\<exists>c. pick seen [] (closest_by_difficulty xs t) = (Some c, [cand_id c]) \<and> c \<in> set xs \<and>
    (\<forall>d\<in>set xs. cand_id d \<notin> seen \<longrightarrow> cand_id c \<notin> seen \<and>
       \<bar>difficulty c - 100 * t\<bar> \<le> \<bar>difficulty d - 100 * t\<bar>)"
proof -
  let ?s = "closest_by_difficulty xs t" and ?F = "\<lambda>c. cand_id c \<notin> seen"
  have ne: "?s \<noteq> []" using assms by (metis empty_iff list.set(1) set_closest)
  obtain c u where c: "pick seen [] ?s = (Some c, u)" using ne by (auto simp: pick_def Let_def)
  have chosen: "c = hd (filter ?F ?s)" if "filter ?F ?s \<noteq> []"
    using c that by (auto simp: pick_def Let_def split: if_splits)
  have "?F c \<and> \<bar>difficulty c - 100 * t\<bar> \<le> \<bar>difficulty d - 100 * t\<bar>" if "d \<in> set xs" "?F d" for d
  proof -
    have d: "d \<in> set (filter ?F ?s)" using that by simp
    then have "c = hd (filter ?F ?s)" "filter ?F ?s \<noteq> []" using chosen by fastforce+
    then have "?F c" using hd_in_set [of "filter ?F ?s"] by auto
    moreover have "\<bar>difficulty c - 100 * t\<bar> \<le> \<bar>difficulty d - 100 * t\<bar>"
      using hd_filter_sort_key [of d ?F xs "\<lambda>c. \<bar>difficulty c - 100 * t\<bar>"] that \<open>c = _\<close>
      by (simp add: closest_by_difficulty_def)
    ultimately show ?thesis by simp
  qed
  moreover have "c \<in> set xs" "u = [cand_id c]" using pick_SomeD(1,3) [OF c] by simp_all
  ultimately show ?thesis using c by blast
qed

text \<open>
  The first slot goes to the most overdue concept that has an in-band exercise: it holds an
  in-band exercise of that concept, one the user has not seen recently when there is any, and the
  one closest to the level's difficulty among those.
\<close>

theorem most_overdue_concept_first:
  assumes "build_session_slots enum cands (k # due) mast seen level band = Inr slots"
    and "\<And>xs. set (enum xs) = set xs"
    and "p \<in> set cands" and "in_band band p" and "k \<in> set (cand_concepts p)"
  shows "\<exists>c\<in>set cands. slots \<noteq> [] \<and> slot_exercise_id (hd slots) = cand_id c \<and> in_band band c \<and>
    k \<in> set (cand_concepts c) \<and>
    (\<forall>d\<in>set cands. in_band band d \<and> k \<in> set (cand_concepts d) \<and> cand_id d \<notin> seen \<longrightarrow>
       cand_id c \<notin> seen \<and>
       \<bar>difficulty c - 100 * level\<bar> \<le> \<bar>difficulty d - 100 * level\<bar>)"
  using assms(1,2)
proof (cases rule: build_session_slots_cases)
  case (1 sel boss)
  let ?xs = "filter (\<lambda>c. k \<in> set (cand_concepts c) \<and> in_band band c) cands"
  obtain c where c: "pick seen [] (closest_by_difficulty ?xs level) = (Some c, [cand_id c])" "c \<in> set ?xs"
    "\<forall>d\<in>set ?xs. cand_id d \<notin> seen \<longrightarrow> cand_id c \<notin> seen \<and>
       \<bar>difficulty c - 100 * level\<bar> \<le> \<bar>difficulty d - 100 * level\<bar>"
    using pick_first_choice [of p ?xs seen level] assms(3-5) by auto
  from 1(3) obtain u1 s1 u2 s2 u3 u4 where st:
    "due_loop cands seen band level (k # due) ([], []) = (u1, s1)"
    "fill_loop enum mast cands seen band level u1 s1 = Inr (u2, s2)"
    "choose_boss cands seen band level u2 (length s2) = (boss, u3)"
    "pad_loop cands seen level (length (boss_ids boss)) u3 s2 = (u4, sel)"
    by (rule select_candidates_stages)
  have sp: "sel_ok cands [cand_id c] [c]" using c(2) by (simp add: sel_ok_def)
  have d1: "due_loop cands seen band level due ([cand_id c], [c]) = (u1, s1)"
    using st(1) c(1) by (simp add: append_choice_def)
  have D: "sel_ok cands u1 s1 \<and> (\<forall>c\<in>set s1. in_band band c) \<and> length s1 \<le> 4 \<and> (\<exists>xs. s1 = [c] @ xs)"
    by (rule due_loop_ok [OF d1 sp]) (use c(2) in auto)
  then have F: "sel_ok cands u2 s2 \<and> (\<exists>xs. s2 = s1 @ xs)"
    using fill_loop_ok [OF st(2) assms(2)] by blast
  note B = choose_boss_ids [OF st(3)]
  have "\<exists>xs. sel = s2 @ xs"
    using pad_loop_ok [OF st(4), of "boss_ids boss"] B F by (auto simp: sel_ok_def)
  with D F obtain xs where "sel = c # xs" by auto
  then have "map slot_exercise_id slots = cand_id c # (map cand_id xs @ boss_ids boss)"
    unfolding 1(1) number_slots_simps by simp
  then have "slots \<noteq> [] \<and> slot_exercise_id (hd slots) = cand_id c" by (cases slots) auto
  with c show ?thesis by auto
qed

theorem most_overdue_concept_first_witness:
  "slot_exercise_id (hd sample_slots) = 2"
proof -
  let ?p = "sample_pool ! 1"
  have p: "?p \<in> set sample_pool" "in_band (1, 5) ?p" "''scope'' \<in> set (cand_concepts ?p)"
    by (simp_all add: sample_pool_def in_band_def)
  from most_overdue_concept_first [OF sample_session _ p] obtain c where "c \<in> set sample_pool"
    "''scope'' \<in> set (cand_concepts c)" "slot_exercise_id (hd sample_slots) = cand_id c"
    by auto
  then show ?thesis by (auto simp: sample_pool_def)
qed

end
