(* ===== verification/Double.thy ===== *)
theory Double
  imports Complex_Main "HOL-Library.Log_Nat" Prelude
begin

text \<open>
  Python's \<open>float\<close> operations as the code uses them: an operation returns the exact result
  rounded to 53 significant bits, ties to even (\<open>fl\<close>). Overflow and subnormal numbers are left
  out: the values here are scores, rates and weights of moderate size. The laws a computation relies
  on are the locale \<open>rounding\<close>; its facts hold for \<open>fl\<close> by interpretation.
  \<open>round_digits n x\<close> is the built-in \<open>round(x, n)\<close>, which rounds the exact value of its
  argument to \<open>n\<close> decimals, ties to even, and returns the closest float.
\<close>

section \<open>Rounding a rational to an integer\<close>

definition rhe :: "rat \<Rightarrow> int" where
  "rhe x = (case quotient_of x of (a, b) \<Rightarrow> round_half_even a b)"

lemma rhe_Fract:
  assumes "0 < b"
  shows "rhe (of_int a / of_int b) = round_half_even a b"
proof -
  obtain c d where q: "quotient_of (of_int a / of_int b) = (c, d)" by fastforce
  then have d: "0 < d" by (rule quotient_of_denom_pos)
  from q have "of_int a / of_int b = (of_int c / of_int d :: rat)" by (rule quotient_of_div)
  then have "(of_int (a * d) :: rat) = of_int (c * b)" using assms d by (simp add: field_simps)
  then have eq: "a * d = c * b" unfolding of_int_eq_iff .
  have "round_half_even a b = round_half_even (a * d) (b * d)"
    using assms d by (simp add: round_half_even_scale)
  also have "\<dots> = round_half_even (c * b) (d * b)" by (simp add: eq mult.commute)
  also have "\<dots> = round_half_even c d" using assms d by (simp add: round_half_even_scale)
  finally show ?thesis by (simp add: rhe_def q)
qed

lemma rat_cases: obtains a b where "(x :: rat) = of_int a / of_int b" "0 < b"
  by (metis quotient_of_denom_pos quotient_of_div prod.exhaust)

lemma rhe_of_int [simp]: "rhe (of_int n) = n"
  using rhe_Fract [of 1 n] round_half_even_exact [of 1 n] by simp

lemma rhe_mono: "x \<le> y \<Longrightarrow> rhe x \<le> rhe y"
proof -
  assume "x \<le> y"
  obtain a b c d where x: "x = of_int a / of_int b" "0 < b" and y: "y = of_int c / of_int d" "0 < d"
    by (metis rat_cases)
  have "(of_int (a * d) :: rat) \<le> of_int (c * b)" using \<open>x \<le> y\<close> x y by (simp add: field_simps)
  then have le: "a * d \<le> c * b" unfolding of_int_le_iff .
  have "rhe x = round_half_even (a * d) (b * d)"
    unfolding x(1) rhe_Fract [OF x(2)] using x y by (simp add: round_half_even_scale)
  also have "\<dots> \<le> round_half_even (c * b) (b * d)" using le x y by (intro round_half_even_mono) simp_all
  also have "\<dots> = rhe y"
    unfolding y(1) rhe_Fract [OF y(2)] using x y by (simp add: round_half_even_scale mult.commute [of b])
  finally show ?thesis .
qed

section \<open>The binary exponent\<close>

definition ilog2 :: "rat \<Rightarrow> int" where
  "ilog2 x = (case quotient_of x of (a, b) \<Rightarrow>
     let e = bitlen a - bitlen b in if 2 powi e \<le> x then e else e - 1)"

lemma powi_pos [simp]: "0 < (2 :: rat) powi e"
  by simp

lemma zero_less_mult_pos_iff: "0 < (b :: rat) \<Longrightarrow> 0 < a * b \<longleftrightarrow> 0 < a"
  by (simp add: zero_less_mult_iff)

lemma mult_divide_cancel_eq: "c = d * e \<Longrightarrow> 0 < d \<Longrightarrow> a * c / d = a * (e :: rat)"
  by simp

lemma powi_mono: "i \<le> j \<Longrightarrow> (2 :: rat) powi i \<le> 2 powi j"
  by (simp add: power_int_increasing)

lemma powi_less_cancel: "(2 :: rat) powi i < 2 powi j \<longleftrightarrow> i < j"
  by (metis not_le powi_mono power_int_strict_increasing one_less_numeral_iff semiring_norm(76) linorder_not_less)

lemma powi_nat: "0 \<le> e \<Longrightarrow> (2 :: rat) powi e = of_int (2 ^ nat e)"
  by (simp add: power_int_def)

lemma bitlen_powi:
  assumes "0 < a"
  shows "2 powi (bitlen a - 1) \<le> (of_int a :: rat)" "(of_int a :: rat) < 2 powi (bitlen a)"
proof -
  have b: "2 ^ nat (bitlen a - 1) \<le> a" "a < 2 ^ nat (bitlen a)" using bitlen_bounds [OF assms] by auto
  have "1 \<le> bitlen a" using assms b(2) bitlen_nonneg [of a] by (cases "bitlen a = 0") auto
  then show "2 powi (bitlen a - 1) \<le> (of_int a :: rat)" "(of_int a :: rat) < 2 powi (bitlen a)"
    using b by (simp_all add: powi_nat del: of_int_power)
qed

lemma ilog2_bounds:
  assumes "0 < x"
  shows "2 powi ilog2 x \<le> x" "x < 2 powi (ilog2 x + 1)"
proof -
  obtain a b where q: "quotient_of x = (a, b)" by fastforce
  have b: "0 < b" and x: "x = of_int a / of_int b"
    using quotient_of_denom_pos [OF q] quotient_of_div [OF q] by auto
  then have a: "0 < a" using assms by (simp add: zero_less_divide_iff)
  let ?e = "bitlen a - bitlen b"
  have B: "0 < (of_int b :: rat)" using b by simp
  have "x * 2 powi (bitlen b - 1) \<le> x * of_int b" using bitlen_powi(1) [OF b] assms by simp
  also have "\<dots> = of_int a" using b by (simp add: x)
  also have "\<dots> < 2 powi (bitlen a)" by (rule bitlen_powi(2) [OF a])
  finally have "x < 2 powi (bitlen a) / 2 powi (bitlen b - 1)" by (simp add: pos_less_divide_eq)
  then have hi: "x < 2 powi (?e + 1)" by (simp add: power_int_diff [symmetric] algebra_simps)
  have "2 powi (bitlen a - 1) \<le> (of_int a :: rat)" by (rule bitlen_powi(1) [OF a])
  also have "\<dots> = x * of_int b" using b by (simp add: x)
  also have "\<dots> \<le> x * 2 powi (bitlen b)" using bitlen_powi(2) [OF b] assms by simp
  finally have "2 powi (bitlen a - 1) / 2 powi (bitlen b) \<le> x" by (simp add: pos_divide_le_eq)
  then have lo: "2 powi (?e - 1) \<le> x" by (simp add: power_int_diff [symmetric] algebra_simps)
  show "2 powi ilog2 x \<le> x" "x < 2 powi (ilog2 x + 1)"
    using hi lo by (auto simp: ilog2_def q Let_def)
qed

lemma ilog2_eqI:
  assumes "2 powi e \<le> x" and "x < 2 powi (e + 1)"
  shows "ilog2 x = e"
proof -
  have "0 < x" using assms(1) powi_pos [of e] by linarith
  note b = ilog2_bounds [OF this]
  have "(2::rat) powi e < 2 powi (ilog2 x + 1)" "(2::rat) powi ilog2 x < 2 powi (e + 1)"
    using assms b by linarith+
  then show ?thesis unfolding powi_less_cancel by simp
qed

lemma ilog2_mono:
  assumes "0 < x" and "x \<le> y"
  shows "ilog2 x \<le> ilog2 y"
proof -
  have "(2::rat) powi ilog2 x < 2 powi (ilog2 y + 1)"
    using ilog2_bounds(1) [OF assms(1)] ilog2_bounds(2) [of y] assms by linarith
  then show ?thesis unfolding powi_less_cancel by simp
qed

section \<open>Rounding to 53 bits\<close>

definition fl_pos :: "rat \<Rightarrow> rat" where
  "fl_pos x = (let e = ilog2 x - 52 in of_int (rhe (x / 2 powi e)) * 2 powi e)"

definition fl :: "rat \<Rightarrow> rat" where
  "fl x = (if x = 0 then 0 else if 0 < x then fl_pos x else - fl_pos (- x))"

definition representable :: "rat \<Rightarrow> bool" where
  "representable x \<longleftrightarrow> (\<exists>m k. x = of_int m * 2 powi k \<and> \<bar>m\<bar> < 2 ^ 53)"

lemma fl_pos_bounds:
  assumes "0 < x"
  shows "2 powi ilog2 x \<le> fl_pos x" "fl_pos x \<le> 2 powi (ilog2 x + 1)"
proof -
  let ?e = "ilog2 x - 52"
  note b = ilog2_bounds [OF assms]
  have p: "(2::rat) powi ilog2 x = 2 ^ 52 * 2 powi ?e" "(2::rat) powi (ilog2 x + 1) = 2 ^ 53 * 2 powi ?e"
    using power_int_add [of "2::rat" 52 ?e] power_int_add [of "2::rat" 53 ?e] by (simp_all add: algebra_simps)
  have "of_int (2 ^ 52) \<le> x / 2 powi ?e" "x / 2 powi ?e \<le> of_int (2 ^ 53)"
    using b p by (simp_all add: pos_le_divide_eq pos_divide_le_eq)
  then have "2 ^ 52 \<le> rhe (x / 2 powi ?e)" "rhe (x / 2 powi ?e) \<le> 2 ^ 53"
    using rhe_mono [of "of_int (2 ^ 52)" "x / 2 powi ?e"] rhe_mono [of "x / 2 powi ?e" "of_int (2 ^ 53)"]
    by (simp_all only: rhe_of_int)
  then have "(of_int (2 ^ 52) :: rat) \<le> of_int (rhe (x / 2 powi ?e))"
    "(of_int (rhe (x / 2 powi ?e)) :: rat) \<le> of_int (2 ^ 53)"
    unfolding of_int_le_iff .
  then show "2 powi ilog2 x \<le> fl_pos x" "fl_pos x \<le> 2 powi (ilog2 x + 1)"
    unfolding p fl_pos_def Let_def by simp_all
qed

lemma fl_pos_mono:
  assumes "0 < x" and "x \<le> y"
  shows "fl_pos x \<le> fl_pos y"
proof (cases "ilog2 x = ilog2 y")
  case True
  have "x / 2 powi (ilog2 y - 52) \<le> y / 2 powi (ilog2 y - 52)" using assms by (simp add: divide_right_mono)
  then have "(of_int (rhe (x / 2 powi (ilog2 y - 52))) :: rat) \<le> of_int (rhe (y / 2 powi (ilog2 y - 52)))"
    using rhe_mono by (simp only: of_int_le_iff)
  then show ?thesis by (simp add: fl_pos_def True Let_def)
next
  case False
  with ilog2_mono [OF assms] have "ilog2 x + 1 \<le> ilog2 y" by simp
  then have "(2::rat) powi (ilog2 x + 1) \<le> 2 powi ilog2 y" by (rule powi_mono)
  with fl_pos_bounds(2) [OF assms(1)] fl_pos_bounds(1) [of y] assms show ?thesis by linarith
qed

lemma fl_pos_positive: "0 < x \<Longrightarrow> 0 < fl_pos x"
  using fl_pos_bounds(1) powi_pos by (metis less_le_trans)

lemma fl_mono: "x \<le> y \<Longrightarrow> fl x \<le> fl y"
  using fl_pos_mono [of x y] fl_pos_mono [of "- y" "- x"] fl_pos_positive [of y] fl_pos_positive [of "- x"]
  by (auto simp: fl_def not_less)

lemma fl_pos_representable:
  assumes "0 < m" and "m < 2 ^ 53"
  shows "fl_pos (of_int m * 2 powi k) = of_int m * 2 powi k"
proof -
  let ?x = "of_int m * 2 powi k :: rat"
  have pos: "0 < ?x" using assms by simp
  have "?x < of_int (2 ^ 53) * 2 powi k"
    by (rule mult_strict_right_mono) (use assms in \<open>simp_all only: of_int_less_iff powi_pos\<close>)
  also have "\<dots> = 2 powi (k + 53)" by (simp add: power_int_add)
  finally have "(2::rat) powi ilog2 ?x < 2 powi (k + 53)"
    using ilog2_bounds(1) [OF pos] by linarith
  then have "ilog2 ?x < k + 53" unfolding powi_less_cancel .
  define n where "n = nat (k - (ilog2 ?x - 52))"
  have "k - (ilog2 ?x - 52) = int n" using \<open>ilog2 ?x < k + 53\<close> by (simp add: n_def)
  then have "2 powi k = (2::rat) powi (ilog2 ?x - 52) * 2 powi (int n)"
    using power_int_add [of "2::rat" "ilog2 ?x - 52" "int n"] by (metis diff_add_cancel add.commute zero_neq_numeral)
  then have "?x / 2 powi (ilog2 ?x - 52) = of_int m * 2 powi (int n)"
    by (rule mult_divide_cancel_eq) simp
  also have "\<dots> = of_int (m * 2 ^ n)" by simp
  finally have "?x / 2 powi (ilog2 ?x - 52) = of_int (m * 2 ^ n)" .
  then show ?thesis unfolding fl_pos_def Let_def
    by (metis nonzero_eq_divide_eq powi_pos less_irrefl rhe_of_int)
qed

lemma fl_representable: "representable x \<Longrightarrow> fl x = x"
proof -
  assume "representable x"
  then obtain m k where x: "x = of_int m * 2 powi k" "\<bar>m\<bar> < 2 ^ 53" unfolding representable_def by blast
  consider "m = 0" | "0 < m" | "m < 0" by linarith
  then show ?thesis
  proof cases
    case 1
    then show ?thesis by (simp add: fl_def x)
  next
    case 2
    then show ?thesis using fl_pos_representable [of m k] x by (simp add: fl_def)
  next
    case 3
    then show ?thesis using fl_pos_representable [of "- m" k] x mult_neg_pos [of "of_int m" "2 powi k :: rat"]
      by (auto simp: fl_def)
  qed
qed

lemma representable_fl_pos:
  assumes "0 < x"
  shows "representable (fl_pos x)"
proof (cases "fl_pos x = 2 powi (ilog2 x + 1)")
  case True
  then show ?thesis unfolding representable_def by (intro exI [of _ 1] exI [of _ "ilog2 x + 1"]) simp
next
  case False
  let ?e = "ilog2 x - 52" and ?m = "rhe (x / 2 powi (ilog2 x - 52))"
  have f: "fl_pos x = of_int ?m * 2 powi ?e" by (simp add: fl_pos_def Let_def)
  have "(2::rat) powi (ilog2 x + 1) = 2 ^ 53 * 2 powi ?e"
    using power_int_add [of "2::rat" 53 ?e] by (simp add: algebra_simps)
  with False fl_pos_bounds(2) [OF assms] f have "of_int ?m * 2 powi ?e < (of_int (2 ^ 53) :: rat) * 2 powi ?e"
    by simp
  then have "?m < 2 ^ 53" unfolding mult_less_cancel_right_pos [OF powi_pos] of_int_less_iff .
  moreover have "0 < ?m"
    using fl_pos_positive [OF assms] unfolding f zero_less_mult_pos_iff [OF powi_pos] by simp
  ultimately show ?thesis unfolding representable_def f by (intro exI [of _ ?m] exI [of _ ?e]) simp
qed

lemma representable_fl [simp]: "representable (fl x)"
proof -
  have "representable (- y)" if "representable y" for y
    using that unfolding representable_def by (metis abs_minus_cancel mult_minus_left of_int_minus)
  moreover have "representable 0" unfolding representable_def by (intro exI [of _ 0]) simp
  ultimately show ?thesis using representable_fl_pos [of x] representable_fl_pos [of "- x"]
    by (auto simp: fl_def)
qed

lemma representable_int: "\<bar>n\<bar> < 2 ^ 53 \<Longrightarrow> representable (of_int n)"
  unfolding representable_def by (intro exI [of _ n] exI [of _ 0]) simp

lemma rhe_error: "\<bar>of_int (rhe x) - x\<bar> \<le> 1 / 2"
proof -
  obtain a b where x: "x = of_int a / of_int b" "0 < b" by (rule rat_cases)
  have "2 * \<bar>b * round_half_even a b - a\<bar> \<le> b" by (rule round_half_even_error [OF x(2)])
  then have "(of_int (2 * \<bar>b * round_half_even a b - a\<bar>) :: rat) \<le> of_int b" unfolding of_int_le_iff .
  then have le: "2 * \<bar>of_int b * of_int (round_half_even a b) - of_int a\<bar> \<le> (of_int b :: rat)" by simp
  have "of_int (rhe x) - x = (of_int b * of_int (round_half_even a b) - of_int a) / of_int b"
    unfolding x(1) rhe_Fract [OF x(2)] using x(2) by (simp add: field_simps)
  then have "\<bar>of_int (rhe x) - x\<bar> =
      \<bar>of_int b * of_int (round_half_even a b) - of_int a\<bar> / of_int b"
    using x(2) by (simp add: abs_divide)
  with le x(2) show ?thesis by (simp add: pos_divide_le_eq)
qed

lemma fl_pos_error:
  assumes "0 < x"
  shows "\<bar>fl_pos x - x\<bar> \<le> x / 2 ^ 53"
proof -
  let ?e = "ilog2 x - 52"
  have "fl_pos x - x = (of_int (rhe (x / 2 powi ?e)) - x / 2 powi ?e) * 2 powi ?e"
    by (simp add: fl_pos_def Let_def algebra_simps)
  then have "\<bar>fl_pos x - x\<bar> = \<bar>of_int (rhe (x / 2 powi ?e)) - x / 2 powi ?e\<bar> * 2 powi ?e"
    by (simp add: abs_mult)
  also have "\<dots> \<le> (1 / 2) * 2 powi ?e" by (rule mult_right_mono [OF rhe_error]) simp
  also have "\<dots> = 2 powi ilog2 x / 2 ^ 53"
    using power_int_add [of "2::rat" 52 ?e] by (simp add: algebra_simps)
  also have "\<dots> \<le> x / 2 ^ 53" using ilog2_bounds(1) [OF assms] by simp
  finally show ?thesis .
qed

lemma fl_error: "\<bar>fl x - x\<bar> \<le> \<bar>x\<bar> / 2 ^ 53"
  using fl_pos_error [of x] fl_pos_error [of "- x"] abs_minus_commute [of "- fl_pos (- x)" x]
  by (cases "0 < x"; cases "x = 0") (simp_all add: fl_def not_less add.commute)

lemma fl_0 [simp]: "fl 0 = 0"
  by (simp add: fl_def)

lemma fl_1 [simp]: "fl 1 = 1"
  using fl_representable [OF representable_int [of 1]] by simp

lemma fl_nonneg: "0 \<le> x \<Longrightarrow> 0 \<le> fl x"
  using fl_mono [of 0 x] by simp

section \<open>The built-ins \<open>sum\<close> and \<open>round\<close>\<close>

datatype pynum = PInt int | PFloat rat

fun val_of :: "pynum \<Rightarrow> rat" where
  "val_of (PInt n) = of_int n"
| "val_of (PFloat x) = x"

text \<open>
  \<open>sum\<close> of CPython 3.12: integers are added exactly up to the first float; from then on the total
  is a float with a separate correction term (Neumaier), added once at the end.
\<close>

fun py_sum_float :: "rat \<Rightarrow> rat \<Rightarrow> pynum list \<Rightarrow> rat" where
  "py_sum_float f c [] = (if c = 0 then f else fl (f + c))"
| "py_sum_float f c (PInt n # xs) = py_sum_float (fl (f + fl (of_int n))) c xs"
| "py_sum_float f c (PFloat x # xs) =
     (let t = fl (f + x);
          d = (if \<bar>x\<bar> \<le> \<bar>f\<bar> then fl (fl (f - t) + x) else fl (fl (x - t) + f))
      in py_sum_float t (fl (c + d)) xs)"

fun py_sum_int :: "int \<Rightarrow> pynum list \<Rightarrow> pynum" where
  "py_sum_int acc [] = PInt acc"
| "py_sum_int acc (PInt n # xs) = py_sum_int (acc + n) xs"
| "py_sum_int acc (PFloat x # xs) = PFloat (py_sum_float (fl (fl (of_int acc) + x)) 0 xs)"

definition py_sum :: "pynum list \<Rightarrow> pynum" where
  "py_sum xs = py_sum_int 0 xs"

definition round_digits :: "nat \<Rightarrow> rat \<Rightarrow> rat" where
  "round_digits n x = fl (of_int (rhe (x * 10 ^ n)) / 10 ^ n)"

lemma round_digits_0 [simp]: "round_digits n 0 = 0"
  using rhe_of_int [of 0] by (simp add: round_digits_def del: rhe_of_int)

lemma round_digits_mono: "x \<le> y \<Longrightarrow> round_digits n x \<le> round_digits n y"
  unfolding round_digits_def by (intro fl_mono divide_right_mono) (simp_all add: rhe_mono mult_right_mono)

lemma round_digits_1 [simp]: "round_digits n 1 = 1"
proof -
  have "rhe (10 ^ n) = 10 ^ n" using rhe_of_int [of "10 ^ n"] by simp
  then show ?thesis by (simp add: round_digits_def)
qed

text \<open>Values that round to at most 1: the last unit of the last digit is half a step away.\<close>

lemma round_digits_le_1:
  assumes "2 * (x * 10 ^ n) < 2 * 10 ^ n + 1"
  shows "round_digits n x \<le> 1"
proof -
  have "\<not> 10 ^ n + 1 \<le> rhe (x * 10 ^ n)"
  proof
    assume "10 ^ n + 1 \<le> rhe (x * 10 ^ n)"
    then have "(of_int (10 ^ n + 1) :: rat) \<le> of_int (rhe (x * 10 ^ n))" unfolding of_int_le_iff .
    then have "10 ^ n + 1 \<le> (of_int (rhe (x * 10 ^ n)) :: rat)" by simp
    moreover have "of_int (rhe (x * 10 ^ n)) \<le> x * 10 ^ n + 1 / 2" using rhe_error [of "x * 10 ^ n"] by linarith
    ultimately show False using assms by linarith
  qed
  then have "rhe (x * 10 ^ n) \<le> 10 ^ n" by simp
  then have "(of_int (rhe (x * 10 ^ n)) :: rat) \<le> of_int (10 ^ n)" unfolding of_int_le_iff .
  then have "of_int (rhe (x * 10 ^ n)) / 10 ^ n \<le> (1 :: rat)" by simp
  from fl_mono [OF this] show ?thesis by (simp add: round_digits_def)
qed

section \<open>Accuracy of \<open>sum\<close>\<close>

text \<open>
  \<open>sum_near A S f c\<close>: the running total and the correction are within a relative distance
  \<open>A\<close> of the exact sum \<open>S\<close>. One more term costs at most \<open>2\<^sup>-\<^sup>4\<^sup>0\<close>.
\<close>

definition sum_near :: "rat \<Rightarrow> rat \<Rightarrow> rat \<Rightarrow> rat \<Rightarrow> bool" where
  "sum_near A S f c \<longleftrightarrow> 0 \<le> S \<and> 0 \<le> f \<and> (1 - A) * S \<le> f \<and> f \<le> (1 + A) * S \<and> \<bar>c\<bar> \<le> A * S"

lemma fl_near:
  assumes "0 \<le> x"
  shows "x - x / 2 ^ 53 \<le> fl x" "fl x \<le> x + x / 2 ^ 53"
  using fl_error [of x] assms by linarith+

lemma pow2_values: "(2 :: rat) ^ 53 = 9007199254740992" "(2 :: rat) ^ 51 = 2251799813685248"
  "(2 :: rat) ^ 50 = 1125899906842624" "(2 :: rat) ^ 40 = 1099511627776"
  by simp_all

lemma add_scale: "(1 + (A + k)) * (S + x) = S + x + A * S + A * x + k * (S + x :: rat)"
  "(1 - (A + k)) * (S + x) = S + x - A * S - A * x - k * (S + x)"
  "(A + k) * (S + x) = A * S + A * x + k * (S + x)"
  by (simp_all add: algebra_simps)

lemma sum_nearD:
  assumes "sum_near A S f c" and "0 \<le> A" and "A \<le> 1 / 2" and "0 \<le> x"
  shows "0 \<le> S" "0 \<le> f" "S - A * S \<le> f" "f \<le> S + A * S" "\<bar>c\<bar> \<le> A * S"
    "0 \<le> A * S" "A * S \<le> S / 2" "0 \<le> A * x" "A * x \<le> x / 2"
  using assms mult_right_mono [of A "1/2" S] mult_right_mono [of A "1/2" x]
  by (auto simp: sum_near_def algebra_simps)

lemma near_add:
  assumes n: "sum_near A S f c" and A: "0 \<le> A" "A \<le> 1 / 2" and y: "0 \<le> x"
    "x - x / 2 ^ 53 \<le> y" "y \<le> x + x / 2 ^ 53"
  shows "0 \<le> fl (f + y)" "(1 - (A + 1 / 2 ^ 40)) * (S + x) \<le> fl (f + y)"
    "fl (f + y) \<le> (1 + (A + 1 / 2 ^ 40)) * (S + x)"
proof -
  note S = sum_nearD [OF n A y(1)]
  have fy: "0 \<le> f + y" using S(2) y by (simp add: field_simps)
  show "0 \<le> fl (f + y)" by (rule fl_nonneg [OF fy])
  obtain P Q g where eq: "P = A * S" "Q = A * x" "g = fl (f + y)" by blast
  note e = fl_near [OF fy, folded eq]
  show "(1 - (A + 1 / 2 ^ 40)) * (S + x) \<le> fl (f + y)" "fl (f + y) \<le> (1 + (A + 1 / 2 ^ 40)) * (S + x)"
    unfolding add_scale unfolding eq [symmetric] using e S(1-4,6-9) [folded eq] y
    by (simp_all add: field_simps)
qed

text \<open>The correction of one addition is small: it is about the rounding error of the addition.\<close>

lemma correction_small:
  assumes "0 \<le> a" and "0 \<le> b" and "t = fl (a + b)"
  shows "\<bar>fl (fl (a - t) + b)\<bar> \<le> (a + b) / 2 ^ 50"
proof -
  obtain g where g: "g = fl (a - t)" by blast
  have t: "a + b - (a + b) / 2 ^ 53 \<le> t" "t \<le> a + b + (a + b) / 2 ^ 53"
    unfolding assms(3) using assms(1,2) by (intro fl_near; simp)+
  then have at: "a - t \<le> b + (a + b) / 2 ^ 53" "t - a \<le> b + (a + b) / 2 ^ 53"
    using assms(1,2) by (simp_all add: field_simps)
  have "\<bar>g - (a - t)\<bar> \<le> \<bar>a - t\<bar> / 2 ^ 53" unfolding g by (rule fl_error)
  also have "\<dots> \<le> (b + (a + b) / 2 ^ 53) / 2 ^ 53" using at by (intro divide_right_mono) auto
  finally have ge: "g - (a - t) \<le> (b + (a + b) / 2 ^ 53) / 2 ^ 53"
    "(a - t) - g \<le> (b + (a + b) / 2 ^ 53) / 2 ^ 53" by linarith+
  have h: "g + b \<le> (a + b) / 2 ^ 51" "- (g + b) \<le> (a + b) / 2 ^ 51"
    using ge t assms(1,2) by (simp_all add: field_simps)
  have gb: "\<bar>g + b\<bar> \<le> (a + b) / 2 ^ 51" using h by (rule abs_leI)
  have "\<bar>fl (g + b)\<bar> \<le> \<bar>g + b\<bar> + \<bar>g + b\<bar> / 2 ^ 53" using fl_error [of "g + b"] by linarith
  also have "\<dots> \<le> (a + b) / 2 ^ 51 + (a + b) / 2 ^ 51 / 2 ^ 53"
    using gb by (intro add_mono divide_right_mono) auto
  also have "\<dots> \<le> (a + b) / 2 ^ 50" using assms(1,2) by (simp add: field_simps)
  finally show ?thesis unfolding g .
qed

lemma near_correct:
  assumes n: "sum_near A S f c" and A: "0 \<le> A" "A \<le> 1 / 2" and x: "0 \<le> x"
    and d: "\<bar>d\<bar> \<le> (f + x) / 2 ^ 50"
  shows "\<bar>fl (c + d)\<bar> \<le> (A + 1 / 2 ^ 40) * (S + x)"
proof -
  note S = sum_nearD [OF n A x]
  obtain P Q where eq: "P = A * S" "Q = A * x" by blast
  have cd: "\<bar>c + d\<bar> \<le> P + (f + x) / 2 ^ 50" using S(5) d unfolding eq by linarith
  have "\<bar>fl (c + d)\<bar> \<le> \<bar>c + d\<bar> + \<bar>c + d\<bar> / 2 ^ 53" using fl_error [of "c + d"] by linarith
  also have "\<dots> \<le> P + (f + x) / 2 ^ 50 + (P + (f + x) / 2 ^ 50) / 2 ^ 53"
    using cd by (intro add_mono divide_right_mono) auto
  also have "\<dots> \<le> P + Q + 1 / 2 ^ 40 * (S + x)"
    using S(1-4,6-9) [folded eq] x by (simp add: field_simps)
  finally show ?thesis unfolding add_scale eq .
qed

lemma sum_near_weaken:
  assumes "sum_near A S f c" and "A \<le> B"
  shows "sum_near B S f c"
proof -
  have "A * S \<le> B * S" using assms by (intro mult_right_mono) (auto simp: sum_near_def)
  then show ?thesis using assms(1) by (auto simp: sum_near_def algebra_simps)
qed

lemma sum_near_int_step:
  assumes n: "sum_near A S f c" and A: "0 \<le> A" "A \<le> 1 / 2" and x: "0 \<le> x"
  shows "sum_near (A + 1 / 2 ^ 40) (S + x) (fl (f + fl x)) c"
proof -
  note S = sum_nearD [OF n A x]
  have "\<bar>c\<bar> \<le> (A + 1 / 2 ^ 40) * (S + x)"
    unfolding add_scale using S x by (intro order_trans [OF S(5)]) simp
  then show ?thesis using near_add [OF n A x fl_near [OF x]] S(1) x by (simp add: sum_near_def)
qed

lemma sum_near_float_step:
  assumes n: "sum_near A S f c" and A: "0 \<le> A" "A \<le> 1 / 2" and x: "0 \<le> x"
    and d: "d = (if \<bar>x\<bar> \<le> \<bar>f\<bar> then fl (fl (f - fl (f + x)) + x) else fl (fl (x - fl (f + x)) + f))"
  shows "sum_near (A + 1 / 2 ^ 40) (S + x) (fl (f + x)) (fl (c + d))"
proof -
  note S = sum_nearD [OF n A x]
  have "\<bar>d\<bar> \<le> (f + x) / 2 ^ 50"
    using correction_small [OF S(2) x refl] correction_small [OF x S(2) refl] unfolding d
    by (auto simp: add.commute)
  from near_correct [OF n A x this] near_add [OF n A x] x S(1)
  show ?thesis by (simp add: sum_near_def)
qed

lemma sum_near_result:
  assumes "sum_near A S f c" and "0 \<le> A" and "A \<le> 1 / 4"
  shows "\<bar>(if c = 0 then f else fl (f + c)) - S\<bar> \<le> (2 * A + 1 / 2 ^ 40) * S"
proof -
  obtain P where P: "P = A * S" by blast
  have S: "0 \<le> S" "S - P \<le> f" "f \<le> S + P" "\<bar>c\<bar> \<le> P" "0 \<le> P" "P \<le> S / 4"
    using assms mult_right_mono [of A "1/4" S] by (auto simp: sum_near_def algebra_simps P)
  have "0 \<le> f + c" using S by linarith
  note e = fl_near [OF this]
  obtain g where g: "g = fl (f + c)" by blast
  have "g - S \<le> 2 * P + S / 2 ^ 40" "S - g \<le> 2 * P + S / 2 ^ 40"
    using e [folded g] S by (auto simp: field_simps abs_le_iff)
  moreover have "f - S \<le> 2 * P + S / 2 ^ 40" "S - f \<le> 2 * P + S / 2 ^ 40"
    using S by (simp_all add: field_simps)
  ultimately have "\<bar>(if c = 0 then f else g) - S\<bar> \<le> 2 * P + S / 2 ^ 40"
    by (simp add: abs_le_iff)
  moreover have "(2 * A + 1 / 2 ^ 40) * S = 2 * P + S / 2 ^ 40" by (simp add: P field_simps)
  ultimately show ?thesis unfolding g by metis
qed

text \<open>The first float of a sum is added without a correction.\<close>

lemma sum_near_plain_step:
  assumes "sum_near A S f 0" and "0 \<le> A" and "A \<le> 1 / 2" and "0 \<le> x"
  shows "sum_near (A + 1 / 2 ^ 40) (S + x) (fl (f + x)) 0"
  using near_add [OF assms, of x] sum_nearD(1) [OF assms] assms(2,4)
  unfolding sum_near_def by simp

definition step_of :: "nat \<Rightarrow> rat" where "step_of n = of_nat n / 2 ^ 40"

lemma step_of_le: "n \<le> 100002 \<Longrightarrow> 0 \<le> step_of n \<and> step_of n \<le> 1 / 4"
  by (simp add: step_of_def)

lemma step_of_Suc: "step_of n + 1 / 2 ^ 40 = step_of (Suc n)"
  by (simp add: step_of_def field_simps)

lemma py_sum_float_near:
  assumes "sum_near (step_of n) S f c" and "\<forall>v\<in>set xs. 0 \<le> val_of v" and "n + length xs \<le> 100002"
  shows "\<bar>py_sum_float f c xs - (S + sum_list (map val_of xs))\<bar>
    \<le> (2 * step_of (n + length xs) + 1 / 2 ^ 40) * (S + sum_list (map val_of xs))"
  using assms
proof (induction xs arbitrary: n S f c)
  case Nil
  then show ?case using sum_near_result [OF Nil.prems(1)] step_of_le [of n] by simp
next
  case (Cons v xs)
  have n: "0 \<le> step_of n" "step_of n \<le> 1 / 2" using step_of_le [of n] Cons.prems(3) by auto
  have v: "0 \<le> val_of v" using Cons.prems(2) by simp
  obtain f' c' where fc: "py_sum_float f c (v # xs) = py_sum_float f' c' xs"
      "sum_near (step_of (Suc n)) (S + val_of v) f' c'"
  proof (cases v)
    case (PInt i)
    with v show ?thesis
      by (intro that [OF _ sum_near_int_step [OF Cons.prems(1) n v, unfolded step_of_Suc]]) simp
  next
    case (PFloat x)
    with v show ?thesis
      by (intro that [OF _ sum_near_float_step [OF Cons.prems(1) n v refl, unfolded step_of_Suc]])
         (simp add: Let_def)
  qed
  have "\<bar>py_sum_float f' c' xs - (S + val_of v + sum_list (map val_of xs))\<bar>
      \<le> (2 * step_of (Suc n + length xs) + 1 / 2 ^ 40) * (S + val_of v + sum_list (map val_of xs))"
    using Cons.prems by (intro Cons.IH [OF fc(2)]) auto
  then show ?case by (simp add: fc(1) add.assoc)
qed

lemma py_sum_int_near:
  assumes "0 \<le> acc" and "\<forall>v\<in>set xs. 0 \<le> val_of v" and "length xs \<le> 100000"
  shows "\<bar>val_of (py_sum_int acc xs) - (of_int acc + sum_list (map val_of xs))\<bar>
    \<le> (of_int acc + sum_list (map val_of xs)) / 10 ^ 6"
  using assms
proof (induction xs arbitrary: acc)
  case (Cons v xs)
  show ?case
  proof (cases v)
    case (PInt n)
    then show ?thesis using Cons.IH [of "acc + n"] Cons.prems by (simp add: add.assoc)
  next
    case (PFloat x)
    let ?a = "of_int acc :: rat"
    have a: "0 \<le> ?a" using Cons.prems(1) by simp
    have "sum_near (step_of 1) ?a (fl ?a) 0"
      using fl_near [OF a] fl_nonneg [OF a] a by (simp add: sum_near_def step_of_def field_simps)
    from sum_near_plain_step [OF this, of x, unfolded step_of_Suc]
    have f2: "sum_near (step_of (Suc 1)) (?a + x) (fl (fl ?a + x)) 0"
      using Cons.prems(2) PFloat step_of_le [of 1] by simp
    let ?T = "?a + x + sum_list (map val_of xs)"
    have "0 \<le> ?T" using a Cons.prems PFloat by (auto intro!: add_nonneg_nonneg sum_list_nonneg)
    have "\<bar>py_sum_float (fl (fl ?a + x)) 0 xs - ?T\<bar> \<le> (2 * step_of (Suc 1 + length xs) + 1 / 2 ^ 40) * ?T"
      using Cons.prems by (intro py_sum_float_near [OF f2]) auto
    also have "\<dots> \<le> 1 / 10 ^ 6 * ?T"
    proof (rule mult_right_mono [OF _ \<open>0 \<le> ?T\<close>])
      have "(of_nat (Suc 1 + length xs) :: rat) \<le> of_nat 100002"
        using Cons.prems(3) by (subst of_nat_le_iff) simp
      then show "2 * step_of (Suc 1 + length xs) + 1 / 2 ^ 40 \<le> (1 / 10 ^ 6 :: rat)"
        by (simp add: step_of_def field_simps)
    qed
    finally show ?thesis using PFloat by (simp add: add.assoc)
  qed
qed simp

lemma py_sum_near:
  assumes "\<forall>v\<in>set xs. 0 \<le> val_of v" and "length xs \<le> 100000"
  shows "\<bar>val_of (py_sum xs) - sum_list (map val_of xs)\<bar> \<le> sum_list (map val_of xs) / 10 ^ 6"
  using py_sum_int_near [of 0 xs] assms by (simp add: py_sum_def)

section \<open>What the components rely on\<close>

locale rounding =
  fixes r :: "rat \<Rightarrow> rat"
  assumes mono: "x \<le> y \<Longrightarrow> r x \<le> r y"
    and zero: "r 0 = 0" and one: "r 1 = 1"
begin

lemma nonneg: "0 \<le> x \<Longrightarrow> 0 \<le> r x"
  using mono [of 0 x] by (simp add: zero)

lemma le_one: "x \<le> 1 \<Longrightarrow> r x \<le> 1"
  using mono [of x 1] by (simp add: one)

lemma quotient_unit: "0 \<le> a \<Longrightarrow> a \<le> b \<Longrightarrow> 0 < b \<Longrightarrow> 0 \<le> r (a / b) \<and> r (a / b) \<le> 1"
  by (intro conjI nonneg le_one) (simp_all add: divide_le_eq)

lemma quotient_self: "b \<noteq> 0 \<Longrightarrow> r (b / b) = 1"
  by (simp add: one)

end

locale float_rounding = rounding +
  assumes idem: "r (r x) = r x"
begin

lemma fixed_between: "r a \<le> x \<Longrightarrow> x \<le> r b \<Longrightarrow> r a \<le> r x \<and> r x \<le> r b"
  using mono [of "r a" x] mono [of x "r b"] by (simp add: idem)

end

interpretation double: float_rounding fl
  by unfold_locales (simp_all add: fl_mono fl_representable)

interpretation decimals: rounding "round_digits n" for n
  by unfold_locales (simp_all add: round_digits_mono)

text \<open>A total of non-negative numbers that is close to the exact one.\<close>

locale summation =
  fixes total :: "pynum list \<Rightarrow> pynum"
  assumes empty: "total [] = PInt 0"
    and near: "\<forall>v\<in>set xs. 0 \<le> val_of v \<Longrightarrow> length xs \<le> 100000 \<Longrightarrow>
      \<bar>val_of (total xs) - sum_list (map val_of xs)\<bar> \<le> sum_list (map val_of xs) / 10 ^ 6"
begin

lemma total_nonneg:
  assumes "\<forall>v\<in>set xs. 0 \<le> val_of v" and "length xs \<le> 100000"
  shows "0 \<le> val_of (total xs)"
proof -
  have "0 \<le> sum_list (map val_of xs)" using assms(1) by (auto intro!: sum_list_nonneg)
  with near [OF assms] show ?thesis by (simp only: abs_le_iff) (simp add: field_simps)
qed

lemma sum_list_filter_le:
  fixes f :: "'b \<Rightarrow> rat"
  shows "\<forall>x\<in>set xs. 0 \<le> f x \<Longrightarrow> sum_list (map f (filter P xs)) \<le> sum_list (map f xs)"
  by (induction xs) (auto simp: add_increasing)

lemma total_filter_le:
  assumes "\<forall>v\<in>set xs. 0 \<le> val_of (w v)" and "length xs \<le> 100000"
  shows "val_of (total (map w (filter P xs))) \<le> (1 + 1 / 10 ^ 5) * val_of (total (map w xs))"
proof -
  let ?T = "sum_list (map (val_of \<circ> w) xs)" and ?H = "sum_list (map (val_of \<circ> w) (filter P xs))"
  have "?H \<le> ?T" "0 \<le> ?H" "0 \<le> ?T"
    using sum_list_filter_le [of xs "val_of \<circ> w" P] assms(1) by (auto intro!: sum_list_nonneg)
  moreover have "\<bar>val_of (total (map w xs)) - ?T\<bar> \<le> ?T / 10 ^ 6"
    using near [of "map w xs"] assms by simp
  moreover have "\<bar>val_of (total (map w (filter P xs))) - ?H\<bar> \<le> ?H / 10 ^ 6"
    using near [of "map w (filter P xs)"] assms length_filter_le [of P xs] by simp
  ultimately show ?thesis by (simp only: abs_le_iff) (simp add: field_simps)
qed

end

interpretation builtin_sum: summation py_sum
  by unfold_locales (simp add: py_sum_def, rule py_sum_near)

end
