(* ===== verification/Exercises.thy ===== *)
theory Exercises
  imports Json "HOL-Library.AList"
begin

text \<open>
  The table of exercises and its life cycle: \<open>models/content.py\<close>, \<open>exercises/service.py\<close> and
  the review steps of \<open>pipeline/publish.py\<close> (approve, kill, fix). A row is identified by
  \<open>(id, version)\<close>; readers see the view \<open>exercises_current\<close>, the highest live version of
  each id. JSONB columns are JSON objects.
\<close>

section \<open>Rows\<close>

datatype ex_status = Draft | InReview | Live | Pulled | Retired

record exercise =
  ex_id :: nat
  ex_version :: nat
  ex_language :: string
  ex_type :: string
  ex_grading_mode :: string
  ex_difficulty_authored :: int
  ex_difficulty_empirical :: "int option"
  ex_concepts :: "string list"
  ex_tags :: "string list"
  ex_est_time_s :: int
  ex_status :: ex_status
  ex_source :: jobj
  ex_payload :: jobj
  ex_grading :: jobj
  ex_explanation :: jobj
  validation_report_url :: "string option"
  human_reviewed :: bool
  validated_at :: "instant option"
  published_at :: "instant option"

definition key_of :: "exercise \<Rightarrow> nat \<times> nat" where
  "key_of ex = (ex_id ex, ex_version ex)"

definition find_exercise :: "nat \<Rightarrow> nat \<Rightarrow> exercise list \<Rightarrow> exercise option" where
  "find_exercise i v tbl = find (\<lambda>e. ex_id e = i \<and> ex_version e = v) tbl"

definition exercises_current :: "exercise list \<Rightarrow> exercise list" where
  "exercises_current tbl =
     filter (\<lambda>e. ex_status e = Live \<and>
       \<not> (\<exists>f\<in>set tbl. ex_status f = Live \<and> ex_id f = ex_id e \<and> ex_version e < ex_version f)) tbl"

section \<open>Updates\<close>

text \<open>The entries of the \<open>values\<close> dict of an update.\<close>

datatype field_update =
    SetStatus ex_status
  | SetPayload jobj
  | SetGrading jobj
  | SetExplanation jobj
  | SetConcepts "string list"
  | SetDifficulty int
  | SetSource jobj
  | SetHumanReviewed bool
  | SetValidatedAt instant
  | SetPublishedAt instant

fun is_status :: "field_update \<Rightarrow> bool" where
  "is_status (SetStatus _) = True"
| "is_status _ = False"

fun apply_update :: "field_update \<Rightarrow> exercise \<Rightarrow> exercise" where
  "apply_update (SetStatus s) e = e\<lparr>ex_status := s\<rparr>"
| "apply_update (SetPayload p) e = e\<lparr>ex_payload := p\<rparr>"
| "apply_update (SetGrading g) e = e\<lparr>ex_grading := g\<rparr>"
| "apply_update (SetExplanation x) e = e\<lparr>ex_explanation := x\<rparr>"
| "apply_update (SetConcepts cs) e = e\<lparr>ex_concepts := cs\<rparr>"
| "apply_update (SetDifficulty d) e = e\<lparr>ex_difficulty_authored := d\<rparr>"
| "apply_update (SetSource s) e = e\<lparr>ex_source := s\<rparr>"
| "apply_update (SetHumanReviewed h) e = e\<lparr>human_reviewed := h\<rparr>"
| "apply_update (SetValidatedAt t) e = e\<lparr>validated_at := Some t\<rparr>"
| "apply_update (SetPublishedAt t) e = e\<lparr>published_at := Some t\<rparr>"

definition not_found :: exn where "not_found = ValueError ''ExerciseNotFoundError''"
definition immutable :: exn where "immutable = ValueError ''ExerciseImmutableError''"

text \<open>The refusal for a live row: any other field than the status, or a status it may not move to.\<close>

definition refused_when_live :: "field_update list \<Rightarrow> bool" where
  "refused_when_live values \<longleftrightarrow>
     (\<exists>f\<in>set values. \<not> is_status f) \<or>
     (\<exists>f\<in>set values. case f of SetStatus s \<Rightarrow> s \<noteq> Pulled \<and> s \<noteq> Retired | _ \<Rightarrow> False)"

definition update_rows :: "nat \<Rightarrow> nat \<Rightarrow> field_update list \<Rightarrow> exercise list \<Rightarrow> exercise list" where
  "update_rows i v values tbl =
     map (\<lambda>e. if ex_id e = i \<and> ex_version e = v then fold apply_update values e else e) tbl"

definition update_exercise_fields ::
    "nat \<Rightarrow> nat \<Rightarrow> field_update list \<Rightarrow> exercise list \<Rightarrow> exercise list result" where
  "update_exercise_fields i v values tbl =
     (case find_exercise i v tbl of
        None \<Rightarrow> Inl not_found
      | Some e \<Rightarrow>
          if ex_status e = Live \<and> refused_when_live values then Inl immutable
          else Inr (update_rows i v values tbl))"

section \<open>Review steps\<close>

definition approve :: "instant \<Rightarrow> nat \<Rightarrow> nat \<Rightarrow> exercise list \<Rightarrow> exercise list result" where
  "approve now i v tbl =
     update_exercise_fields i v
       [SetStatus Live, SetHumanReviewed True, SetValidatedAt now, SetPublishedAt now] tbl"

definition kill :: "nat \<Rightarrow> nat \<Rightarrow> exercise list \<Rightarrow> exercise list result" where
  "kill i v tbl = update_exercise_fields i v [SetStatus Retired] tbl"

definition pull_status :: "nat \<Rightarrow> nat \<Rightarrow> exercise list \<Rightarrow> exercise list result" where
  "pull_status i v tbl = update_exercise_fields i v [SetStatus Pulled] tbl"

text \<open>
  The new version takes the overridden columns from \<open>overrides\<close> and the rest from the old row;
  \<open>est_time_s\<close> and \<open>difficulty_empirical\<close> are not passed on and get the column defaults.
\<close>

record overrides =
  ov_difficulty :: "int option"
  ov_concepts :: "string list option"
  ov_tags :: "string list option"
  ov_source :: "jobj option"
  ov_payload :: "jobj option"
  ov_grading :: "jobj option"
  ov_explanation :: "jobj option"

definition override :: "'a option \<Rightarrow> 'a \<Rightarrow> 'a" where
  "override ov old = (case ov of None \<Rightarrow> old | Some x \<Rightarrow> x)"

definition bumped :: "exercise \<Rightarrow> overrides \<Rightarrow> exercise" where
  "bumped old ov =
     \<lparr>ex_id = ex_id old, ex_version = ex_version old + 1, ex_language = ex_language old,
      ex_type = ex_type old, ex_grading_mode = ex_grading_mode old,
      ex_difficulty_authored = override (ov_difficulty ov) (ex_difficulty_authored old),
      ex_difficulty_empirical = None,
      ex_concepts = override (ov_concepts ov) (ex_concepts old),
      ex_tags = override (ov_tags ov) (ex_tags old),
      ex_est_time_s = 90, ex_status = InReview,
      ex_source = override (ov_source ov) (ex_source old),
      ex_payload = override (ov_payload ov) (ex_payload old),
      ex_grading = override (ov_grading ov) (ex_grading old),
      ex_explanation = override (ov_explanation ov) (ex_explanation old),
      validation_report_url = validation_report_url old, human_reviewed = False,
      validated_at = None, published_at = None\<rparr>"

definition fix_and_bump ::
    "nat \<Rightarrow> nat \<Rightarrow> overrides \<Rightarrow> exercise list \<Rightarrow> (exercise \<times> exercise list) result" where
  "fix_and_bump i v ov tbl =
     (case find_exercise i v tbl of
        None \<Rightarrow> Inl not_found
      | Some old \<Rightarrow>
          (let new = bumped old ov in
           case (if ex_status old \<noteq> Live then update_exercise_fields i v [SetStatus Retired] tbl
                 else Inr tbl) of
             Inl e \<Rightarrow> Inl e
           | Inr tbl' \<Rightarrow>
               if find_exercise i (v + 1) tbl \<noteq> None then Inl IntegrityError
               else Inr (new, tbl' @ [new])))"

section \<open>The content of a row\<close>

text \<open>What a user is shown and graded against.\<close>

definition content_of :: "exercise \<Rightarrow> string \<times> string list \<times> int \<times> jobj \<times> jobj \<times> jobj" where
  "content_of e = (ex_type e, ex_concepts e, ex_difficulty_authored e, ex_payload e, ex_grading e,
     ex_explanation e)"

lemma apply_update_key [simp]: "ex_id (apply_update f e) = ex_id e" "ex_version (apply_update f e) = ex_version e"
  by (cases f; simp)+

lemma fold_update_key [simp]:
  "ex_id (fold apply_update fs e) = ex_id e" "ex_version (fold apply_update fs e) = ex_version e"
  by (induction fs arbitrary: e) simp_all

lemma fold_status_content: "\<forall>f\<in>set fs. is_status f \<Longrightarrow> content_of (fold apply_update fs e) = content_of e"
proof (induction fs arbitrary: e)
  case (Cons f fs)
  then have "content_of (apply_update f e) = content_of e" by (cases f) (simp_all add: content_of_def)
  with Cons show ?case by simp
qed simp

lemma find_exercise_key:
  "find_exercise i v tbl = Some e \<Longrightarrow> e \<in> set tbl \<and> ex_id e = i \<and> ex_version e = v"
  unfolding find_exercise_def by (drule find_SomeD) simp

lemma find_update_rows:
  "find_exercise i' v' (update_rows i v values tbl) =
     map_option (\<lambda>e. if i' = i \<and> v' = v then fold apply_update values e else e) (find_exercise i' v' tbl)"
  unfolding find_exercise_def update_rows_def by (induction tbl) auto

definition keys_distinct :: "exercise list \<Rightarrow> bool" where
  "keys_distinct tbl \<longleftrightarrow> distinct (map key_of tbl)"

lemma map_key_update: "map key_of (update_rows i v values tbl) = map key_of tbl"
  by (simp add: update_rows_def key_of_def)

lemma keys_distinct_update [preserve]: "keys_distinct (update_rows i v values tbl) = keys_distinct tbl"
  by (simp add: keys_distinct_def map_key_update)

lemma keys_distinct_bump [preserve]:
  assumes "fix_and_bump i v ov tbl = Inr (new, tbl')" and "keys_distinct tbl"
  shows "keys_distinct tbl'"
proof -
  obtain old t1 where old: "find_exercise i v tbl = Some old" and t1: "t1 = tbl \<or> t1 = update_rows i v [SetStatus Retired] tbl"
    and new: "find_exercise i (v + 1) tbl = None" "new = bumped old ov" "tbl' = t1 @ [new]"
    using assms(1) by (auto simp: fix_and_bump_def update_exercise_fields_def Let_def split: option.splits if_splits)
  have "key_of new = (i, v + 1)" using find_exercise_key [OF old] by (simp add: new(2) bumped_def key_of_def)
  moreover have "(i, v + 1) \<notin> key_of ` set tbl"
    using new(1) by (auto simp: find_exercise_def find_None_iff key_of_def)
  moreover have "map key_of t1 = map key_of tbl" using t1 map_key_update by auto
  ultimately show ?thesis
    using assms(2) unfolding keys_distinct_def new(3) by (metis (no_types) append_Nil2 distinct_append
      list.simps(8,9) map_append set_map disjoint_insert(2) distinct_singleton inf_bot_right list.set(1,2))
qed

inductive ex_step :: "exercise list \<Rightarrow> exercise list \<Rightarrow> bool" where
  update: "update_exercise_fields i v values tbl = Inr tbl' \<Longrightarrow> ex_step tbl tbl'"
| bump: "fix_and_bump i v ov tbl = Inr (new, tbl') \<Longrightarrow> ex_step tbl tbl'"

inductive_cases ex_stepE: "ex_step tbl tbl'"

lemma update_live_row:
  assumes "update_exercise_fields i v values tbl = Inr tbl'" and "find_exercise i' v' tbl = Some e"
    and "ex_status e = Live"
  shows "\<exists>e'. find_exercise i' v' tbl' = Some e' \<and> content_of e' = content_of e \<and>
    (ex_status e' = Live \<or> ex_status e' = Pulled \<or> ex_status e' = Retired)"
proof (cases "i' = i \<and> v' = v")
  case False
  then show ?thesis using assms
    by (auto simp: update_exercise_fields_def find_update_rows split: option.splits if_splits)
next
  case True
  with assms have ok: "\<not> refused_when_live values" and tbl': "tbl' = update_rows i v values tbl"
    by (auto simp: update_exercise_fields_def split: if_splits)
  have st: "\<forall>f\<in>set values. f = SetStatus Pulled \<or> f = SetStatus Retired"
    using ok by (fastforce simp: refused_when_live_def elim!: is_status.elims)
  have "ex_status (fold apply_update fs x) \<in> {Live, Pulled, Retired}"
    if "ex_status x \<in> {Live, Pulled, Retired}" "\<forall>f\<in>set fs. f = SetStatus Pulled \<or> f = SetStatus Retired"
    for fs x
    using that
  proof (induction fs arbitrary: x)
    case (Cons f fs)
    have "ex_status (apply_update f x) \<in> {Live, Pulled, Retired}" using Cons.prems by auto
    with Cons show ?case by simp
  qed simp
  from this [of e "values"] have "ex_status (fold apply_update values e) \<in> {Live, Pulled, Retired}"
    using st assms(3) by simp
  moreover have "content_of (fold apply_update values e) = content_of e"
    using st by (intro fold_status_content) auto
  ultimately show ?thesis using True assms(2) by (auto simp: tbl' find_update_rows)
qed

lemma find_exercise_append:
  "find_exercise i v (xs @ ys) = (case find_exercise i v xs of None \<Rightarrow> find_exercise i v ys | Some e \<Rightarrow> Some e)"
  unfolding find_exercise_def by (rule find_append)

section \<open>Properties\<close>

definition sample_row :: exercise where
  "sample_row = \<lparr>ex_id = 1, ex_version = 1, ex_language = ''python'', ex_type = ''trace'',
     ex_grading_mode = ''deterministic'', ex_difficulty_authored = 3, ex_difficulty_empirical = None,
     ex_concepts = [''loops''], ex_tags = [], ex_est_time_s = 90, ex_status = Live, ex_source = [],
     ex_payload = [], ex_grading = [], ex_explanation = [], validation_report_url = None,
     human_reviewed = True, validated_at = Some 0, published_at = Some 0\<rparr>"

definition no_overrides :: overrides where
  "no_overrides = \<lparr>ov_difficulty = None, ov_concepts = None, ov_tags = None, ov_source = None,
     ov_payload = None, ov_grading = None, ov_explanation = None\<rparr>"

text \<open>
  Live content is immutable. Whatever update or fix is applied to whatever row, a row that is
  live keeps its type, concepts, difficulty, payload, grading and explanation, and it can only stay
  live or become pulled or retired.
\<close>

theorem live_content_immutable:
  assumes "ex_step tbl tbl'" and "find_exercise i v tbl = Some e" and "ex_status e = Live"
  shows "\<exists>e'. find_exercise i v tbl' = Some e' \<and> content_of e' = content_of e \<and>
    (ex_status e' = Live \<or> ex_status e' = Pulled \<or> ex_status e' = Retired)"
  using assms(1)
proof (cases rule: ex_step.cases)
  case (update j w vals)
  then show ?thesis using update_live_row assms(2,3) by blast
next
  case (bump j w ov new)
  then obtain old t1 where t: "t1 = tbl \<or> update_exercise_fields j w [SetStatus Retired] tbl = Inr t1"
      "tbl' = t1 @ [new]"
    by (auto simp: fix_and_bump_def Let_def split: option.splits if_splits sum.splits)
  have "\<exists>e'. find_exercise i v t1 = Some e' \<and> content_of e' = content_of e \<and>
      (ex_status e' = Live \<or> ex_status e' = Pulled \<or> ex_status e' = Retired)"
    using t(1) update_live_row [of j w "[SetStatus Retired]" tbl t1] assms(2,3) by auto
  then show ?thesis by (auto simp: t(2) find_exercise_append)
qed

theorem live_content_immutable_witness:
  "\<exists>e'. find_exercise 1 1 (update_rows 1 1 [SetStatus Pulled] [sample_row]) = Some e' \<and>
    content_of e' = content_of sample_row"
proof -
  have "ex_step [sample_row] (update_rows 1 1 [SetStatus Pulled] [sample_row])"
    by (rule ex_step.update [of 1 1 "[SetStatus Pulled]"])
       (simp add: update_exercise_fields_def find_exercise_def sample_row_def refused_when_live_def)
  from live_content_immutable [OF this, of 1 1 sample_row] show ?thesis
    by (auto simp: find_exercise_def sample_row_def)
qed

text \<open>
  The guard protects a row only while it is live. For every row, pulling or retiring it, changing
  its content and approving it again all succeed, and readers then see changed content under the same
  id and version.
\<close>

theorem content_changes_after_pull:
  assumes "find_exercise i v tbl = Some e" and "p \<noteq> ex_payload e"
  shows "\<exists>t1 t2 t3 e'. pull_status i v tbl = Inr t1 \<and>
    update_exercise_fields i v [SetPayload p] t1 = Inr t2 \<and> approve now i v t2 = Inr t3 \<and>
    find_exercise i v t3 = Some e' \<and> ex_status e' = Live \<and> content_of e' \<noteq> content_of e"
  using assms
  by (simp add: pull_status_def approve_def update_exercise_fields_def find_update_rows
      refused_when_live_def content_of_def)

theorem content_changes_after_pull_witness:
  "\<exists>t1. pull_status 1 1 [sample_row] = Inr t1"
  using content_changes_after_pull [of 1 1 "[sample_row]" sample_row "[(''code'', JNull)]"]
  by (auto simp: find_exercise_def sample_row_def)

lemma current_two:
  assumes "ex_id a = ex_id b" and "ex_version a < ex_version b" and "ex_status a = Live"
  shows "exercises_current [a, b] = (if ex_status b = Live then [b] else [a])"
  using assms by (auto simp: exercises_current_def)



end
