(* ===== verification/Grading.thy ===== *)
theory Grading
  imports Exercises
begin

text \<open>
  Deterministic grading, \<open>attempts/grading.py\<close>: which answers are accepted, how they are
  compared with the verified ground truth, and the reveal. The pydantic models of a reveal entry are third-party validation;
  what is modelled of them is that an entry must have exactly the declared fields.
\<close>

definition deterministic_types :: "string list" where
  "deterministic_types = [''spot_the_bug'', ''trace'', ''predict_the_fix'']"

section \<open>Answers\<close>

definition is_skip_answer :: "jobj \<Rightarrow> bool" where
  "is_skip_answer answer \<longleftrightarrow> keys answer = {''skipped''} \<and> get answer ''skipped'' JNull = JBool True"

definition shape_error :: exn where "shape_error = ValueError ''AnswerShapeError''"
definition unsupported_type :: exn where "unsupported_type = ValueError ''UnsupportedExerciseTypeError''"

definition validate_answer_shape :: "string \<Rightarrow> jobj \<Rightarrow> unit result" where
  "validate_answer_shape exercise_type answer =
     (if exercise_type = ''spot_the_bug'' then
        if is_skip_answer answer then Inr ()
        else if keys answer \<noteq> {''line'', ''reason_id''} then Inl shape_error
        else if \<not> is_int (get answer ''line'' JNull) \<or> \<not> is_str (get answer ''reason_id'' JNull)
        then Inl shape_error
        else Inr ()
      else if exercise_type \<in> {''trace'', ''predict_the_fix''} then
        if is_skip_answer answer then Inr ()
        else if keys answer \<noteq> {''choice_id''} then Inl shape_error
        else if \<not> is_str (get answer ''choice_id'' JNull) then Inl shape_error
        else Inr ()
      else Inl unsupported_type)"

text \<open>\<open>x in grading.get("correct_lines", [])\<close> for an integer \<open>x\<close>.\<close>

definition in_lines :: "json \<Rightarrow> json \<Rightarrow> bool result" where
  "in_lines x lines =
     (case lines of
        JArr xs \<Rightarrow> Inr (\<exists>y\<in>set xs. scalar_eq x y)
      | JObj _ \<Rightarrow> Inr False
      | _ \<Rightarrow> Inl TypeError)"

definition grade_spot_the_bug :: "jobj \<Rightarrow> jobj \<Rightarrow> bool result" where
  "grade_spot_the_bug answer grading =
     (case item answer ''line'' of
        Inl e \<Rightarrow> Inl e
      | Inr line \<Rightarrow>
          (case in_lines line (get grading ''correct_lines'' (JArr [])) of
             Inl e \<Rightarrow> Inl e
           | Inr False \<Rightarrow> Inr False
           | Inr True \<Rightarrow>
               (case item answer ''reason_id'' of
                  Inl e \<Rightarrow> Inl e
                | Inr r \<Rightarrow> Inr (scalar_eq r (get grading ''correct_reason_id'' JNull)))))"

definition grade_choice :: "jobj \<Rightarrow> jobj \<Rightarrow> bool result" where
  "grade_choice answer grading =
     (case item answer ''choice_id'' of
        Inl e \<Rightarrow> Inl e
      | Inr c \<Rightarrow> Inr (scalar_eq c (get grading ''correct_choice_id'' JNull)))"

definition grade_deterministic :: "exercise \<Rightarrow> jobj \<Rightarrow> bool option result" where
  "grade_deterministic ex answer =
     (if is_skip_answer answer then Inr None
      else if ex_type ex = ''spot_the_bug'' then
        map_sum id Some (grade_spot_the_bug answer (ex_grading ex))
      else if ex_type ex \<in> {''trace'', ''predict_the_fix''} then
        map_sum id Some (grade_choice answer (ex_grading ex))
      else Inl unsupported_type)"

section \<open>Reveals\<close>

datatype reveal =
    STBReveal "json list" json json json "json list"
  | TraceReveal json json json "json list" "json list"
  | PredictTheFixReveal json json json "json list"
  | SummarizeReveal json json

text \<open>\<open>list(v)\<close> and the entries of a list of objects with exactly the given fields.\<close>

definition list_of :: "json \<Rightarrow> json list result" where
  "list_of v =
     (case v of
        JArr xs \<Rightarrow> Inr xs
      | JStr s \<Rightarrow> Inr (map (\<lambda>c. JStr [c]) s)
      | JObj kvs \<Rightarrow> Inr (map (\<lambda>(k, _). JStr k) kvs)
      | _ \<Rightarrow> Inl TypeError)"

definition has_fields :: "string set \<Rightarrow> json \<Rightarrow> bool" where
  "has_fields ks v = (case v of JObj kvs \<Rightarrow> keys kvs = ks | _ \<Rightarrow> False)"

definition entries :: "string set \<Rightarrow> json \<Rightarrow> json list result" where
  "entries ks v =
     (case list_of v of
        Inl e \<Rightarrow> Inl e
      | Inr xs \<Rightarrow> if \<forall>x\<in>set xs. has_fields ks x then Inr xs else Inl (ValueError ''ValidationError''))"

definition explain :: "exercise \<Rightarrow> string \<Rightarrow> json" where
  "explain ex k = get (ex_explanation ex) k (JStr [])"

definition build_reveal :: "exercise \<Rightarrow> reveal result" where
  "build_reveal ex =
     (if ex_type ex = ''spot_the_bug'' then
        (case list_of (get (ex_grading ex) ''correct_lines'' (JArr [])) of
           Inl e \<Rightarrow> Inl e
         | Inr lines \<Rightarrow>
             (case entries {''line'', ''note''} (get (ex_explanation ex) ''line_notes'' (JArr [])) of
                Inl e \<Rightarrow> Inl e
              | Inr notes \<Rightarrow> Inr (STBReveal lines (get (ex_grading ex) ''correct_reason_id'' JNull)
                  (explain ex ''summary'') (explain ex ''principle'') notes)))
      else if ex_type ex = ''trace'' then
        (case entries {''line'', ''state''} (get (ex_explanation ex) ''trace_table'' (JArr [])) of
           Inl e \<Rightarrow> Inl e
         | Inr table \<Rightarrow>
             (case entries {''choice_id'', ''note''} (get (ex_explanation ex) ''why_wrong'' (JArr [])) of
                Inl e \<Rightarrow> Inl e
              | Inr wrong \<Rightarrow> Inr (TraceReveal (get (ex_grading ex) ''correct_choice_id'' JNull)
                  (explain ex ''summary'') (explain ex ''principle'') table wrong)))
      else if ex_type ex = ''predict_the_fix'' then
        (case entries {''choice_id'', ''note''} (get (ex_explanation ex) ''why_wrong'' (JArr [])) of
           Inl e \<Rightarrow> Inl e
         | Inr wrong \<Rightarrow> Inr (PredictTheFixReveal (get (ex_grading ex) ''correct_choice_id'' JNull)
             (explain ex ''summary'') (explain ex ''principle'') wrong))
      else Inl unsupported_type)"

definition build_summarize_reveal :: "exercise \<Rightarrow> reveal" where
  "build_summarize_reveal ex = SummarizeReveal (explain ex ''summary'') (explain ex ''principle'')"

section \<open>Accepted answers\<close>

lemma keys_get:
  assumes "k \<in> keys obj"
  shows "\<exists>v. map_of obj k = Some v \<and> get obj k d = v \<and> item obj k = Inr v"
proof -
  obtain v where "map_of obj k = Some v"
    using assms by (metis keys_def domIff dom_map_of_conv_image_fst list.set_map not_None_eq)
  then show ?thesis by (simp add: get_def item_def)
qed

lemma validate_cases:
  assumes "validate_answer_shape ty answer = Inr ()"
  obtains (skip) "is_skip_answer answer"
  | (stb) l r where "\<not> is_skip_answer answer" "ty = ''spot_the_bug''" "is_int l"
      "item answer ''line'' = Inr l" "item answer ''reason_id'' = Inr (JStr r)"
  | (choice) c where "\<not> is_skip_answer answer" "ty \<in> {''trace'', ''predict_the_fix''}"
      "item answer ''choice_id'' = Inr (JStr c)"
proof (cases "is_skip_answer answer")
  case False
  show ?thesis
  proof (cases "ty = ''spot_the_bug''")
    case True
    with False assms have v: "keys answer = {''line'', ''reason_id''}" "is_int (get answer ''line'' JNull)"
      "is_str (get answer ''reason_id'' JNull)"
      by (auto simp: validate_answer_shape_def split: if_splits)
    obtain l where l: "get answer ''line'' JNull = l" "item answer ''line'' = Inr l"
      using keys_get [of "''line''" answer JNull] v(1) by auto
    obtain r where r: "get answer ''reason_id'' JNull = r" "item answer ''reason_id'' = Inr r"
      using keys_get [of "''reason_id''" answer JNull] v(1) by auto
    obtain s where "r = JStr s" using v(3) r(1) by (cases r) auto
    with v(2) l r show ?thesis by (intro stb [OF False True _ l(2), of s]) simp_all
  next
    case ty: False
    with False assms have v: "keys answer = {''choice_id''}" "is_str (get answer ''choice_id'' JNull)"
      and t: "ty \<in> {''trace'', ''predict_the_fix''}"
      by (auto simp: validate_answer_shape_def split: if_splits)
    obtain c where c: "get answer ''choice_id'' JNull = c" "item answer ''choice_id'' = Inr c"
      using keys_get [of "''choice_id''" answer JNull] v(1) by auto
    obtain s where "c = JStr s" using v(2) c(1) by (cases c) auto
    with c show ?thesis by (intro choice [OF False t, of s]) simp
  qed
qed (rule skip)

section \<open>Properties\<close>

text \<open>
  Grading an answer that passed the shape check returns, for every stored exercise whose
  \<open>correct_lines\<close> is a list: it reads only keys the answer has. The verdict is
  missing exactly for a skip, and otherwise true exactly when the line is one of the correct lines
  and the reason the correct one, or when the choice is the correct one.
\<close>

theorem validated_answers_are_graded:
  assumes "validate_answer_shape (ex_type ex) answer = Inr ()"
    and "get (ex_grading ex) ''correct_lines'' (JArr []) = JArr lines"
  shows "\<exists>v. grade_deterministic ex answer = Inr v \<and> (v = None \<longleftrightarrow> is_skip_answer answer) \<and>
    (\<forall>b. v = Some b \<longrightarrow>
       b = (if ex_type ex = ''spot_the_bug''
            then (\<exists>l r. item answer ''line'' = Inr l \<and> (\<exists>y\<in>set lines. scalar_eq l y) \<and>
                    item answer ''reason_id'' = Inr r \<and>
                    r = get (ex_grading ex) ''correct_reason_id'' JNull)
            else item answer ''choice_id'' = Inr (get (ex_grading ex) ''correct_choice_id'' JNull)))"
  using assms(1)
proof (cases rule: validate_cases)
  case skip
  then show ?thesis by (simp add: grade_deterministic_def)
next
  case (stb l r)
  have "grade_spot_the_bug answer (ex_grading ex) =
      Inr ((\<exists>y\<in>set lines. scalar_eq l y) \<and> JStr r = get (ex_grading ex) ''correct_reason_id'' JNull)"
    by (auto simp: grade_spot_the_bug_def stb assms(2) in_lines_def split: bool.split)
  with stb show ?thesis by (simp add: grade_deterministic_def)
next
  case (choice c)
  then have "grade_choice answer (ex_grading ex) =
      Inr (JStr c = get (ex_grading ex) ''correct_choice_id'' JNull)"
    by (auto simp: grade_choice_def)
  with choice show ?thesis by (auto simp: grade_deterministic_def)
qed

definition sample_bug :: exercise where
  "sample_bug = \<lparr>ex_id = 1, ex_version = 1, ex_language = ''python'', ex_type = ''spot_the_bug'',
     ex_grading_mode = ''deterministic'', ex_difficulty_authored = 3, ex_difficulty_empirical = None,
     ex_concepts = [''loops''], ex_tags = [], ex_est_time_s = 90, ex_status = Live, ex_source = [],
     ex_payload = [], ex_grading = [(''correct_lines'', JArr [JInt 4]), (''correct_reason_id'', JStr ''r2'')],
     ex_explanation = [], validation_report_url = None, human_reviewed = True, validated_at = Some 0,
     published_at = Some 0\<rparr>"

theorem validated_answers_are_graded_witness:
  "\<exists>b. grade_deterministic sample_bug [(''line'', JInt 4), (''reason_id'', JStr ''r2'')] = Inr (Some b) \<and> b"
  using validated_answers_are_graded
    [of sample_bug "[(''line'', JInt 4), (''reason_id'', JStr ''r2'')]" "[JInt 4]"]
  by (auto simp: sample_bug_def validate_answer_shape_def get_def is_skip_answer_def keys_def item_def)

text \<open>
  A reveal is an allowlist. It depends on nothing but the exercise's type, its correct answer
  and the named fields of its explanation: two exercises that agree on those have the same reveal,
  whatever else the pipeline stored in the grading and explanation columns; and every table entry of
  a reveal has exactly the declared fields.
\<close>

theorem reveal_is_an_allowlist:
  assumes "ex_type a = ex_type b"
    and "\<forall>k\<in>{''correct_lines'', ''correct_reason_id'', ''correct_choice_id''}.
      map_of (ex_grading a) k = map_of (ex_grading b) k"
    and "\<forall>k\<in>{''summary'', ''principle'', ''line_notes'', ''trace_table'', ''why_wrong''}.
      map_of (ex_explanation a) k = map_of (ex_explanation b) k"
  shows "build_reveal a = build_reveal b \<and> build_summarize_reveal a = build_summarize_reveal b \<and>
    (\<forall>r. build_reveal a = Inr r \<longrightarrow>
      (case r of
         STBReveal _ _ _ _ notes \<Rightarrow> \<forall>e\<in>set notes. has_fields {''line'', ''note''} e
       | TraceReveal _ _ _ table wrong \<Rightarrow> (\<forall>e\<in>set table. has_fields {''line'', ''state''} e) \<and>
           (\<forall>e\<in>set wrong. has_fields {''choice_id'', ''note''} e)
       | PredictTheFixReveal _ _ _ wrong \<Rightarrow> \<forall>e\<in>set wrong. has_fields {''choice_id'', ''note''} e
       | SummarizeReveal _ _ \<Rightarrow> False))"
proof -
  have g: "get (ex_grading a) ''correct_lines'' = get (ex_grading b) ''correct_lines''"
    "get (ex_grading a) ''correct_reason_id'' = get (ex_grading b) ''correct_reason_id''"
    "get (ex_grading a) ''correct_choice_id'' = get (ex_grading b) ''correct_choice_id''"
    using assms(2) by (simp_all add: get_def fun_eq_iff)
  have e: "get (ex_explanation a) ''summary'' = get (ex_explanation b) ''summary''"
    "get (ex_explanation a) ''principle'' = get (ex_explanation b) ''principle''"
    "get (ex_explanation a) ''line_notes'' = get (ex_explanation b) ''line_notes''"
    "get (ex_explanation a) ''trace_table'' = get (ex_explanation b) ''trace_table''"
    "get (ex_explanation a) ''why_wrong'' = get (ex_explanation b) ''why_wrong''"
    using assms(3) by (simp_all add: get_def fun_eq_iff)
  have "build_reveal a = build_reveal b" "build_summarize_reveal a = build_summarize_reveal b"
    unfolding build_reveal_def build_summarize_reveal_def explain_def assms(1) g e by (rule refl)+
  moreover have "\<forall>x\<in>set xs. has_fields ks x" if "entries ks v = Inr xs" for ks v xs
    using that by (auto simp: entries_def split: sum.splits if_splits)
  ultimately show ?thesis by (auto simp: build_reveal_def split: if_splits sum.splits)
qed

theorem reveal_is_an_allowlist_witness:
  "build_reveal (sample_bug\<lparr>ex_grading := ex_grading sample_bug @ [(''artifacts'', JStr ''x'')]\<rparr>) =
   build_reveal sample_bug"
  using reveal_is_an_allowlist
    [of "sample_bug\<lparr>ex_grading := ex_grading sample_bug @ [(''artifacts'', JStr ''x'')]\<rparr>" sample_bug]
  by (simp add: sample_bug_def)

end
