(* ===== verification/Rubric.thy ===== *)
theory Rubric
  imports Grading Config
begin

text \<open>
  Rubric grading, \<open>attempts/rubric.py\<close>. The grader model only classifies rubric points; the
  score is computed here from its answer. \<open>loads\<close> stands for \<open>json.loads\<close>, and the
  grader call for one outcome per call: a reply, or an exception (the time budget, the transport).
\<close>

section \<open>Rubrics and responses\<close>

record rubric =
  must_mention :: "(string \<times> pynum) list"
  must_not_claim :: "string list"
  pass_threshold :: pynum
  reference_answer :: string

record grader_response =
  must_mention_hits :: "string list"
  must_not_claim_violations :: "string list"

record rubric_result =
  score :: rat
  is_correct :: bool
  rubric_hits :: "string list"
  rubric_misses :: "string list"
  rr_reference_answer :: string

section \<open>The answer text\<close>

definition max_words_of :: "exercise \<Rightarrow> json" where
  "max_words_of ex = get (ex_payload ex) ''max_words'' (JInt 60)"

text \<open>\<open>word_count > max_words\<close>; comparing an int with something that is not a number raises.\<close>

definition more_than :: "nat \<Rightarrow> json \<Rightarrow> bool result" where
  "more_than n limit = (case num_of limit of None \<Rightarrow> Inl TypeError | Some m \<Rightarrow> Inr (m < of_nat n))"

definition validate_summarize_answer_shape :: "exercise \<Rightarrow> jobj \<Rightarrow> string result" where
  "validate_summarize_answer_shape ex answer =
     (if keys answer \<noteq> {''text''} then Inl shape_error
      else
        (case get answer ''text'' JNull of
           JStr text \<Rightarrow>
             if strip text = [] then Inl shape_error
             else
               (case more_than (length (split_ws text)) (max_words_of ex) of
                  Inl e \<Rightarrow> Inl e
                | Inr True \<Rightarrow> Inl shape_error
                | Inr False \<Rightarrow> Inr text)
         | _ \<Rightarrow> Inl shape_error))"

definition escape_answer_text :: "string \<Rightarrow> string" where
  "escape_answer_text t = replace_char CHR ''>'' ''&gt;'' (replace_char CHR ''<'' ''&lt;'' t)"

section \<open>The reply\<close>

definition fence :: string where "fence = replicate 3 (CHR 0x60)"

text \<open>The group of \<open>^```(?:json)?\\s*(.*?)\\s*```$\<close> on a stripped string.\<close>

definition fence_group :: "string \<Rightarrow> string option" where
  "fence_group s =
     (if \<not> starts_with fence s then None
      else
        (let body = drop 3 s; rest = (if starts_with ''json'' body then drop 4 body else body)
         in if ends_with fence rest then Some (strip (take (length rest - 3) rest)) else None))"

definition parse_json :: "(string \<Rightarrow> json option) \<Rightarrow> string \<Rightarrow> json option" where
  "parse_json loads raw =
     (case loads raw of
        Some v \<Rightarrow> Some v
      | None \<Rightarrow> Option.bind (fence_group (strip raw)) loads)"

definition str_list :: "json \<Rightarrow> string list option" where
  "str_list v =
     (case v of
        JArr xs \<Rightarrow> if \<forall>x\<in>set xs. is_str x then Some (map (\<lambda>x. case x of JStr s \<Rightarrow> s | _ \<Rightarrow> []) xs) else None
      | _ \<Rightarrow> None)"

text \<open>
  The pydantic model: exactly the two fields, each a list of strings. \<open>parsed is None\<close> also
  holds for the JSON value \<open>null\<close>.
\<close>

definition validate_response :: "json \<Rightarrow> grader_response option" where
  "validate_response v =
     (case v of
        JObj kvs \<Rightarrow>
          if keys kvs \<noteq> {''must_mention_hits'', ''must_not_claim_violations''} then None
          else
            (case (str_list (get kvs ''must_mention_hits'' JNull),
                   str_list (get kvs ''must_not_claim_violations'' JNull)) of
               (Some h, Some w) \<Rightarrow> Some \<lparr>must_mention_hits = h, must_not_claim_violations = w\<rparr>
             | _ \<Rightarrow> None)
      | _ \<Rightarrow> None)"

datatype grader_call = Reply string | CallFails

definition call_and_parse ::
    "(string \<Rightarrow> json option) \<Rightarrow> grader_call \<Rightarrow> grader_response option result" where
  "call_and_parse loads c =
     (case c of
        CallFails \<Rightarrow> Inl (RuntimeError ''grader call'')
      | Reply raw \<Rightarrow> Inr (Option.bind (parse_json loads raw) validate_response))"

text \<open>At most two calls; the result is the response, or which of the two ways there is none.\<close>

datatype grading_failure = GradingTimeout | GradingInvalidResponse

definition attempt_with_one_retry ::
    "(string \<Rightarrow> json option) \<Rightarrow> (nat \<Rightarrow> grader_call) \<Rightarrow> grading_failure + grader_response" where
  "attempt_with_one_retry loads calls =
     (case call_and_parse loads (calls 0) of
        Inl _ \<Rightarrow> Inl GradingTimeout
      | Inr (Some r) \<Rightarrow> Inr r
      | Inr None \<Rightarrow>
          (case call_and_parse loads (calls 1) of
             Inl _ \<Rightarrow> Inl GradingTimeout
           | Inr (Some r) \<Rightarrow> Inr r
           | Inr None \<Rightarrow> Inl GradingInvalidResponse))"

section \<open>The score\<close>

text \<open>\<open>a / b\<close>: integers are divided exactly and rounded once, a float converts the other.\<close>

fun py_div :: "pynum \<Rightarrow> pynum \<Rightarrow> rat" where
  "py_div (PInt a) (PInt b) = fl (of_int a / of_int b)"
| "py_div (PInt a) (PFloat y) = fl (fl (of_int a) / y)"
| "py_div (PFloat x) (PInt b) = fl (x / fl (of_int b))"
| "py_div (PFloat x) (PFloat y) = fl (x / y)"

definition points :: "rubric \<Rightarrow> string list" where
  "points rb = map fst (must_mention rb)"

definition score_from_response ::
    "rubric \<Rightarrow> grader_response \<Rightarrow> rat \<times> string list \<times> string list" where
  "score_from_response rb parsed =
     (let hits = filter (\<lambda>p. p \<in> set (points rb)) (must_mention_hits parsed);
          misses = filter (\<lambda>p. p \<notin> set hits) (points rb);
          violations = filter (\<lambda>v. v \<in> set (must_not_claim rb)) (must_not_claim_violations parsed);
          sc = (if violations \<noteq> [] then 0
                else
                  (let total_weight = py_sum (map snd (must_mention rb));
                       hit_weight = py_sum (map snd (filter (\<lambda>i. fst i \<in> set hits) (must_mention rb)))
                   in if val_of total_weight \<noteq> 0 then py_div hit_weight total_weight else 0))
      in (round_digits 3 sc, hits, misses))"

definition grade_rubric ::
    "(string \<Rightarrow> json option) \<Rightarrow> (nat \<Rightarrow> grader_call) \<Rightarrow> rubric \<Rightarrow> grading_failure + rubric_result" where
  "grade_rubric loads calls rb =
     (case attempt_with_one_retry loads calls of
        Inl e \<Rightarrow> Inl e
      | Inr parsed \<Rightarrow>
          (case score_from_response rb parsed of
             (sc, hits, misses) \<Rightarrow>
               Inr \<lparr>score = sc, is_correct = val_of (pass_threshold rb) \<le> sc, rubric_hits = hits,
                    rubric_misses = misses, rr_reference_answer = reference_answer rb\<rparr>))"

section \<open>Quotients of totals\<close>

lemma py_div_near:
  assumes "0 \<le> val_of a" and "val_of a \<le> (1 + 1 / 10 ^ 5) * val_of b" and "0 < val_of b"
  shows "0 \<le> py_div a b" "py_div a b \<le> 1 + 1 / 10 ^ 4"
proof -
  have bound: "0 \<le> fl (x / y) \<and> fl (x / y) \<le> 1 + 1 / 10 ^ 4"
    if "0 \<le> x" "x \<le> (1 + 1 / 10 ^ 5 + 1 / 10 ^ 5) * y" "0 < y" for x y
  proof -
    have q: "0 \<le> x / y" "x / y \<le> 1 + 1 / 10 ^ 5 + 1 / 10 ^ 5" using that by (simp_all add: pos_divide_le_eq)
    with fl_near [OF q(1)] fl_nonneg [OF q(1)] show ?thesis by (simp add: field_simps)
  qed
  have i: "0 \<le> fl z" "fl z \<le> z + z / 2 ^ 53" "z - z / 2 ^ 53 \<le> fl z" if "0 \<le> z" for z
    using fl_near [OF that] fl_nonneg [OF that] by simp_all
  have "0 \<le> py_div a b \<and> py_div a b \<le> 1 + 1 / 10 ^ 4"
  proof (cases a; cases b)
    fix m n assume "a = PInt m" "b = PInt n"
    with assms show ?thesis using bound [of "of_int m" "of_int n"] by (simp add: field_simps)
  next
    fix m y assume *: "a = PInt m" "b = PFloat y"
    with assms i [of "of_int m"] show ?thesis
      using bound [of "fl (of_int m)" y] by (simp add: field_simps)
  next
    fix x n assume *: "a = PFloat x" "b = PInt n"
    then have n: "0 < (of_int n :: rat)" "0 \<le> x" "x \<le> (1 + 1 / 10 ^ 5) * of_int n" using assms by simp_all
    have "of_int n - of_int n / 2 ^ 53 \<le> fl (of_int n)" by (rule i(3)) (use n in simp)
    then have "0 < fl (of_int n)" "x \<le> (1 + 1 / 10 ^ 5 + 1 / 10 ^ 5) * fl (of_int n)"
      using n by (simp_all add: field_simps)
    with * n show ?thesis using bound [of x "fl (of_int n)"] by simp
  next
    fix x y assume "a = PFloat x" "b = PFloat y"
    with assms show ?thesis using bound [of x y] by (simp add: field_simps)
  qed
  then show "0 \<le> py_div a b" "py_div a b \<le> 1 + 1 / 10 ^ 4" by simp_all
qed

lemma py_div_self: "val_of a \<noteq> 0 \<Longrightarrow> py_div a a = 1"
  by (cases a) simp_all

definition weights_ok :: "rubric \<Rightarrow> bool" where
  "weights_ok rb \<longleftrightarrow> (\<forall>i\<in>set (must_mention rb). 0 \<le> val_of (snd i)) \<and> length (must_mention rb) \<le> 100000"

lemma score_bounds:
  assumes "weights_ok rb" and "score_from_response rb parsed = (s, h, m)"
  shows "0 \<le> s \<and> s \<le> 1"
proof -
  let ?T = "py_sum (map snd (must_mention rb))"
  let ?H = "py_sum (map snd (filter (\<lambda>i. fst i \<in> set h) (must_mention rb)))"
  have w: "\<forall>i\<in>set (must_mention rb). 0 \<le> val_of (snd i)" "length (must_mention rb) \<le> 100000"
    using assms(1) by (simp_all add: weights_ok_def)
  have H: "0 \<le> val_of ?H" and le: "val_of ?H \<le> (1 + 1 / 10 ^ 5) * val_of ?T" and T: "0 \<le> val_of ?T"
    using builtin_sum.total_nonneg [of "map snd (filter (\<lambda>i. fst i \<in> set h) (must_mention rb))"]
      builtin_sum.total_filter_le [OF w] builtin_sum.total_nonneg [of "map snd (must_mention rb)"] w
      length_filter_le [of "\<lambda>i. fst i \<in> set h" "must_mention rb"] by simp_all
  have s: "s = 0 \<or> val_of ?T \<noteq> 0 \<and> s = round_digits 3 (py_div ?H ?T)"
    using assms(2) by (auto simp: score_from_response_def Let_def split: if_splits)
  show ?thesis
  proof (cases "s = 0")
    case False
    with s T have *: "0 < val_of ?T" "s = round_digits 3 (py_div ?H ?T)" by auto
    note q = py_div_near [OF H le *(1)]
    have "round_digits 3 (py_div ?H ?T) \<le> 1" by (rule round_digits_le_1) (use q(2) in simp)
    with * decimals.nonneg [OF q(1), of 3] show ?thesis by simp
  qed simp
qed

section \<open>Properties\<close>

definition sample_rubric :: rubric where
  "sample_rubric = \<lparr>must_mention = [(''a'', PInt 1), (''b'', PInt 3)], must_not_claim = [''c''],
     pass_threshold = PFloat (7 / 10), reference_answer = ''ref''\<rparr>"

lemma sample_weights_ok: "weights_ok sample_rubric"
  by (simp add: weights_ok_def sample_rubric_def)

text \<open>
  A rubric score is a number between 0 and 1 (the range the database column accepts), for any
  non-negative weights and whatever the grader model replied. A genuine violation makes it 0, and
  naming every point of a rubric with positive total weight, without a violation, makes it exactly 1,
  floating-point sums and the rounding to three decimals included.
\<close>

theorem rubric_score_in_unit_interval:
  assumes "\<forall>i\<in>set (must_mention rb). 0 \<le> val_of (snd i)" and "length (must_mention rb) \<le> 100000"
    and "score_from_response rb parsed = (s, hits, misses)"
  shows "0 \<le> s \<and> s \<le> 1 \<and>
    (set (must_not_claim_violations parsed) \<inter> set (must_not_claim rb) \<noteq> {} \<longrightarrow> s = 0) \<and>
    (set (must_not_claim_violations parsed) \<inter> set (must_not_claim rb) = {} \<and>
     set (points rb) \<subseteq> set (must_mention_hits parsed) \<and>
     val_of (py_sum (map snd (must_mention rb))) \<noteq> 0 \<longrightarrow> s = 1)"
proof -
  have "0 \<le> s \<and> s \<le> 1" using score_bounds [OF _ assms(3)] assms(1,2) by (simp add: weights_ok_def)
  moreover have "s = 0" if "set (must_not_claim_violations parsed) \<inter> set (must_not_claim rb) \<noteq> {}"
  proof -
    have "filter (\<lambda>v. v \<in> set (must_not_claim rb)) (must_not_claim_violations parsed) \<noteq> []"
      using that by (auto simp: filter_empty_conv)
    then show ?thesis using assms(3) by (simp add: score_from_response_def)
  qed
  moreover have "s = 1"
    if v: "set (must_not_claim_violations parsed) \<inter> set (must_not_claim rb) = {}"
      and h: "set (points rb) \<subseteq> set (must_mention_hits parsed)"
      and t: "val_of (py_sum (map snd (must_mention rb))) \<noteq> 0"
  proof -
    have nv: "filter (\<lambda>v. v \<in> set (must_not_claim rb)) (must_not_claim_violations parsed) = []"
      using v by (auto simp: filter_empty_conv)
    have all: "filter (\<lambda>i. fst i \<in> set (filter (\<lambda>p. p \<in> set (points rb)) (must_mention_hits parsed)))
        (must_mention rb) = must_mention rb"
      using h by (intro filter_True) (auto simp: points_def)
    have "s = round_digits 3 1"
      using assms(3) t unfolding score_from_response_def Let_def all nv by (simp add: py_div_self)
    then show ?thesis by simp
  qed
  ultimately show ?thesis by blast
qed

theorem rubric_score_in_unit_interval_witness:
  "\<exists>s h m. score_from_response sample_rubric
      \<lparr>must_mention_hits = [''b'', ''a'', ''zzz''], must_not_claim_violations = [''q'']\<rparr> = (s, h, m) \<and> s = 1"
proof -
  let ?r = "\<lparr>must_mention_hits = [''b'', ''a'', ''zzz''], must_not_claim_violations = [''q'']\<rparr>"
  obtain s h m where *: "score_from_response sample_rubric ?r = (s, h, m)" by (metis prod_cases3)
  have "s = 1"
    using rubric_score_in_unit_interval [OF _ _ *] by (simp add: sample_rubric_def points_def py_sum_def)
  with * show ?thesis by blast
qed

text \<open>
  The grader model cannot invent evidence. Strings in its reply that are not literally points or
  forbidden claims of the rubric change nothing: the result equals the result for the reply with those
  strings removed. The reported hits are points of the rubric, and hits and misses together are
  exactly its points, without overlap.
\<close>

theorem fabricated_strings_are_inert:
  assumes "score_from_response rb parsed = (s, hits, misses)"
  shows "score_from_response rb
      \<lparr>must_mention_hits = filter (\<lambda>p. p \<in> set (points rb)) (must_mention_hits parsed),
       must_not_claim_violations =
         filter (\<lambda>v. v \<in> set (must_not_claim rb)) (must_not_claim_violations parsed)\<rparr> = (s, hits, misses) \<and>
    set hits \<union> set misses = set (points rb) \<and> set hits \<inter> set misses = {} \<and>
    set hits = set (must_mention_hits parsed) \<inter> set (points rb)"
  using assms by (auto simp: score_from_response_def Let_def)

theorem fabricated_strings_are_inert_witness:
  "\<exists>s h m. score_from_response sample_rubric
      \<lparr>must_mention_hits = [''b'', ''forged''], must_not_claim_violations = []\<rparr> = (s, h, m) \<and> set h = {''b''}"
proof -
  let ?r = "\<lparr>must_mention_hits = [''b'', ''forged''], must_not_claim_violations = []\<rparr>"
  obtain s h m where *: "score_from_response sample_rubric ?r = (s, h, m)" by (metis prod_cases3)
  with fabricated_strings_are_inert [OF *] show ?thesis by (auto simp: sample_rubric_def points_def)
qed

lemma escaped_has_no_tags: "CHR ''<'' \<notin> set (escape_answer_text t)" "CHR ''>'' \<notin> set (escape_answer_text t)"
  using set_replace_char [of "CHR ''>''" "''&gt;''" "replace_char CHR ''<'' ''&lt;'' t"]
    set_replace_char [of "CHR ''<''" "''&lt;''" t]
  by (auto simp: escape_answer_text_def)

text \<open>
  Grading calls the model at most twice, and how it ends is decided by those calls alone: a
  failing call before a usable reply means pending, two unusable replies in a row mean failed for
  good, and the first usable reply decides the grade. An answer text never opens or closes a tag of
  the prompt.
\<close>

theorem rubric_grading_outcome:
  "(grade_rubric loads calls rb = Inl GradingInvalidResponse \<longleftrightarrow>
      (\<forall>i<2. call_and_parse loads (calls i) = Inr None)) \<and>
   (grade_rubric loads calls rb = Inl GradingTimeout \<longleftrightarrow>
      (\<exists>i<2. calls i = CallFails \<and> (\<forall>j<i. call_and_parse loads (calls j) = Inr None))) \<and>
   (\<forall>r. grade_rubric loads calls rb = Inr r \<longrightarrow>
      (\<exists>i<2. \<exists>p. call_and_parse loads (calls i) = Inr (Some p) \<and>
         (\<forall>j<i. call_and_parse loads (calls j) = Inr None) \<and>
         (score r, rubric_hits r, rubric_misses r) = score_from_response rb p \<and>
         is_correct r = (val_of (pass_threshold rb) \<le> score r))) \<and>
   CHR ''<'' \<notin> set (escape_answer_text t) \<and> CHR ''>'' \<notin> set (escape_answer_text t)"
proof -
  have two: "(\<forall>i<2. P i) \<longleftrightarrow> P 0 \<and> P 1" "(\<exists>i<2. P i) \<longleftrightarrow> P 0 \<or> P 1" for P :: "nat \<Rightarrow> bool"
    by (auto simp: less_2_cases_iff)
  have fails: "calls i = CallFails \<longleftrightarrow> (\<exists>e. call_and_parse loads (calls i) = Inl e)" for i
    by (auto simp: call_and_parse_def split: grader_call.splits)
  show ?thesis unfolding two fails using escaped_has_no_tags
    by (auto simp: grade_rubric_def attempt_with_one_retry_def split: sum.splits option.splits prod.splits)
qed

definition sample_loads :: "string \<Rightarrow> json option" where
  "sample_loads s = (if s = ''ok'' then
     Some (JObj [(''must_mention_hits'', JArr [JStr ''b'']), (''must_not_claim_violations'', JArr [])])
     else None)"

theorem rubric_grading_outcome_witness:
  "\<exists>r. grade_rubric sample_loads (\<lambda>i. Reply (if i = 0 then ''no'' else ''ok'')) sample_rubric = Inr r \<and>
     is_correct r = (7 / 10 \<le> score r)"
proof -
  let ?calls = "\<lambda>i::nat. Reply (if i = 0 then ''no'' else ''ok'')"
  have c: "call_and_parse sample_loads (?calls 0) = Inr None"
    "call_and_parse sample_loads (?calls 1) = Inr (Some
       \<lparr>must_mention_hits = [''b''], must_not_claim_violations = []\<rparr>)"
    by (simp_all add: call_and_parse_def parse_json_def sample_loads_def strip_def lstrip_def
        py_space_def fence_group_def starts_with_def fence_def validate_response_def keys_def
        get_def str_list_def insert_commute)
  then obtain r where r: "grade_rubric sample_loads ?calls sample_rubric = Inr r"
    by (cases "score_from_response sample_rubric
        \<lparr>must_mention_hits = [''b''], must_not_claim_violations = []\<rparr>")
      (auto simp: grade_rubric_def attempt_with_one_retry_def)
  with rubric_grading_outcome [of sample_loads ?calls sample_rubric "[]"]
  show ?thesis by (auto simp: sample_rubric_def)
qed

end
