(* ===== verification/Store.thy ===== *)
theory Store
  imports Json Sampler
begin

text \<open>
  What the backend keeps in Redis: idempotency records and reservations (\<open>core/idempotency.py\<close>),
  the token bucket (\<open>core/ratelimit.py\<close>) and the grader's failure signal
  (\<open>core/grader_health.py\<close>). The store is a map from keys to values with an optional deadline;
  the commands the code sends act on it as Redis documents them. What the clients rely on is the
  locale \<open>kv_store\<close>. Keys are built from the parts the code interpolates, which is injective
  there: a key of this model is the tuple of the parts.
\<close>

section \<open>Keys, values, commands\<close>

datatype rkey =
    IdemKey string string
  | LockKey string string
  | BucketKey string
  | UserBucket string uid
  | GraderStreak
  | GraderDegraded
  | SessionKey uid date
  | CounterKey string string
  | EmailKey string string
  | JobLock string

record idempotency_record =
  ir_request_hash :: string
  ir_status_code :: nat
  ir_body :: json

datatype rval =
    Flag
  | Count int
  | Cached idempotency_record
  | Bucket rat int
  | Slots "session_slot list"

type_synonym rstore = "rkey \<rightharpoonup> rval \<times> instant option"

definition alive :: "instant \<Rightarrow> instant option \<Rightarrow> bool" where
  "alive now d = (case d of None \<Rightarrow> True | Some t \<Rightarrow> now < t)"

definition rget :: "rstore \<Rightarrow> instant \<Rightarrow> rkey \<Rightarrow> rval option" where
  "rget s now k = (case s k of None \<Rightarrow> None | Some (v, d) \<Rightarrow> if alive now d then Some v else None)"

definition rset :: "rstore \<Rightarrow> instant \<Rightarrow> rkey \<Rightarrow> rval \<Rightarrow> int \<Rightarrow> rstore" where
  "rset s now k v ttl = s(k \<mapsto> (v, Some (now + ttl)))"

definition rset_nx :: "rstore \<Rightarrow> instant \<Rightarrow> rkey \<Rightarrow> rval \<Rightarrow> int \<Rightarrow> bool \<times> rstore" where
  "rset_nx s now k v ttl =
     (if rget s now k = None then (True, rset s now k v ttl) else (False, s))"

definition rdel :: "rstore \<Rightarrow> rkey \<Rightarrow> rstore" where
  "rdel s k = s(k := None)"

text \<open>\<open>INCR\<close> keeps the deadline of a live key; \<open>EXPIRE\<close> sets it.\<close>

definition rincr :: "rstore \<Rightarrow> instant \<Rightarrow> rkey \<Rightarrow> int \<times> rstore" where
  "rincr s now k =
     (case rget s now k of
        Some (Count n) \<Rightarrow> (n + 1, s(k \<mapsto> (Count (n + 1), snd (the (s k)))))
      | _ \<Rightarrow> (1, s(k \<mapsto> (Count 1, None))))"

definition rexpire :: "rstore \<Rightarrow> instant \<Rightarrow> rkey \<Rightarrow> int \<Rightarrow> rstore" where
  "rexpire s now k ttl =
     (case rget s now k of None \<Rightarrow> s | Some v \<Rightarrow> s(k \<mapsto> (v, Some (now + ttl))))"

definition seconds :: "int \<Rightarrow> int" where
  "seconds n = n * 1000000"

section \<open>Idempotency\<close>

definition get_cached :: "rstore \<Rightarrow> instant \<Rightarrow> string \<Rightarrow> string \<Rightarrow> idempotency_record option" where
  "get_cached s now namespace key =
     (case rget s now (IdemKey namespace key) of Some (Cached r) \<Rightarrow> Some r | _ \<Rightarrow> None)"

definition store_idempotency ::
    "rstore \<Rightarrow> instant \<Rightarrow> string \<Rightarrow> string \<Rightarrow> string \<Rightarrow> nat \<Rightarrow> json \<Rightarrow> rstore" where
  "store_idempotency s now namespace key h code b =
     rset s now (IdemKey namespace key)
       (Cached \<lparr>ir_request_hash = h, ir_status_code = code, ir_body = b\<rparr>) (seconds (24 * 60 * 60))"

definition acquire_reservation :: "rstore \<Rightarrow> instant \<Rightarrow> string \<Rightarrow> string \<Rightarrow> bool \<times> rstore" where
  "acquire_reservation s now namespace key = rset_nx s now (LockKey namespace key) Flag (seconds 30)"

definition release_reservation :: "rstore \<Rightarrow> string \<Rightarrow> string \<Rightarrow> rstore" where
  "release_reservation s namespace key = rdel s (LockKey namespace key)"

text \<open>
  The polling loop: \<open>seen i\<close> is the time and the store at the i-th lookup, \<open>fuel\<close> bounds the
  number of lookups. \<open>None\<close> means the fuel ran out, \<open>Some None\<close> that the loop gave up at its
  deadline.
\<close>

fun wait_for_cached ::
    "nat \<Rightarrow> (nat \<Rightarrow> instant \<times> rstore) \<Rightarrow> nat \<Rightarrow> string \<Rightarrow> string \<Rightarrow> instant
       \<Rightarrow> idempotency_record option option" where
  "wait_for_cached 0 seen i namespace key deadline = None"
| "wait_for_cached (Suc fuel) seen i namespace key deadline =
     (case get_cached (snd (seen i)) (fst (seen i)) namespace key of
        Some r \<Rightarrow> Some (Some r)
      | None \<Rightarrow>
          if deadline \<le> fst (seen i) then Some None
          else wait_for_cached fuel seen (Suc i) namespace key deadline)"

section \<open>Token bucket\<close>

record rate_limit_result =
  rl_allowed :: bool
  rl_limit :: int
  rl_remaining :: int
  rl_retry_after :: int

text \<open>
  The Lua script; its numbers are doubles. Redis writes a number argument with 17 digits, so the
  stored value reads back unchanged. \<open>now\<close> is in whole seconds.
\<close>

definition bucket_refill :: "rat \<Rightarrow> int \<Rightarrow> int \<Rightarrow> rat \<Rightarrow> int \<Rightarrow> rat" where
  "bucket_refill tokens ts limit rate now =
     min (of_int limit) (fl (tokens + fl (of_int (max 0 (now - ts)) * rate)))"

definition token_bucket :: "(rat \<times> int) option \<Rightarrow> int \<Rightarrow> int \<Rightarrow> int \<Rightarrow> (int \<times> int \<times> int) \<times> rat \<times> int" where
  "token_bucket data limit window now =
     (let rate = fl (of_int limit / of_int window);
          (tokens0, ts) = (case data of None \<Rightarrow> (of_int limit, now) | Some d \<Rightarrow> d);
          tokens = bucket_refill tokens0 ts limit rate now
      in if 1 \<le> tokens
         then (let left_over = fl (tokens - 1) in ((1, \<lfloor>left_over\<rfloor>, 0), left_over, now))
         else ((0, \<lfloor>tokens\<rfloor>, \<lceil>fl (fl (1 - tokens) / rate)\<rceil>), tokens, now))"

definition bucket_data :: "rstore \<Rightarrow> instant \<Rightarrow> rkey \<Rightarrow> (rat \<times> int) option" where
  "bucket_data s now k = (case rget s now k of Some (Bucket t ts) \<Rightarrow> Some (t, ts) | _ \<Rightarrow> None)"

definition check_token_bucket ::
    "rstore \<Rightarrow> instant \<Rightarrow> rkey \<Rightarrow> int \<Rightarrow> int \<Rightarrow> rate_limit_result \<times> rstore" where
  "check_token_bucket s now k lmt window =
     (case token_bucket (bucket_data s now k) lmt window (now div 1000000) of
        ((a, r, w), tokens, ts) \<Rightarrow>
          (\<lparr>rl_allowed = (a \<noteq> 0), rl_limit = lmt, rl_remaining = max 0 r, rl_retry_after = max 1 w\<rparr>,
           rset s now k (Bucket tokens ts) (seconds (window * 2))))"

section \<open>Grader health\<close>

definition mark_success :: "rstore \<Rightarrow> rstore" where
  "mark_success s = rdel (rdel s GraderStreak) GraderDegraded"

definition mark_failure :: "rstore \<Rightarrow> instant \<Rightarrow> rstore" where
  "mark_failure s now =
     (case rincr s now GraderStreak of
        (streak, s1) \<Rightarrow>
          (let s2 = rexpire s1 now GraderStreak (seconds (5 * 60)) in
           if 3 \<le> streak then rset s2 now GraderDegraded Flag (seconds (5 * 60)) else s2))"

definition is_degraded :: "rstore \<Rightarrow> instant \<Rightarrow> bool" where
  "is_degraded s now \<longleftrightarrow> rget s now GraderDegraded \<noteq> None"

section \<open>Outcome counters\<close>

text \<open>\<open>record_outcome\<close> and \<open>error_rate\<close> of \<open>core/metrics.py\<close>.\<close>

definition record_outcome :: "rstore \<Rightarrow> instant \<Rightarrow> string \<Rightarrow> bool \<Rightarrow> rstore" where
  "record_outcome s now metric is_error =
     (let s1 = snd (rincr s now (CounterKey metric ''total''))
      in if is_error then snd (rincr s1 now (CounterKey metric ''errors'')) else s1)"

definition counter :: "rstore \<Rightarrow> instant \<Rightarrow> string \<Rightarrow> string \<Rightarrow> int" where
  "counter s now metric kind =
     (case rget s now (CounterKey metric kind) of Some (Count n) \<Rightarrow> n | _ \<Rightarrow> 0)"

definition error_rate :: "rstore \<Rightarrow> instant \<Rightarrow> string \<Rightarrow> int \<times> int \<times> rat" where
  "error_rate s now metric =
     (let total = counter s now metric ''total''; errors = counter s now metric ''errors''
      in (total, errors, if total \<noteq> 0 then fl (of_int errors / of_int total) else 0))"

section \<open>The interface\<close>

locale kv_store =
  fixes lookup :: "'s \<Rightarrow> instant \<Rightarrow> 'k \<Rightarrow> 'v option"
    and put :: "'s \<Rightarrow> instant \<Rightarrow> 'k \<Rightarrow> 'v \<Rightarrow> int \<Rightarrow> 's"
    and put_nx :: "'s \<Rightarrow> instant \<Rightarrow> 'k \<Rightarrow> 'v \<Rightarrow> int \<Rightarrow> bool \<times> 's"
    and remove :: "'s \<Rightarrow> 'k \<Rightarrow> 's"
  assumes lookup_put: "lookup (put s now k v ttl) t k' =
      (if k' = k then if t < now + ttl then Some v else None else lookup s t k')"
    and lookup_remove: "lookup (remove s k) t k' = (if k' = k then None else lookup s t k')"
    and put_nx: "put_nx s now k v ttl =
      (if lookup s now k = None then (True, put s now k v ttl) else (False, s))"
begin

lemma put_nx_holds:
  assumes "put_nx s now k v ttl = (True, s')" and "t < now + ttl"
  shows "lookup s' t k = Some v"
  using assms by (auto simp: put_nx lookup_put split: if_splits)

lemma put_nx_other: "k' \<noteq> k \<Longrightarrow> lookup (snd (put_nx s now k v ttl)) t k' = lookup s t k'"
  by (simp add: put_nx lookup_put)

text \<open>A holder keeps a key against any number of later attempts until it is removed or expires.\<close>

lemma held_key_refused:
  assumes "lookup s now k \<noteq> None"
  shows "put_nx s now k v ttl = (False, s)"
  using assms by (simp add: put_nx)

lemma held_through_attempts:
  assumes "\<forall>(t, v, ttl)\<in>set tries. t < d" and "\<forall>t<d. lookup s t k = Some w"
  shows "foldl (\<lambda>s (t, v, ttl). snd (put_nx s t k v ttl)) s tries = s \<and>
    (\<forall>(t, v, ttl)\<in>set tries. \<not> fst (put_nx s t k v ttl))"
  using assms
proof (induction tries)
  case (Cons x tries)
  obtain t v ttl where x: "x = (t, v, ttl)" by (cases x)
  have "put_nx s t k v ttl = (False, s)"
    using Cons.prems by (intro held_key_refused) (auto simp: x)
  with Cons show ?case by (simp add: x)
qed simp

end

interpretation redis: kv_store rget rset rset_nx rdel
  by unfold_locales (auto simp: rget_def rset_def rdel_def rset_nx_def alive_def)

end
