(* ===== verification/Store_Props.thy ===== *)
theory Store_Props
  imports Store
begin

text \<open>The properties of the Redis-backed helpers.\<close>

section \<open>Token bucket\<close>

definition bucket_ok :: "int \<Rightarrow> (rat \<times> int) option \<Rightarrow> bool" where
  "bucket_ok limit data = (case data of None \<Rightarrow> True | Some (t, _) \<Rightarrow> 0 \<le> t \<and> t \<le> of_int limit)"

lemma bucket_refill_bounds:
  assumes "0 \<le> t" and "0 \<le> limit" and "0 \<le> rate"
  shows "0 \<le> bucket_refill t ts limit rate now" "bucket_refill t ts limit rate now \<le> of_int limit"
  using assms by (auto simp: bucket_refill_def intro!: fl_nonneg add_nonneg_nonneg mult_nonneg_nonneg)

lemma token_bucket_ok:
  assumes "token_bucket data limit window now = ((a, r, w), t, ts)" and "bucket_ok limit data"
    and "0 \<le> limit" and "0 < window" and "limit < 2 ^ 53"
  shows "bucket_ok limit (Some (t, ts))" "0 \<le> r \<and> r \<le> limit"
proof -
  define rate :: rat where "rate = fl (of_int limit / of_int window)"
  obtain t0 ts0 where d: "(case data of None \<Rightarrow> (of_int limit, now) | Some d \<Rightarrow> d) = (t0, ts0)" by fastforce
  have t0: "0 \<le> t0" using d assms(2,3) by (auto simp: bucket_ok_def split: option.splits)
  have "0 \<le> rate" using assms(3,4) by (simp add: rate_def fl_nonneg)
  define tok where "tok = bucket_refill t0 ts0 limit rate now"
  have tok: "0 \<le> tok" "tok \<le> of_int limit"
    unfolding tok_def using bucket_refill_bounds [OF t0 assms(3) \<open>0 \<le> rate\<close>] by simp_all
  have run: "((a, r, w), t, ts) =
     (if 1 \<le> tok then ((1, \<lfloor>fl (tok - 1)\<rfloor>, 0), fl (tok - 1), now)
      else ((0, \<lfloor>tok\<rfloor>, \<lceil>fl (fl (1 - tok) / rate)\<rceil>), tok, now))"
    using assms(1) d unfolding token_bucket_def rate_def [symmetric] Let_def tok_def by simp
  have t: "0 \<le> t \<and> t \<le> of_int limit \<and> r = \<lfloor>t\<rfloor>"
  proof (cases "1 \<le> tok")
    case True
    have "fl (tok - 1) \<le> fl (of_int limit)" using tok by (intro fl_mono) simp
    also have "\<dots> = of_int limit" using assms(3,5) by (intro fl_representable representable_int) simp
    finally show ?thesis using run True fl_nonneg [of "tok - 1"] by simp
  next
    case False
    then show ?thesis using run tok by simp
  qed
  then show "bucket_ok limit (Some (t, ts))" by (simp add: bucket_ok_def)
  have "\<lfloor>t\<rfloor> \<le> \<lfloor>of_int limit :: rat\<rfloor>" using t by (intro floor_mono) simp
  then show "0 \<le> r \<and> r \<le> limit" using t by simp
qed

fun bucket_run :: "(rat \<times> int) option \<Rightarrow> int \<Rightarrow> int \<Rightarrow> int list \<Rightarrow> (int \<times> int \<times> int) list" where
  "bucket_run data limit window [] = []"
| "bucket_run data limit window (now # nows) =
     (case token_bucket data limit window now of
        (res, t, ts) \<Rightarrow> res # bucket_run (Some (t, ts)) limit window nows)"

lemma bucket_run_bounds:
  assumes "bucket_ok limit data" and "0 \<le> limit" and "0 < window" and "limit < 2 ^ 53"
  shows "\<forall>(a, r, w)\<in>set (bucket_run data limit window nows). 0 \<le> r \<and> r \<le> limit"
  using assms(1)
proof (induction nows arbitrary: data)
  case (Cons now nows)
  obtain a r w t ts where tb: "token_bucket data limit window now = ((a, r, w), t, ts)" by (metis prod_cases5 prod_cases3)
  note ok = token_bucket_ok [OF tb Cons.prems assms(2-4)]
  show ?case using Cons.IH [OF ok(1)] ok(2) by (simp add: tb)
qed simp

lemma token_bucket_int:
  assumes "0 \<le> k" and "k \<le> limit" and "limit < 2 ^ 53"
  shows "token_bucket (Some (of_int k, now)) limit window now =
    (if 1 \<le> k then ((1, k - 1, 0), of_int (k - 1), now)
     else ((0, 0, \<lceil>fl (1 / fl (of_int limit / of_int window))\<rceil>), 0, now))"
proof -
  have k: "fl (of_int k) = of_int k" "fl (of_int (k - 1)) = of_int (k - 1)"
    using assms by (intro fl_representable representable_int; simp)+
  then have r: "bucket_refill (of_int k) now limit rate now = of_int k" for rate
    using assms by (simp add: bucket_refill_def min_def)
  have f: "fl (of_int k - 1) = of_int k - 1" using k(2) by simp
  show ?thesis
  proof (cases "1 \<le> k")
    case False
    then have "k = 0" using assms(1) by simp
    with r show ?thesis by (simp add: token_bucket_def Let_def)
  qed (simp add: token_bucket_def r f Let_def)
qed

lemma bucket_run_burst:
  assumes "int k \<le> limit" and "limit < 2 ^ 53"
  shows "bucket_run (Some (of_int (int k), now)) limit window (replicate n now) =
    map (\<lambda>i. (1, int k - 1 - int i, 0)) [0..<min n k] @
    replicate (n - k) (0, 0, \<lceil>fl (1 / fl (of_int limit / of_int window))\<rceil>)"
  using assms
proof (induction n arbitrary: k)
  case (Suc n)
  show ?case
  proof (cases k)
    case 0
    have z: "token_bucket (Some (0, now)) limit window now =
        ((0, 0, \<lceil>fl (1 / fl (of_int limit / of_int window))\<rceil>), 0, now)"
      using Suc.prems token_bucket_int [of 0 limit now window] by simp
    have "bucket_run (Some (0, now)) limit window (replicate m now) =
        replicate m (0, 0, \<lceil>fl (1 / fl (of_int limit / of_int window))\<rceil>)" for m
      by (induction m) (simp_all add: z)
    from this [of "Suc n"] show ?thesis by (simp add: 0)
  next
    case (Suc j)
    have "token_bucket (Some (of_int (int k), now)) limit window now = ((1, int j, 0), of_int (int j), now)"
      using token_bucket_int [of "int k" limit now window] Suc.prems Suc by simp
    moreover have "map (\<lambda>i. (1, int k - 1 - int i, 0)) [0..<min (Suc n) k] =
        (1 :: int, int j, 0 :: int) # map (\<lambda>i. (1, int j - 1 - int i, 0)) [0..<min n j]"
      by (simp add: Suc upt_conv_Cons del: upt_Suc flip: map_Suc_upt)
    ultimately show ?thesis using Suc.IH [of j] Suc.prems Suc by simp
  qed
qed simp

text \<open>
  C11: The token bucket admits exactly \<open>limit\<close> requests of a burst: of \<open>n\<close> requests of a new
  key within one second the first \<open>limit\<close> are allowed, with the remaining count falling by one
  each, and the rest refused with nothing remaining. Whatever the times of the requests, the remaining
  count reported stays between 0 and the limit.
\<close>

theorem token_bucket_burst:
  assumes "0 < limit" and "limit < 2 ^ 53" and "0 < window"
  shows "bucket_run None limit window (replicate n now) =
      map (\<lambda>i. (1, limit - 1 - int i, 0)) [0..<min n (nat limit)] @
      replicate (n - nat limit) (0, 0, \<lceil>fl (1 / fl (of_int limit / of_int window))\<rceil>) \<and>
    (\<forall>(a, r, w)\<in>set (bucket_run None limit window nows). 0 \<le> r \<and> r \<le> limit)"
proof -
  have "token_bucket None limit window now = token_bucket (Some (of_int limit, now)) limit window now"
    by (simp add: token_bucket_def)
  then have "bucket_run None limit window (replicate n now) =
      bucket_run (Some (of_int (int (nat limit)), now)) limit window (replicate n now)"
    using assms(1) by (cases n) simp_all
  with bucket_run_burst [of "nat limit" limit now window n] bucket_run_bounds [of limit None window nows] assms
  show ?thesis by (simp add: bucket_ok_def)
qed

theorem token_bucket_burst_witness:
  "map fst (bucket_run None 2 60 [7, 7, 7]) = [1, 1, 0]"
  using token_bucket_burst [of 2 60 3 7 "[]"] by (simp add: numeral_eq_Suc)

section \<open>Waiting for the winner of a reservation\<close>

lemma wait_unfold:
  "wait_for_cached fuel seen i ns k dl = Some res \<Longrightarrow>
     (case res of
        Some r \<Rightarrow> \<exists>n\<ge>i. get_cached (snd (seen n)) (fst (seen n)) ns k = Some r \<and>
          (\<forall>m. i \<le> m \<and> m < n \<longrightarrow> get_cached (snd (seen m)) (fst (seen m)) ns k = None \<and> fst (seen m) < dl)
      | None \<Rightarrow> \<exists>n\<ge>i. dl \<le> fst (seen n) \<and>
          (\<forall>m. i \<le> m \<and> m \<le> n \<longrightarrow> get_cached (snd (seen m)) (fst (seen m)) ns k = None))"
proof (induction fuel arbitrary: i)
  case (Suc fuel)
  show ?case
  proof (cases "get_cached (snd (seen i)) (fst (seen i)) ns k")
    case (Some r)
    with Suc.prems show ?thesis by (auto intro!: exI [of _ i])
  next
    case None
    show ?thesis
    proof (cases "dl \<le> fst (seen i)")
      case True
      with None Suc.prems show ?thesis by (auto intro!: exI [of _ i])
    next
      case False
      have IH: "wait_for_cached fuel seen (Suc i) ns k dl = Some res"
        using Suc.prems None False by simp
      have ext: "i \<le> m \<Longrightarrow> Suc i \<le> m \<or> m = i" for m by auto
      from Suc.IH [OF IH] None False show ?thesis
      proof (cases res)
        case (Some r)
        with Suc.IH [OF IH] obtain n where "Suc i \<le> n"
          "get_cached (snd (seen n)) (fst (seen n)) ns k = Some r"
          "\<forall>m. Suc i \<le> m \<and> m < n \<longrightarrow> get_cached (snd (seen m)) (fst (seen m)) ns k = None \<and> fst (seen m) < dl"
          by auto
        with None False Some ext show ?thesis by (auto intro!: exI [of _ n] dest!: ext)
      next
        case empty: None
        with Suc.IH [OF IH] obtain n where "Suc i \<le> n" "dl \<le> fst (seen n)"
          "\<forall>m. Suc i \<le> m \<and> m \<le> n \<longrightarrow> get_cached (snd (seen m)) (fst (seen m)) ns k = None"
          by auto
        with None empty show ?thesis by (auto intro!: exI [of _ n] dest!: ext)
      qed
    qed
  qed
qed simp

lemma wait_enough_fuel:
  assumes "\<And>n. fst (seen n) + 100000 \<le> fst (seen (Suc n))" and "dl \<le> fst (seen i) + 100000 * int f"
  shows "wait_for_cached (Suc f) seen i ns k dl \<noteq> None"
  using assms(2)
proof (induction f arbitrary: i)
  case (Suc f)
  have "dl \<le> fst (seen (Suc i)) + 100000 * int f" using Suc.prems assms(1) [of i] by simp
  from Suc.IH [OF this] show ?case
    by (subst wait_for_cached.simps) (simp split: option.split del: wait_for_cached.simps)
qed (simp split: option.split)

text \<open>
  Waiting for the winner's result ends: with lookups at least a tenth of a second apart, the
  number of lookups is at most two more than ten per second of the budget. It returns the record of
  the first lookup that finds one, provided no earlier lookup was at or past the deadline, and nothing
  only when it has looked at or after the deadline and never found one.
\<close>

theorem wait_for_cached_returns:
  assumes "\<And>n. fst (seen n) + 100000 \<le> fst (seen (Suc n))"
    and "fuel = nat ((deadline - fst (seen 0)) div 100000) + 2" and "fst (seen 0) \<le> deadline"
  shows "\<exists>res. wait_for_cached fuel seen 0 ns k deadline = Some res \<and>
    (case res of
       Some r \<Rightarrow> \<exists>n. get_cached (snd (seen n)) (fst (seen n)) ns k = Some r \<and>
         (\<forall>m<n. get_cached (snd (seen m)) (fst (seen m)) ns k = None \<and> fst (seen m) < deadline)
     | None \<Rightarrow> \<exists>n. deadline \<le> fst (seen n) \<and>
         (\<forall>m\<le>n. get_cached (snd (seen m)) (fst (seen m)) ns k = None))"
proof -
  let ?d = "deadline - fst (seen 0)"
  have "?d = 100000 * (?d div 100000) + ?d mod 100000" by simp
  moreover have "?d mod 100000 < 100000" by simp
  ultimately have "?d < 100000 * (?d div 100000) + 100000" by linarith
  then have "deadline \<le> fst (seen 0) + 100000 * int (nat (?d div 100000) + 1)"
    using assms(3) by (simp add: algebra_simps pos_imp_zdiv_nonneg_iff)
  from wait_enough_fuel [of seen, OF assms(1) this] obtain res
    where res: "wait_for_cached fuel seen 0 ns k deadline = Some res"
    unfolding assms(2) by fastforce
  from wait_unfold [OF this] res show ?thesis by (auto split: option.splits)
qed

theorem wait_for_cached_returns_witness:
  "\<exists>res. wait_for_cached 22 (\<lambda>n. (100000 * int n, Map.empty)) 0 ''attempts'' ''k'' 2000000 = Some res"
proof -
  let ?seen = "\<lambda>n. (100000 * int n, Map.empty :: rstore)"
  have "fst (?seen n) + 100000 \<le> fst (?seen (Suc n))" for n by simp
  from wait_for_cached_returns [of ?seen 22 2000000, OF this] show ?thesis by auto
qed

section \<open>Grader health\<close>

text \<open>A history of grader calls: the time of each and whether it succeeded.\<close>

fun health_run :: "(instant \<times> bool) list \<Rightarrow> rstore \<Rightarrow> rstore" where
  "health_run [] s = s"
| "health_run ((t, ok) # evs) s = health_run evs (if ok then mark_success s else mark_failure s t)"

text \<open>The failures since the last success, newest first, given those before the history.\<close>

fun trailing :: "(instant \<times> bool) list \<Rightarrow> instant list \<Rightarrow> instant list" where
  "trailing [] ts = ts"
| "trailing ((t, ok) # evs) ts = trailing evs (if ok then [] else t # ts)"

fun chain :: "instant list \<Rightarrow> nat" where
  "chain [] = 0"
| "chain [t] = 1"
| "chain (t # u # ts) = (if t < u + seconds 300 then Suc (chain (u # ts)) else 1)"

definition health_inv :: "instant list \<Rightarrow> rstore \<Rightarrow> bool" where
  "health_inv ts s \<longleftrightarrow>
     (case ts of
        [] \<Rightarrow> (\<forall>now. rget s now GraderStreak = None \<and> rget s now GraderDegraded = None)
      | t # _ \<Rightarrow>
          s GraderStreak = Some (Count (int (chain ts)), Some (t + seconds 300)) \<and>
          (\<forall>now\<ge>t. rget s now GraderDegraded \<noteq> None \<longleftrightarrow> 3 \<le> chain ts \<and> now < t + seconds 300))"

lemma health_inv_success: "health_inv [] (mark_success s)"
  by (simp add: health_inv_def mark_success_def rdel_def rget_def)

lemma rget_set_nx: "rget (s(k' \<mapsto> p)) now k = (if k = k' then (case p of (v, d) \<Rightarrow> if alive now d then Some v else None)
    else rget s now k)"
  by (auto simp: rget_def split: prod.split)

lemma health_inv_failure:
  assumes "health_inv ts s" and "\<forall>u\<in>set ts. u \<le> t"
  shows "health_inv (t # ts) (mark_failure s t)"
proof -
  have pos: "0 < seconds 300" by (simp add: seconds_def)
  show ?thesis
  proof (cases ts)
    case Nil
    then have none: "rget s now GraderStreak = None" "rget s now GraderDegraded = None" for now
      using assms(1) by (simp_all add: health_inv_def)
    have "mark_failure s t = s(GraderStreak \<mapsto> (Count 1, Some (t + seconds 300)))"
      by (simp add: mark_failure_def rincr_def none rexpire_def rget_set_nx alive_def)
    then show ?thesis using Nil none by (simp add: health_inv_def rget_set_nx)
  next
    case (Cons u us)
    have u: "u \<le> t" using assms(2) Cons by simp
    have st: "s GraderStreak = Some (Count (int (chain ts)), Some (u + seconds 300))"
      and deg: "\<And>now. u \<le> now \<Longrightarrow> rget s now GraderDegraded \<noteq> None \<longleftrightarrow> 3 \<le> chain ts \<and> now < u + seconds 300"
      using assms(1) by (simp_all add: health_inv_def Cons)
    define c where "c = chain (t # ts)"
    have c: "c = (if t < u + seconds 300 then Suc (chain ts) else 1)" by (simp add: c_def Cons)
    let ?s2 = "s(GraderStreak \<mapsto> (Count (int c), Some (t + seconds 300)))"
    have "rincr s t GraderStreak = (if t < u + seconds 300
        then (int c, s(GraderStreak \<mapsto> (Count (int c), Some (u + seconds 300))))
        else (int c, s(GraderStreak \<mapsto> (Count (int c), None))))"
      by (simp add: rincr_def rget_def st alive_def c add.commute)
    then have mf: "mark_failure s t =
        (if 3 \<le> c then rset ?s2 t GraderDegraded Flag (seconds 300) else ?s2)"
      by (simp add: mark_failure_def rexpire_def rget_set_nx alive_def split: if_splits)
    have "mark_failure s t GraderStreak = Some (Count (int c), Some (t + seconds 300))"
      by (simp add: mf rset_def)
    moreover have "rget (mark_failure s t) now GraderDegraded \<noteq> None \<longleftrightarrow> 3 \<le> c \<and> now < t + seconds 300"
      if "t \<le> now" for now
    proof (cases "3 \<le> c")
      case True
      then show ?thesis by (simp add: mf rset_def rget_set_nx alive_def)
    next
      case False
      then have "\<not> (3 \<le> chain ts \<and> now < u + seconds 300)" using that by (auto simp: c split: if_splits)
      with deg [of now] that u False show ?thesis by (simp add: mf rget_set_nx)
    qed
    ultimately show ?thesis by (simp add: health_inv_def c_def)
  qed
qed

lemma trailing_le:
  "sorted (map fst evs) \<Longrightarrow> \<forall>u\<in>set ts. \<forall>e\<in>set evs. u \<le> fst e \<Longrightarrow> health_inv ts s \<Longrightarrow>
     health_inv (trailing evs ts) (health_run evs s)"
proof (induction evs arbitrary: ts s)
  case (Cons e evs)
  obtain t ok where e: "e = (t, ok)" by (cases e)
  show ?case
  proof (cases ok)
    case True
    with Cons.prems show ?thesis by (auto simp: e intro!: Cons.IH health_inv_success)
  next
    case False
    have "health_inv (t # ts) (mark_failure s t)"
      using Cons.prems by (intro health_inv_failure) (auto simp: e)
    moreover have "sorted (map fst evs)" "\<forall>u\<in>set (t # ts). \<forall>e\<in>set evs. u \<le> fst e"
      using Cons.prems by (simp_all add: e)
    ultimately have "health_inv (trailing evs (t # ts)) (health_run evs (mark_failure s t))"
      by (intro Cons.IH)
    with False show ?thesis by (simp add: e)
  qed
qed simp

lemma chain_pos: "1 \<le> chain (t # ts)"
  by (cases ts) auto

lemma chain_3: "3 \<le> chain ts \<longleftrightarrow>
    (\<exists>t u v r. ts = t # u # v # r \<and> t < u + seconds 300 \<and> u < v + seconds 300)"
proof (cases ts rule: chain.cases)
  case (3 t u r)
  show ?thesis
  proof (cases r)
    case (Cons v w)
    with 3 chain_pos [of v w] show ?thesis by (simp split: if_splits)
  qed (simp add: 3)
qed simp_all

text \<open>
  The grader counts as degraded exactly when the last three calls since the last success failed,
  each less than five minutes after the one before, and the last of them less than five minutes ago:
  one success clears the signal, and without new failures it clears by itself.
\<close>

theorem grader_degraded_iff:
  assumes "sorted (map fst evs)" and "\<forall>e\<in>set evs. fst e \<le> now"
  shows "is_degraded (health_run evs Map.empty) now \<longleftrightarrow>
    (\<exists>t u v r. trailing evs [] = t # u # v # r \<and>
       t < u + seconds 300 \<and> u < v + seconds 300 \<and> now < t + seconds 300)"
proof -
  have inv: "health_inv (trailing evs []) (health_run evs Map.empty)"
    using assms(1) by (intro trailing_le) (simp_all add: health_inv_def rget_def)
  have "set (trailing evs ts) \<subseteq> set ts \<union> fst ` set evs" for ts
    by (induction evs arbitrary: ts) (fastforce split: if_splits)+
  from this [of "[]"] have le: "\<forall>t\<in>set (trailing evs []). t \<le> now" using assms(2) by auto
  show ?thesis
  proof (cases "trailing evs []")
    case Nil
    with inv show ?thesis by (simp add: health_inv_def is_degraded_def)
  next
    case (Cons t ts)
    with inv le have "is_degraded (health_run evs Map.empty) now \<longleftrightarrow>
        3 \<le> chain (t # ts) \<and> now < t + seconds 300"
      by (simp add: health_inv_def is_degraded_def)
    then show ?thesis unfolding chain_3 Cons by auto
  qed
qed

theorem grader_degraded_iff_witness:
  "is_degraded (health_run [(0, True), (1, False), (2, False), (3, False)] Map.empty) 9"
  using grader_degraded_iff [of "[(0, True), (1, False), (2, False), (3, False)]" 9]
  by (simp add: seconds_def)

section \<open>Reservations\<close>

datatype redis_cmd =
    Acquire string string
  | Release string string
  | StoreRecord string string string nat json
  | TakeToken string int int
  | Graded bool

fun redis_step :: "rstore \<Rightarrow> instant \<times> redis_cmd \<Rightarrow> rstore" where
  "redis_step s (t, Acquire ns k) = snd (acquire_reservation s t ns k)"
| "redis_step s (t, Release ns k) = release_reservation s ns k"
| "redis_step s (t, StoreRecord ns k h c b) = store_idempotency s t ns k h c b"
| "redis_step s (t, TakeToken b l w) = snd (check_token_bucket s t (BucketKey b) l w)"
| "redis_step s (t, Graded ok) = (if ok then mark_success s else mark_failure s t)"

lemma mark_failure_other [frame]:
  "k \<noteq> GraderStreak \<Longrightarrow> k \<noteq> GraderDegraded \<Longrightarrow> rget (mark_failure s t) u k = rget s u k"
  by (auto simp: mark_failure_def rincr_def rexpire_def rset_def rget_set_nx Let_def
      split: option.split rval.split)

lemma lock_kept:
  assumes "rget s t (LockKey ns k) = Some Flag" and "c \<noteq> Release ns k" and "t' = t"
  shows "rget (redis_step s (t', c)) u (LockKey ns k) = rget s u (LockKey ns k)"
proof (cases c)
  case (Acquire ns' k')
  show ?thesis
  proof (cases "ns' = ns \<and> k' = k")
    case True
    have "rset_nx s t (LockKey ns k) Flag (seconds 30) = (False, s)"
      using assms(1) by (intro redis.held_key_refused) simp
    with True show ?thesis by (simp add: Acquire acquire_reservation_def assms(3))
  next
    case False
    then show ?thesis by (auto simp: Acquire acquire_reservation_def intro!: redis.put_nx_other)
  qed
next
  case (Release ns' k')
  with assms(2) show ?thesis by (auto simp: release_reservation_def redis.lookup_remove)
next
  case (StoreRecord ns' k' h co b)
  then show ?thesis by (simp add: store_idempotency_def redis.lookup_put)
next
  case (TakeToken b l w)
  then show ?thesis
    by (cases "token_bucket (bucket_data s t (BucketKey b)) l w (t div 1000000)")
       (auto simp: check_token_bucket_def redis.lookup_put assms(3) split: prod.split)
next
  case (Graded ok)
  then show ?thesis
    by (simp add: mark_success_def mark_failure_other redis.lookup_remove)
qed

text \<open>
  A reservation is exclusive. Once a request has reserved a key, every attempt of another request
  to reserve it within the next thirty seconds is refused, whatever other commands run in between,
  as long as nobody releases that key; after a release, whoever sent it, the key is free again.
\<close>

theorem reservation_is_exclusive:
  assumes "acquire_reservation s t0 ns k = (True, s1)"
    and "\<forall>(t, c)\<in>set cmds. t < t0 + seconds 30 \<and> c \<noteq> Release ns k" and "t1 < t0 + seconds 30"
  shows "fst (acquire_reservation (foldl redis_step s1 cmds) t1 ns k) = False \<and>
    fst (acquire_reservation (redis_step (foldl redis_step s1 cmds) (t2, Release ns k)) t3 ns k) = True"
proof -
  have held: "\<forall>u<t0 + seconds 30. rget s1 u (LockKey ns k) = Some Flag"
    using assms(1) redis.put_nx_holds unfolding acquire_reservation_def by blast
  have "\<forall>u<t0 + seconds 30. rget (foldl redis_step s1 cs) u (LockKey ns k) = Some Flag"
    if "\<forall>(t, c)\<in>set cs. t < t0 + seconds 30 \<and> c \<noteq> Release ns k" for cs
    using that
  proof (induction cs rule: rev_induct)
    case (snoc x cs)
    obtain t c where x: "x = (t, c)" by (cases x)
    then have IH: "\<forall>u<t0 + seconds 30. rget (foldl redis_step s1 cs) u (LockKey ns k) = Some Flag"
      and "t < t0 + seconds 30" "c \<noteq> Release ns k"
      using snoc by auto
    then have "rget (redis_step (foldl redis_step s1 cs) (t, c)) u (LockKey ns k) =
        rget (foldl redis_step s1 cs) u (LockKey ns k)" for u
      by (intro lock_kept [OF _ _ refl]) auto
    with IH show ?case by (simp add: x)
  qed (use held in simp)
  from this [OF assms(2)] assms(3) have "rget (foldl redis_step s1 cmds) t1 (LockKey ns k) \<noteq> None" by simp
  then have "fst (acquire_reservation (foldl redis_step s1 cmds) t1 ns k) = False"
    unfolding acquire_reservation_def using redis.held_key_refused by fastforce
  moreover have "fst (acquire_reservation (redis_step (foldl redis_step s1 cmds) (t2, Release ns k)) t3 ns k) = True"
    by (simp add: acquire_reservation_def release_reservation_def redis.put_nx redis.lookup_remove)
  ultimately show ?thesis ..
qed

theorem reservation_is_exclusive_witness:
  "\<not> fst (acquire_reservation (foldl redis_step (snd (acquire_reservation Map.empty 0 ''attempts'' ''k''))
      [(5, Graded False)]) 9 ''attempts'' ''k'')"
proof -
  have a: "acquire_reservation Map.empty 0 ''attempts'' ''k'' =
      (True, snd (acquire_reservation Map.empty 0 ''attempts'' ''k''))"
    by (simp add: acquire_reservation_def rset_nx_def rget_def)
  from reservation_is_exclusive [OF a, of "[(5, Graded False)]" 9] show ?thesis
    by (simp add: seconds_def)
qed

end
