(* ===== verification/Sessions.thy ===== *)
theory Sessions
  imports Sampler_Props Store Streak Mastery Grading
begin

text \<open>
  The daily session, \<open>sessions/service.py\<close>: built on the first request of a local day, stored,
  cached in Redis, and purged when an exercise it references is pulled. The state is the tables and
  the Redis store the request handlers share. Two requests interleave at the advisory lock: what
  happens under it (\<open>build_and_persist_session\<close>) is one step.
\<close>

section \<open>Shared state\<close>

record daily_session =
  exercise_list :: "session_slot list"
  completed_at :: "instant option"

datatype attempt_status = StGraded | StPending | StFailed | StSkipped

record attempt =
  att_id :: nat
  att_user :: uid
  att_exercise :: nat
  att_version :: nat
  session_date :: date
  att_answer :: jobj
  att_mode :: string
  att_status :: attempt_status
  att_correct :: "bool option"
  att_score :: "rat option"
  grader_output :: "(string list \<times> string list \<times> string) option"
  time_taken_ms :: "int option"
  att_created_at :: instant
  graded_at :: "instant option"

record user =
  user_id :: uid
  timezone :: string
  level :: string

record exercise_stat =
  attempts_count :: int
  correct_count :: int
  solve_rate :: "rat option"
  median_time_ms :: "int option"

record backend =
  streaks :: streak_db
  concept_states :: concept_tbl
  attempts_tbl :: "attempt list"
  next_attempt_id :: nat
  daily_sessions :: "((uid \<times> date) \<times> daily_session) list"
  exercises_tbl :: "exercise list"
  exercise_stats :: "((nat \<times> nat) \<times> exercise_stat) list"
  redis_store :: rstore
  retry_counts :: "(nat \<times> int) list"

text \<open>
  \<open>retry_counts\<close> is the entry \<open>_retry_count\<close> that \<open>jobs/grading_retry.py\<close> keeps in
  the \<open>grader_output\<close> of a pending attempt, by the id of the attempt.
\<close>

text \<open>The parameters of a run: settings, zone offsets and the order of a Python set.\<close>

record env =
  settings_of :: settings
  zone_off :: "string \<Rightarrow> instant \<Rightarrow> int"
  wall_off :: "string \<Rightarrow> int \<Rightarrow> int"
  set_order :: "string list \<Rightarrow> string list"

section \<open>Building a session\<close>

text \<open>The rows of the candidate query, joined with the statistics of the version.\<close>

definition live_rows :: "backend \<Rightarrow> live_row list" where
  "live_rows b =
     map (\<lambda>e. \<lparr>row_id = ex_id e, row_version = ex_version e, row_language = ex_language e,
                row_type = ex_type e, row_difficulty_authored = ex_difficulty_authored e,
                row_difficulty_empirical = ex_difficulty_empirical e, row_concepts = ex_concepts e,
                row_est_time_s = ex_est_time_s e,
                row_attempts_count =
                  map_option attempts_count (map_of (exercise_stats b) (ex_id e, ex_version e))\<rparr>)
       (exercises_current (exercises_tbl b))"

definition candidate_types :: "env \<Rightarrow> instant \<Rightarrow> backend \<Rightarrow> string list" where
  "candidate_types E now b =
     (if SUMMARIZE_ENABLED (settings_of E) \<and> \<not> is_degraded (redis_store b) now
      then deterministic_types @ [''summarize''] else deterministic_types)"

definition due_concepts :: "env \<Rightarrow> user \<Rightarrow> date \<Rightarrow> backend \<Rightarrow> string list" where
  "due_concepts E usr today b =
     (let cutoff = local_day_end_utc (wall_off E) (timezone usr) today;
          due = filter (\<lambda>((u, c), r). u = user_id usr \<and>
                   (case next_review_at r of None \<Rightarrow> False | Some t \<Rightarrow> t < cutoff)) (concept_states b)
      in map (\<lambda>((u, c), r). c) (sort_key (\<lambda>((u, c), r). the (next_review_at r)) due))"

definition concept_mastery :: "user \<Rightarrow> backend \<Rightarrow> (string \<rightharpoonup> int)" where
  "concept_mastery usr b c = map_option mastery (map_of (concept_states b) (user_id usr, c))"

definition recently_seen_ids :: "instant \<Rightarrow> user \<Rightarrow> backend \<Rightarrow> nat set" where
  "recently_seen_ids now usr b =
     set (map att_exercise (filter (\<lambda>a. att_user a = user_id usr \<and> now - days_us 14 \<le> att_created_at a)
       (attempts_tbl b)))"

definition sample_session_slots ::
    "env \<Rightarrow> instant \<Rightarrow> user \<Rightarrow> date \<Rightarrow> backend \<Rightarrow> session_slot list result" where
  "sample_session_slots E now usr today b =
     build_session_slots (set_order E)
       (fetch_candidates ''python'' (candidate_types E now b) (live_rows b))
       (due_concepts E usr today b) (concept_mastery usr b) (recently_seen_ids now usr b)
       (case level_difficulty_of (level usr) of None \<Rightarrow> 5 | Some d \<Rightarrow> d)
       (case level_band_of (level usr) of None \<Rightarrow> (3, 8) | Some p \<Rightarrow> p)"

definition session_row :: "backend \<Rightarrow> uid \<Rightarrow> date \<Rightarrow> daily_session option" where
  "session_row b u d = map_of (daily_sessions b) (u, d)"

definition put_session_row :: "uid \<Rightarrow> date \<Rightarrow> daily_session \<Rightarrow> backend \<Rightarrow> backend" where
  "put_session_row u d row b = b\<lparr>daily_sessions := AList.update (u, d) row (daily_sessions b)\<rparr>"

text \<open>
  The part under the advisory lock. A row that exists and is not empty wins; an empty result is not
  stored. (A row of an older version with an empty list is deleted in the same transaction, so the
  insert finds no row.)
\<close>

definition build_and_persist_session ::
    "env \<Rightarrow> instant \<Rightarrow> user \<Rightarrow> date \<Rightarrow> backend \<Rightarrow> (session_slot list \<times> backend) result" where
  "build_and_persist_session E now usr today b =
     (case session_row b (user_id usr) today of
        Some row \<Rightarrow>
          if exercise_list row \<noteq> [] then Inr (exercise_list row, b)
          else Inl IntegrityError
      | None \<Rightarrow>
          (case sample_session_slots E now usr today b of
             Inl e \<Rightarrow> Inl e
           | Inr [] \<Rightarrow>
               Inr ([], b\<lparr>redis_store := record_outcome (redis_store b) now ''session_build'' True\<rparr>)
           | Inr slots \<Rightarrow>
               Inr (slots, put_session_row (user_id usr) today
                 \<lparr>exercise_list = slots, completed_at = None\<rparr>
                 (b\<lparr>redis_store := record_outcome (redis_store b) now ''session_build'' False\<rparr>))))"

definition cached_slots :: "instant \<Rightarrow> uid \<Rightarrow> date \<Rightarrow> backend \<Rightarrow> session_slot list option" where
  "cached_slots now u d b =
     (case rget (redis_store b) now (SessionKey u d) of Some (Slots xs) \<Rightarrow> Some xs | _ \<Rightarrow> None)"

definition cache_slots :: "instant \<Rightarrow> uid \<Rightarrow> date \<Rightarrow> session_slot list \<Rightarrow> backend \<Rightarrow> backend" where
  "cache_slots now u d xs b =
     b\<lparr>redis_store := rset (redis_store b) now (SessionKey u d) (Slots xs) (seconds (36 * 60 * 60))\<rparr>"

definition delete_session_row :: "uid \<Rightarrow> date \<Rightarrow> backend \<Rightarrow> backend" where
  "delete_session_row u d b = b\<lparr>daily_sessions := AList.delete (u, d) (daily_sessions b)\<rparr>"

text \<open>
  When the rebuilt session is empty nothing commits, so the deleted empty row is back
  (\<open>restore\<close>).
\<close>

definition build_and_cache ::
    "env \<Rightarrow> instant \<Rightarrow> user \<Rightarrow> date \<Rightarrow> (backend \<Rightarrow> backend) \<Rightarrow> backend
       \<Rightarrow> ((date \<times> session_slot list) \<times> backend) result" where
  "build_and_cache E now usr today restore b =
     (case build_and_persist_session E now usr today b of
        Inl e \<Rightarrow> Inl e
      | Inr (slots, b') \<Rightarrow>
          if slots = [] then Inr ((today, []), restore b')
          else Inr ((today, slots), cache_slots now (user_id usr) today slots b'))"

definition get_today_slots ::
    "env \<Rightarrow> instant \<Rightarrow> user \<Rightarrow> backend \<Rightarrow> ((date \<times> session_slot list) \<times> backend) result" where
  "get_today_slots E now usr b =
     (let today = local_date_for (zone_off E) (timezone usr) now; u = user_id usr in
      case cached_slots now u today b of
        Some xs \<Rightarrow> Inr ((today, xs), b)
      | None \<Rightarrow>
          (case session_row b u today of
             Some row \<Rightarrow>
               if exercise_list row \<noteq> []
               then Inr ((today, exercise_list row), cache_slots now u today (exercise_list row) b)
               else build_and_cache E now usr today
                      (\<lambda>b'. b'\<lparr>daily_sessions := daily_sessions b\<rparr>) (delete_session_row u today b)
           | None \<Rightarrow> build_and_cache E now usr today id b))"

section \<open>Purging\<close>

definition references :: "nat \<Rightarrow> daily_session \<Rightarrow> bool" where
  "references ex row \<longleftrightarrow> ex \<in> slot_exercise_id ` set (exercise_list row)"

definition purge_rows :: "instant \<Rightarrow> nat \<Rightarrow> backend \<Rightarrow> (uid \<times> date) list" where
  "purge_rows now ex b =
     map fst (filter (\<lambda>((u, d), row). now div us_per_day - 1 \<le> d \<and> completed_at row = None \<and>
                        references ex row) (daily_sessions b))"

definition purge_sessions_referencing :: "instant \<Rightarrow> nat \<Rightarrow> backend \<Rightarrow> nat \<times> backend" where
  "purge_sessions_referencing now ex b =
     (let rows = purge_rows now ex b;
          b1 = b\<lparr>daily_sessions := filter (\<lambda>(k, _). k \<notin> set rows) (daily_sessions b)\<rparr>
      in (length rows,
          b1\<lparr>redis_store := foldl (\<lambda>s (u, d). rdel s (SessionKey u d)) (redis_store b1) rows\<rparr>))"

definition pull_exercise :: "instant \<Rightarrow> nat \<Rightarrow> nat \<Rightarrow> backend \<Rightarrow> (nat \<times> backend) result" where
  "pull_exercise now i v b =
     (case pull_status i v (exercises_tbl b) of
        Inl e \<Rightarrow> Inl e
      | Inr tbl \<Rightarrow> Inr (purge_sessions_referencing now i (b\<lparr>exercises_tbl := tbl\<rparr>)))"

section \<open>Sessions and their cache\<close>

lemma rget_rincr [simp]: "k \<noteq> k' \<Longrightarrow> rget (snd (rincr s now k)) t k' = rget s t k'"
  by (auto simp: rincr_def rget_def split: option.split rval.split)

lemma redis_record_outcome [simp]:
  "rget (record_outcome s now m err) t (SessionKey u d) = rget s t (SessionKey u d)"
  by (simp add: record_outcome_def Let_def)

lemma session_row_put [simp]:
  "session_row (put_session_row u d row b) u' d' = (if u' = u \<and> d' = d then Some row else session_row b u' d')"
  by (auto simp: session_row_def put_session_row_def update_conv')

lemma session_row_cache [simp]: "session_row (cache_slots now u d xs b) u' d' = session_row b u' d'"
  by (simp add: session_row_def cache_slots_def)

lemma session_row_delete [simp]:
  "session_row (delete_session_row u d b) u' d' = (if u' = u \<and> d' = d then None else session_row b u' d')"
  by (auto simp: session_row_def delete_session_row_def delete_conv')

lemma session_row_other [simp]:
  "session_row (b\<lparr>redis_store := r\<rparr>) u d = session_row b u d"
  "session_row (b\<lparr>exercises_tbl := t\<rparr>) u d = session_row b u d"
  by (simp_all add: session_row_def)

lemma cached_cache_slots [simp]:
  "cached_slots t u' d' (cache_slots now u d xs b) =
     (if u' = u \<and> d' = d then if t < now + seconds 129600 then Some xs else None
      else cached_slots t u' d' b)"
  by (auto simp: cached_slots_def cache_slots_def redis.lookup_put split: if_splits)

lemma cached_other [simp]:
  "cached_slots t u d (put_session_row u' d' row b) = cached_slots t u d b"
  "cached_slots t u d (delete_session_row u' d' b) = cached_slots t u d b"
  "cached_slots t u d (b\<lparr>daily_sessions := x\<rparr>) = cached_slots t u d b"
  "cached_slots t u d (b\<lparr>exercises_tbl := y\<rparr>) = cached_slots t u d b"
  "cached_slots t u d (b\<lparr>redis_store := record_outcome (redis_store b) now m err\<rparr>) = cached_slots t u d b"
  by (simp_all add: cached_slots_def put_session_row_def delete_session_row_def)

text \<open>
  A cached session is the stored one. This is what makes the cache invisible; it holds between
  requests that do not overlap.
\<close>

definition cache_ok :: "backend \<Rightarrow> bool" where
  "cache_ok b \<longleftrightarrow>
     (\<forall>t u d xs. cached_slots t u d b = Some xs \<longrightarrow>
        (\<exists>row. session_row b u d = Some row \<and> exercise_list row = xs \<and> xs \<noteq> []))"

lemma build_cases:
  assumes "build_and_persist_session E now usr today b = Inr (slots, b')"
  obtains (won) row where "session_row b (user_id usr) today = Some row" "exercise_list row = slots"
      "slots \<noteq> []" "b' = b"
  | (empty) "session_row b (user_id usr) today = None" "slots = []"
      "sample_session_slots E now usr today b = Inr []"
      "b' = b\<lparr>redis_store := record_outcome (redis_store b) now ''session_build'' True\<rparr>"
  | (built) "session_row b (user_id usr) today = None" "slots \<noteq> []"
      "sample_session_slots E now usr today b = Inr slots"
      "b' = put_session_row (user_id usr) today \<lparr>exercise_list = slots, completed_at = None\<rparr>
         (b\<lparr>redis_store := record_outcome (redis_store b) now ''session_build'' False\<rparr>)"
  using assms unfolding build_and_persist_session_def
  by (auto split: option.splits sum.splits list.splits if_splits)

end
