(* ===== verification/Sessions_Props.thy ===== *)
theory Sessions_Props
  imports Sessions
begin

text \<open>The properties of the daily session.\<close>

section \<open>The invariant\<close>

lemma cache_ok_cong:
  assumes "\<And>t u d. cached_slots t u d b2 = cached_slots t u d b1"
    and "\<And>u d. session_row b2 u d = session_row b1 u d"
  shows "cache_ok b2 = cache_ok b1"
  by (simp add: cache_ok_def assms)

lemma cache_okD:
  "cache_ok b \<Longrightarrow> cached_slots t u d b = Some xs \<Longrightarrow>
     \<exists>row. session_row b u d = Some row \<and> exercise_list row = xs \<and> xs \<noteq> []"
  unfolding cache_ok_def by blast

lemma cache_ok_cache_slots:
  assumes "cache_ok b" and "session_row b u d = Some row" and "exercise_list row = xs" and "xs \<noteq> []"
  shows "cache_ok (cache_slots now u d xs b)"
  using assms by (auto simp: cache_ok_def split: if_splits)

lemma cache_ok_build:
  assumes "build_and_persist_session E now usr today b = Inr (slots, b')" and "cache_ok b"
  shows "cache_ok b'" "slots \<noteq> [] \<Longrightarrow> \<exists>row. session_row b' (user_id usr) today = Some row \<and>
      exercise_list row = slots"
    "u \<noteq> user_id usr \<or> d \<noteq> today \<Longrightarrow> session_row b' u d = session_row b u d"
proof -
  have fresh: "cached_slots t u d b \<noteq> Some xs" if "session_row b u d = None" for t u d xs
    using assms(2) that unfolding cache_ok_def by (metis option.distinct(1))
  show "cache_ok b'" using assms(1)
  proof (cases rule: build_cases)
    case empty
    then show ?thesis using assms(2) by (simp add: cache_ok_def)
  next
    case built
    then show ?thesis using assms(2) fresh by (auto simp: cache_ok_def)
  qed (use assms(2) in simp)
  show "\<exists>row. session_row b' (user_id usr) today = Some row \<and> exercise_list row = slots" if "slots \<noteq> []"
    using assms(1) that by (cases rule: build_cases) auto
  show "session_row b' u d = session_row b u d" if "u \<noteq> user_id usr \<or> d \<noteq> today"
    using assms(1) that by (cases rule: build_cases) auto
qed

lemma get_today_cases:
  assumes "get_today_slots E now usr b = Inr ((today, xs), b')"
  obtains (cached) "today = local_date_for (zone_off E) (timezone usr) now"
      "cached_slots now (user_id usr) today b = Some xs" "b' = b"
  | (stored) row where "today = local_date_for (zone_off E) (timezone usr) now"
      "cached_slots now (user_id usr) today b = None" "session_row b (user_id usr) today = Some row"
      "exercise_list row = xs" "xs \<noteq> []" "b' = cache_slots now (user_id usr) today xs b"
  | (built) b0 b1 where "today = local_date_for (zone_off E) (timezone usr) now"
      "cached_slots now (user_id usr) today b = None"
      "b0 = b \<or> b0 = delete_session_row (user_id usr) today b"
      "\<forall>row. session_row b (user_id usr) today = Some row \<longrightarrow> exercise_list row = []"
      "session_row b0 (user_id usr) today = None"
      "build_and_persist_session E now usr today b0 = Inr (xs, b1)"
      "xs \<noteq> [] \<longrightarrow> b' = cache_slots now (user_id usr) today xs b1"
      "xs = [] \<longrightarrow> b' = b1 \<or> b' = b1\<lparr>daily_sessions := daily_sessions b\<rparr>"
proof -
  let ?d = "local_date_for (zone_off E) (timezone usr) now" and ?u = "user_id usr"
  have d: "today = ?d"
    using assms by (auto simp: get_today_slots_def build_and_cache_def Let_def split: option.splits if_splits sum.splits)
  have build: "\<exists>b1. build_and_persist_session E now usr today b0 = Inr (xs, b1) \<and>
      (xs \<noteq> [] \<longrightarrow> b' = cache_slots now ?u today xs b1) \<and> (xs = [] \<longrightarrow> b' = restore b1)"
    if "build_and_cache E now usr today restore b0 = Inr ((today, xs), b')" for b0 restore
    using that by (auto simp: build_and_cache_def split: sum.splits if_splits)
  show ?thesis
  proof (cases "cached_slots now ?u ?d b")
    case (Some ys)
    then have "ys = xs" "b' = b" using assms by (simp_all add: get_today_slots_def Let_def)
    with Some d show ?thesis by (intro cached) simp_all
  next
    case None
    show ?thesis
    proof (cases "session_row b ?u ?d")
      case no_row: None
      then have "build_and_cache E now usr today id b = Inr ((today, xs), b')"
        using None assms d by (simp add: get_today_slots_def Let_def)
      from build [OF this] obtain b1 where b1: "build_and_persist_session E now usr today b = Inr (xs, b1)"
          "xs \<noteq> [] \<longrightarrow> b' = cache_slots now ?u today xs b1" "xs = [] \<longrightarrow> b' = id b1" by blast
      show ?thesis by (rule built [of b b1, OF d _ _ _ _ b1(1,2)]) (use None no_row d b1(3) in simp_all)
    next
      case (Some row)
      show ?thesis
      proof (cases "exercise_list row = []")
        case True
        then have "build_and_cache E now usr today (\<lambda>b'. b'\<lparr>daily_sessions := daily_sessions b\<rparr>)
            (delete_session_row ?u today b) = Inr ((today, xs), b')"
          using None Some assms d by (simp add: get_today_slots_def Let_def)
        from build [OF this] obtain b1 where
          b1: "build_and_persist_session E now usr today (delete_session_row ?u today b) = Inr (xs, b1)"
          "xs \<noteq> [] \<longrightarrow> b' = cache_slots now ?u today xs b1"
          "xs = [] \<longrightarrow> b' = b1\<lparr>daily_sessions := daily_sessions b\<rparr>" by blast
        show ?thesis
          by (rule built [of "delete_session_row ?u today b" b1, OF d _ _ _ _ b1(1,2)])
             (use None Some True d b1(3) in simp_all)
      next
        case False
        then have "exercise_list row = xs" "b' = cache_slots now ?u ?d xs b"
          using None Some assms by (auto simp: get_today_slots_def Let_def)
        with None Some False d show ?thesis by (intro stored [of row]) simp_all
      qed
    qed
  qed
qed

lemma cache_ok_delete:
  assumes "cache_ok b" and "\<forall>row. session_row b u d = Some row \<longrightarrow> exercise_list row = []"
  shows "cache_ok (delete_session_row u d b)"
  unfolding cache_ok_def
proof (intro allI impI)
  fix t v e xs
  assume "cached_slots t v e (delete_session_row u d b) = Some xs"
  then obtain row where "session_row b v e = Some row" "exercise_list row = xs" "xs \<noteq> []"
    using cache_okD [OF assms(1), of t v e xs] by auto
  with assms(2) show "\<exists>row. session_row (delete_session_row u d b) v e = Some row \<and>
      exercise_list row = xs \<and> xs \<noteq> []"
    by auto
qed

lemma cache_ok_get [preserve]:
  assumes "get_today_slots E now usr b = Inr ((today, xs), b')" and "cache_ok b"
  shows "cache_ok b'" "xs \<noteq> [] \<Longrightarrow> \<exists>row. session_row b' (user_id usr) today = Some row \<and> exercise_list row = xs"
proof -
  have "cache_ok b' \<and> (xs \<noteq> [] \<longrightarrow>
      (\<exists>row. session_row b' (user_id usr) today = Some row \<and> exercise_list row = xs))"
    using assms(1)
  proof (cases rule: get_today_cases)
    case cached
    with assms(2) cache_okD [OF assms(2) cached(2)] show ?thesis by auto
  next
    case (stored row)
    with cache_ok_cache_slots [OF assms(2) stored(3,4,5)] show ?thesis by simp
  next
    case (built b0 b1)
    have ok0: "cache_ok b0" using built(3,4) assms(2) cache_ok_delete by auto
    note B = cache_ok_build [OF built(6) ok0]
    show ?thesis
    proof (cases "xs = []")
      case True
      have "session_row b1 = session_row b0" "cached_slots = cached_slots"
        using built(6) True by (cases rule: build_cases; simp add: fun_eq_iff)+
      show ?thesis
      proof (cases "b' = b1")
        case False
        then have b': "b' = b1\<lparr>daily_sessions := daily_sessions b\<rparr>" using built(8) True by simp
        have row: "session_row b' = session_row b" by (simp add: b' session_row_def fun_eq_iff)
        have "cached_slots t u d b' = cached_slots t u d b" for t u d
          using built(6) True built(3) unfolding b' by (cases rule: build_cases) auto
        with assms(2) True row show ?thesis by (simp add: cache_ok_def)
      qed (use B True in simp)
    next
      case False
      then obtain row where row: "session_row b1 (user_id usr) today = Some row" "exercise_list row = xs"
        using B(2) by blast
      from cache_ok_cache_slots [OF B(1) row False] row False built(7) show ?thesis by simp
    qed
  qed
  then show "cache_ok b'" "xs \<noteq> [] \<Longrightarrow> \<exists>row. session_row b' (user_id usr) today = Some row \<and> exercise_list row = xs"
    by blast+
qed

lemma get_today_stored:
  assumes "cache_ok b" and "session_row b (user_id usr) today = Some row" and "exercise_list row \<noteq> []"
    and "today = local_date_for (zone_off E) (timezone usr) now"
  shows "\<exists>b'. get_today_slots E now usr b = Inr ((today, exercise_list row), b')"
proof (cases "cached_slots now (user_id usr) today b")
  case None
  with assms show ?thesis by (simp add: get_today_slots_def Let_def)
next
  case (Some ys)
  then have "ys = exercise_list row" using cache_okD [OF assms(1) Some] assms(2) by auto
  with Some assms show ?thesis by (simp add: get_today_slots_def Let_def)
qed

section \<open>Purging\<close>

lemma map_of_filter_keys: "map_of (filter (\<lambda>(k, _). k \<notin> A) xs) k = (if k \<in> A then None else map_of xs k)"
  by (induction xs) auto

lemma rget_delete_many:
  "rget (foldl (\<lambda>s (u, d). rdel s (SessionKey u d)) s rows) t (SessionKey u d) =
     (if (u, d) \<in> set rows then None else rget s t (SessionKey u d))"
proof (induction rows arbitrary: s)
  case (Cons r rows)
  then show ?case by (cases r) (simp add: redis.lookup_remove)
qed simp

lemma purge_reads:
  assumes "purge_sessions_referencing now ex b = (n, b')"
  shows "session_row b' u d = (if (u, d) \<in> set (purge_rows now ex b) then None else session_row b u d)"
    "cached_slots t u d b' = (if (u, d) \<in> set (purge_rows now ex b) then None else cached_slots t u d b)"
    "exercises_tbl b' = exercises_tbl b"
  using assms
  by (auto simp: purge_sessions_referencing_def Let_def session_row_def map_of_filter_keys
      cached_slots_def rget_delete_many)

lemma purge_rows_in:
  assumes "session_row b u d = Some row" and "now div us_per_day - 1 \<le> d" and "completed_at row = None"
    and "references ex row"
  shows "(u, d) \<in> set (purge_rows now ex b)"
  using assms map_of_SomeD [of "daily_sessions b" "(u, d)" row]
  unfolding purge_rows_def session_row_def by (force simp: image_iff)

lemma cache_ok_purge [preserve]:
  assumes "purge_sessions_referencing now ex b = (n, b')" and "cache_ok b"
  shows "cache_ok b'"
  unfolding cache_ok_def using cache_okD [OF assms(2)] by (auto simp: purge_reads [OF assms(1)])

lemma cache_ok_exercises [simp]: "cache_ok (b\<lparr>exercises_tbl := tbl\<rparr>) = cache_ok b"
  by (simp add: cache_ok_def)

lemma sampled_are_live:
  assumes "sample_session_slots E now usr today b = Inr slots" and "\<And>xs. set (set_order E xs) = set xs"
    and "s \<in> set slots"
  shows "\<exists>e\<in>set (exercises_current (exercises_tbl b)). ex_id e = slot_exercise_id s \<and>
    ex_version e = slot_version s"
  using assms(1,2) unfolding sample_session_slots_def
proof (cases rule: build_session_slots_cases)
  case (1 sel boss)
  note ok = 1(2) [unfolded selection_ok_def]
  have "\<exists>c\<in>set (fetch_candidates ''python'' (candidate_types E now b) (live_rows b)).
      slot_exercise_id s = cand_id c \<and> slot_version s = cand_version c"
    using assms(3) ok number_slots_regular [of s sel boss] unfolding 1(1) by (cases "is_boss s") auto
  then show ?thesis by (auto simp: fetch_candidates_def live_rows_def)
qed

lemma current_live:
  "e \<in> set (exercises_current tbl) \<Longrightarrow> e \<in> set tbl \<and> ex_status e = Live"
  by (simp add: exercises_current_def)

section \<open>Properties\<close>

definition sample_env :: env where
  "sample_env = \<lparr>settings_of = default_settings, zone_off = (\<lambda>_ _. 0), wall_off = (\<lambda>_ _. 0),
     set_order = id\<rparr>"

definition sample_user :: user where
  "sample_user = \<lparr>user_id = 7, timezone = ''UTC'', level = ''junior''\<rparr>"

definition sample_backend :: backend where
  "sample_backend = \<lparr>streaks = empty_streak_db, concept_states = [], attempts_tbl = [],
     next_attempt_id = 1, daily_sessions = [], exercises_tbl = [sample_row, sample_row\<lparr>ex_id := 2\<rparr>],
     exercise_stats = [], redis_store = Map.empty, retry_counts = []\<rparr>"

definition sample_day_slots :: "session_slot list" where
  "sample_day_slots =
     [\<lparr>slot = 1, slot_exercise_id = 1, slot_version = 1, is_boss = False\<rparr>,
      \<lparr>slot = 2, slot_exercise_id = 2, slot_version = 1, is_boss = False\<rparr>]"

lemma sample_build:
  "sample_session_slots sample_env 0 sample_user 0 sample_backend = Inr sample_day_slots"
  by code_simp

lemma sample_cache_ok: "cache_ok sample_backend"
  by (simp add: cache_ok_def cached_slots_def sample_backend_def rget_def)


lemma sample_first_request:
  "\<exists>b1. get_today_slots sample_env 0 sample_user sample_backend = Inr ((0, sample_day_slots), b1)"
proof -
  have d: "local_date_for (zone_off sample_env) (timezone sample_user) 0 = 0"
    by (simp add: local_date_for_def sample_env_def us_per_day_def)
  have n: "session_row sample_backend u e = None" "cached_slots t u e sample_backend = None" for t u e
    by (simp_all add: session_row_def cached_slots_def sample_backend_def rget_def)
  obtain y ys where cons: "sample_day_slots = y # ys" by (simp add: sample_day_slots_def)
  show ?thesis
    by (simp add: get_today_slots_def d n build_and_cache_def build_and_persist_session_def sample_build
        Let_def cons)
qed


text \<open>
  Two first requests of the day that race to the lock agree. The one that gets the lock second
  returns the slots the first one stored and writes nothing, whatever it would have sampled itself;
  and at most one row for the user and day is ever inserted.
\<close>

theorem concurrent_builds_agree:
  assumes "build_and_persist_session E1 now1 usr1 today b = Inr (xs, b1)" and "xs \<noteq> []"
    and "user_id usr2 = user_id usr1"
  shows "build_and_persist_session E2 now2 usr2 today b1 = Inr (xs, b1)"
proof -
  obtain row where "session_row b1 (user_id usr1) today = Some row" "exercise_list row = xs"
    using assms(1,2) by (cases rule: build_cases) auto
  with assms(2,3) show ?thesis by (simp add: build_and_persist_session_def)
qed

theorem concurrent_builds_agree_witness:
  "\<exists>b1. build_and_persist_session sample_env 9 sample_user 0 b1 = Inr (sample_day_slots, b1)"
proof -
  have "session_row sample_backend u e = None" for u e by (simp add: session_row_def sample_backend_def)
  then obtain b1 where b1: "build_and_persist_session sample_env 0 sample_user 0 sample_backend =
      Inr (sample_day_slots, b1)"
    by (simp add: build_and_persist_session_def sample_build sample_day_slots_def)
  from concurrent_builds_agree [OF b1, of sample_user sample_env 9] show ?thesis
    by (auto simp: sample_day_slots_def)
qed


lemma sample_pull:
  "(case pull_exercise 0 1 1 sample_backend of
      Inl e \<Rightarrow> None
    | Inr (n, b) \<Rightarrow> Some (map_sum id fst (get_today_slots sample_env 3 sample_user b))) =
   Some (Inr (0, [\<lparr>slot = 1, slot_exercise_id = 2, slot_version = 1, is_boss = False\<rparr>]))"
  by code_simp


text \<open>
  The purge does not protect against a request that overlaps it: one that has read the row before
  the purge and writes the cache after it puts the purged session back, for as long as the cache
  entry lives.
\<close>

lemma overlapping_get_recaches_purged:
  assumes "pull_exercise now i v b = Inr (n, b')" and "session_row b (user_id usr) d = Some row"
    and "exercise_list row \<noteq> []" and "local_date_for (zone_off E) (timezone usr) now2 = d"
    and "now2 < now1 + seconds 129600"
  shows "get_today_slots E now2 usr (cache_slots now1 (user_id usr) d (exercise_list row) b') =
    Inr ((d, exercise_list row), cache_slots now1 (user_id usr) d (exercise_list row) b')"
  using assms by (simp add: get_today_slots_def Let_def)

end
