(* ===== verification/Attempts.thy ===== *)
theory Attempts
  imports Sessions_Props Rubric
begin

text \<open>
  Submitting an answer, \<open>attempts/service.py\<close>. A request is a sequence of steps on the shared
  backend: admission (rate limit, replay, reservation), polling for the winner of a reservation,
  finding the exercise in the session, the transaction under the advisory lock of the user and day,
  storing the response for replay, releasing the reservation. \<open>advance\<close> is one such step; between two
  steps of a request any other request may take steps. The transaction is one step because the lock
  serialises it against every other submit of that user and day.
\<close>

section \<open>Requests and responses\<close>

record attempt_request =
  rq_exercise_id :: nat
  rq_version :: nat
  rq_answer :: jobj
  rq_time_taken_ms :: "int option"

record session_progress =
  sp_completed :: bool
  sp_remaining :: nat
  sp_first_completed :: bool

record attempt_response =
  ar_attempt_id :: nat
  ar_status :: attempt_status
  ar_correct :: "bool option"
  ar_reveal :: "reveal option"
  ar_score :: "rat option"
  ar_grader_output :: "(string list \<times> string list \<times> string) option"
  ar_percentile :: "(rat \<times> int) option"
  ar_streak :: "streak_info option"
  ar_session :: session_progress

text \<open>\<open>model_dump(mode="json")\<close> of the response model.\<close>

fun status_name :: "attempt_status \<Rightarrow> string" where
  "status_name StGraded = ''graded''"
| "status_name StPending = ''grading_pending''"
| "status_name StFailed = ''grading_failed''"
| "status_name StSkipped = ''skipped''"

definition opt_json :: "('a \<Rightarrow> json) \<Rightarrow> 'a option \<Rightarrow> json" where
  "opt_json f v = (case v of None \<Rightarrow> JNull | Some x \<Rightarrow> f x)"

fun reveal_json :: "reveal \<Rightarrow> json" where
  "reveal_json (STBReveal lines reason s p notes) =
     JObj [(''correct_lines'', JArr lines), (''correct_reason_id'', reason),
           (''explanation'', JObj [(''summary'', s), (''principle'', p), (''line_notes'', JArr notes)])]"
| "reveal_json (TraceReveal choice s p table wrong) =
     JObj [(''correct_choice_id'', choice),
           (''explanation'', JObj [(''summary'', s), (''principle'', p), (''trace_table'', JArr table),
                                   (''why_wrong'', JArr wrong)])]"
| "reveal_json (PredictTheFixReveal choice s p wrong) =
     JObj [(''correct_choice_id'', choice),
           (''explanation'', JObj [(''summary'', s), (''principle'', p), (''why_wrong'', JArr wrong)])]"
| "reveal_json (SummarizeReveal s p) =
     JObj [(''explanation'', JObj [(''summary'', s), (''principle'', p)])]"

definition strs_json :: "string list \<Rightarrow> json" where
  "strs_json xs = JArr (map JStr xs)"

definition response_json :: "attempt_response \<Rightarrow> json" where
  "response_json a = JObj
     [(''attempt_id'', JInt (int (ar_attempt_id a))),
      (''status'', JStr (status_name (ar_status a))),
      (''is_correct'', opt_json JBool (ar_correct a)),
      (''reveal'', opt_json reveal_json (ar_reveal a)),
      (''score'', opt_json JFloat (ar_score a)),
      (''grader_output'', opt_json (\<lambda>(h, m, r).
         JObj [(''rubric_hits'', strs_json h), (''rubric_misses'', strs_json m),
               (''reference_answer'', JStr r)]) (ar_grader_output a)),
      (''percentile'', opt_json (\<lambda>(s, n). JObj [(''solve_rate'', JFloat s), (''n'', JInt n)])
         (ar_percentile a)),
      (''streak'', opt_json (\<lambda>i. JObj [(''current'', JInt (si_current i)),
         (''event'', JStr (if si_event i = Extended then ''extended'' else ''reset''))]) (ar_streak a)),
      (''session'', JObj [(''completed'', JBool (sp_completed (ar_session a))),
         (''remaining'', JInt (int (sp_remaining (ar_session a)))),
         (''first_completed_session'', JBool (sp_first_completed (ar_session a)))])]"

text \<open>
  What a request needs from outside: the digest of \<open>request_hash\<close>, \<open>json.loads\<close>, and the outcome of
  the grader's calls for an exercise and an answer.
\<close>

record request_env =
  base_env :: env
  request_hash :: "attempt_request \<Rightarrow> string"
  json_loads :: "string \<Rightarrow> json option"
  grader_calls :: "instant \<Rightarrow> exercise \<Rightarrow> string \<Rightarrow> nat \<Rightarrow> grader_call"

record request =
  r_user :: user
  r_key :: string
  r_payload :: attempt_request

section \<open>The rubric of an exercise\<close>

definition obj_of :: "json \<Rightarrow> jobj result" where
  "obj_of v = (case v of JObj kvs \<Rightarrow> Inr kvs | _ \<Rightarrow> Inl TypeError)"

definition str_of :: "json \<Rightarrow> string result" where
  "str_of v = (case v of JStr s \<Rightarrow> Inr s | _ \<Rightarrow> Inl TypeError)"

fun pynum_of :: "json \<Rightarrow> pynum result" where
  "pynum_of (JInt n) = Inr (PInt n)"
| "pynum_of (JBool b) = Inr (PInt (if b then 1 else 0))"
| "pynum_of (JFloat x) = Inr (PFloat x)"
| "pynum_of _ = Inl TypeError"

definition bind_result :: "'a result \<Rightarrow> ('a \<Rightarrow> 'b result) \<Rightarrow> 'b result" where
  "bind_result r f = (case r of Inl e \<Rightarrow> Inl e | Inr x \<Rightarrow> f x)"

fun map_result :: "('a \<Rightarrow> 'b result) \<Rightarrow> 'a list \<Rightarrow> 'b list result" where
  "map_result f [] = Inr []"
| "map_result f (x # xs) = bind_result (f x) (\<lambda>y. bind_result (map_result f xs) (\<lambda>ys. Inr (y # ys)))"

definition mention_of :: "json \<Rightarrow> (string \<times> pynum) result" where
  "mention_of v =
     bind_result (obj_of v) (\<lambda>kvs.
     bind_result (bind_result (item kvs ''point'') str_of) (\<lambda>p.
     bind_result (bind_result (item kvs ''weight'') pynum_of) (\<lambda>w. Inr (p, w))))"

text \<open>
  The fields of \<open>grading["rubric"]\<close> the grading reads. The rows hold complete rubrics; one without a
  field raises here for all of them.
\<close>

definition rubric_of :: "exercise \<Rightarrow> rubric result" where
  "rubric_of ex =
     bind_result (bind_result (item (ex_grading ex) ''rubric'') obj_of) (\<lambda>rb.
     bind_result (bind_result (bind_result (item rb ''must_mention'') list_of) (map_result mention_of)) (\<lambda>ms.
     bind_result (bind_result (list_of (get rb ''must_not_claim'' (JArr []))) (map_result str_of)) (\<lambda>cs.
     bind_result (bind_result (item rb ''pass_threshold'') pynum_of) (\<lambda>t.
     bind_result (bind_result (item (ex_grading ex) ''reference_answer'') str_of) (\<lambda>ref.
     Inr \<lparr>must_mention = ms, must_not_claim = cs, pass_threshold = t, reference_answer = ref\<rparr>)))))"

section \<open>Grading an answer\<close>

text \<open>What grading contributes to the attempt row and the response.\<close>

record verdict =
  v_mode :: string
  v_status :: attempt_status
  v_correct :: "bool option"
  v_score :: "rat option"
  v_output :: "(string list \<times> string list \<times> string) option"
  v_reveal :: "reveal option"
  v_graded_at :: "instant option"

definition check_answer :: "exercise \<Rightarrow> jobj \<Rightarrow> string result" where
  "check_answer ex answer =
     (if ex_type ex \<in> set deterministic_types then
        (case validate_answer_shape (ex_type ex) answer of
           Inl e \<Rightarrow> Inl (if e = shape_error \<or> e = unsupported_type
                         then ApiError 422 ''answer_shape_mismatch'' else e)
         | Inr _ \<Rightarrow> Inr [])
      else if ex_type ex = ''summarize'' then
        (case validate_summarize_answer_shape ex answer of
           Inl e \<Rightarrow> Inl (if e = shape_error then ApiError 422 ''answer_shape_mismatch'' else e)
         | Inr t \<Rightarrow> Inr t)
      else Inl (ApiError 422 ''answer_shape_mismatch''))"

definition deterministic_verdict :: "instant \<Rightarrow> exercise \<Rightarrow> jobj \<Rightarrow> verdict result" where
  "deterministic_verdict now ex answer =
     bind_result (grade_deterministic ex answer) (\<lambda>c.
     bind_result (build_reveal ex) (\<lambda>rev.
     Inr \<lparr>v_mode = ''deterministic'',
          v_status = (if is_skip_answer answer then StSkipped else StGraded),
          v_correct = c, v_score = None, v_output = None, v_reveal = Some rev,
          v_graded_at = Some now\<rparr>))"

definition rubric_verdict :: "instant \<Rightarrow> exercise \<Rightarrow> grading_failure + rubric_result \<Rightarrow> verdict" where
  "rubric_verdict now ex outcome =
     (case outcome of
        Inl f \<Rightarrow> \<lparr>v_mode = ''rubric'',
                  v_status = (case f of GradingInvalidResponse \<Rightarrow> StFailed | GradingTimeout \<Rightarrow> StPending),
                  v_correct = None, v_score = None, v_output = None, v_reveal = None,
                  v_graded_at = None\<rparr>
      | Inr res \<Rightarrow> \<lparr>v_mode = ''rubric'', v_status = StGraded, v_correct = Some (is_correct res),
                  v_score = Some (score res),
                  v_output = Some (rubric_hits res, rubric_misses res, rr_reference_answer res),
                  v_reveal = Some (build_summarize_reveal ex), v_graded_at = Some now\<rparr>)"

definition note_grader_health :: "attempt_status \<Rightarrow> instant \<Rightarrow> rstore \<Rightarrow> rstore" where
  "note_grader_health st now s = (if st = StGraded then mark_success s else mark_failure s now)"

text \<open>The verdict and the store: only rubric grading touches the grader's health signal.\<close>

definition grade_answer ::
    "request_env \<Rightarrow> instant \<Rightarrow> exercise \<Rightarrow> jobj \<Rightarrow> string \<Rightarrow> rstore \<Rightarrow> (verdict \<times> rstore) result" where
  "grade_answer E now ex answer text s =
     (if ex_type ex \<in> set deterministic_types
      then bind_result (deterministic_verdict now ex answer) (\<lambda>v. Inr (v, s))
      else bind_result (rubric_of ex) (\<lambda>rb.
             (let v = rubric_verdict now ex
                        (grade_rubric (json_loads E) (grader_calls E now ex text) rb)
              in Inr (v, note_grader_health (v_status v) now s))))"

section \<open>The transaction\<close>

definition already_attempted :: "backend \<Rightarrow> uid \<Rightarrow> nat \<Rightarrow> date \<Rightarrow> bool" where
  "already_attempted b u ex d \<longleftrightarrow>
     (\<exists>a\<in>set (attempts_tbl b). att_user a = u \<and> att_exercise a = ex \<and> session_date a = d)"

definition insert_attempt :: "attempt \<Rightarrow> backend \<Rightarrow> backend" where
  "insert_attempt a b =
     b\<lparr>attempts_tbl := attempts_tbl b @ [a\<lparr>att_id := next_attempt_id b\<rparr>],
       next_attempt_id := Suc (next_attempt_id b)\<rparr>"

text \<open>
  The updates that need a verdict: a skip touches the concepts only, a pending or failed grade
  nothing.
\<close>

definition apply_verdict ::
    "settings \<Rightarrow> instant \<Rightarrow> uid \<Rightarrow> exercise \<Rightarrow> bool \<Rightarrow> bool option \<Rightarrow> backend \<Rightarrow> backend" where
  "apply_verdict S now u ex is_skip verdict_known b =
     (if is_skip
      then b\<lparr>concept_states := update_concept_state u (ex_concepts ex) Skipped now (concept_states b)\<rparr>
      else
        (case verdict_known of
           None \<Rightarrow> b
         | Some c \<Rightarrow>
             b\<lparr>concept_states := update_concept_state u (ex_concepts ex)
                 (if c then Correct else Incorrect) now (concept_states b),
               streaks := update_correctness_stats S u (ex_type ex) c (streaks b)\<rparr>))"

definition remaining_count :: "backend \<Rightarrow> uid \<Rightarrow> date \<Rightarrow> session_slot list \<Rightarrow> nat" where
  "remaining_count b u d slots =
     (let attempted = map att_exercise (filter (\<lambda>a. att_user a = u \<and> session_date a = d) (attempts_tbl b))
      in length slots - length (filter (\<lambda>s. slot_exercise_id s \<in> set attempted) slots))"

definition completed_sessions :: "backend \<Rightarrow> uid \<Rightarrow> nat" where
  "completed_sessions b u =
     length (filter (\<lambda>((v, _), row). v = u \<and> completed_at row \<noteq> None) (daily_sessions b))"

text \<open>The flag of the response, and the day marked complete when nothing remains.\<close>

definition complete_session :: "instant \<Rightarrow> uid \<Rightarrow> date \<Rightarrow> nat \<Rightarrow> backend \<Rightarrow> bool \<times> backend" where
  "complete_session now u d remaining b =
     (if remaining \<noteq> 0 then (False, b)
      else
        (case session_row b u d of
           Some row \<Rightarrow>
             if completed_at row = None
             then (let b' = put_session_row u d (row\<lparr>completed_at := Some now\<rparr>) b
                   in (completed_sessions b' u = 1, b'))
             else (False, b)
         | None \<Rightarrow> (False, b)))"

definition read_percentile :: "backend \<Rightarrow> nat \<Rightarrow> nat \<Rightarrow> (rat \<times> int) option" where
  "read_percentile b ex v =
     (case map_of (exercise_stats b) (ex, v) of
        None \<Rightarrow> None
      | Some st \<Rightarrow>
          if attempts_count st < 30 then None
          else Some (case solve_rate st of None \<Rightarrow> 0 | Some r \<Rightarrow> r, attempts_count st))"

text \<open>
  Under the lock, from the check for an earlier attempt to the commit. A raise rolls the tables back;
  what was written to Redis stays.
\<close>

definition record_attempt ::
    "request_env \<Rightarrow> instant \<Rightarrow> request \<Rightarrow> date \<Rightarrow> session_slot list \<Rightarrow> exercise \<Rightarrow> verdict \<Rightarrow> backend
       \<Rightarrow> (attempt_response \<times> backend) result" where
  "record_attempt E now r today slots ex v b =
     (let S = settings_of (base_env E); u = user_id (r_user r); q = r_payload r;
          b1 = insert_attempt
                 \<lparr>att_id = 0, att_user = u, att_exercise = ex_id ex, att_version = ex_version ex,
                  session_date = today, att_answer = rq_answer q, att_mode = v_mode v,
                  att_status = v_status v, att_correct = v_correct v, att_score = v_score v,
                  grader_output = v_output v, time_taken_ms = rq_time_taken_ms q,
                  att_created_at = now, graded_at = v_graded_at v\<rparr> b;
          b2 = apply_verdict S now u ex (v_status v = StSkipped) (v_correct v) b1
      in case update_streak_and_attempt_count S now u today (streaks b2) of
           Inl e \<Rightarrow> Inl e
         | Inr (info, db) \<Rightarrow>
             (let b3 = b2\<lparr>streaks := db\<rparr>;
                  remaining = remaining_count b3 u today slots;
                  (first, b4) = complete_session now u today remaining b3
              in Inr (\<lparr>ar_attempt_id = next_attempt_id b, ar_status = v_status v,
                       ar_correct = v_correct v, ar_reveal = v_reveal v, ar_score = v_score v,
                       ar_grader_output = v_output v,
                       ar_percentile = read_percentile b4 (ex_id ex) (ex_version ex),
                       ar_streak = info,
                       ar_session = \<lparr>sp_completed = (remaining = 0), sp_remaining = remaining,
                                     sp_first_completed = first\<rparr>\<rparr>, b4)))"

definition transact ::
    "request_env \<Rightarrow> instant \<Rightarrow> request \<Rightarrow> date \<Rightarrow> session_slot list \<Rightarrow> exercise \<Rightarrow> string \<Rightarrow> backend
       \<Rightarrow> attempt_response result \<times> backend" where
  "transact E now r today slots ex text b =
     (if already_attempted b (user_id (r_user r)) (ex_id ex) today
      then (Inl (ApiError 409 ''already_attempted''), b)
      else
        (case grade_answer E now ex (rq_answer (r_payload r)) text (redis_store b) of
           Inl e \<Rightarrow> (Inl e, b)
         | Inr (v, s) \<Rightarrow>
             (let b1 = b\<lparr>redis_store := s\<rparr> in
              case record_attempt E now r today slots ex v b1 of
                Inl e \<Rightarrow> (Inl e, b1)
              | Inr (resp, b2) \<Rightarrow> (Inr resp, b2))))"

section \<open>The steps of a request\<close>

text \<open>
  An outcome is the error raised, or the status code, the body and whether it is a replay. \<open>bool\<close> is
  whether the request holds the reservation of its key.
\<close>

type_synonym outcome = "(nat \<times> json \<times> bool) result"

datatype phase =
    Arrived
  | Waiting instant
  | Fetching bool
  | Locking bool date "session_slot list" exercise string
  | Storing bool attempt_response
  | Releasing bool outcome
  | Finished outcome

definition replay_or_conflict :: "request_env \<Rightarrow> request \<Rightarrow> idempotency_record \<Rightarrow> phase" where
  "replay_or_conflict E r rec =
     Finished (if ir_request_hash rec \<noteq> request_hash E (r_payload r)
               then Inl (ApiError 409 ''idempotency_conflict'')
               else Inr (ir_status_code rec, ir_body rec, True))"

definition admit :: "request_env \<Rightarrow> instant \<Rightarrow> request \<Rightarrow> backend \<Rightarrow> phase \<times> backend" where
  "admit E now r b =
     (let S = settings_of (base_env E);
          (rl, s1) = check_token_bucket (redis_store b) now (UserBucket ''rl:attempts'' (user_id (r_user r)))
                       (int (RATE_LIMIT_ATTEMPTS_PER_MINUTE S)) 60
      in if \<not> rl_allowed rl
         then (Finished (Inl (ApiError 429 ''rate_limited'')), b\<lparr>redis_store := s1\<rparr>)
         else
           (case get_cached s1 now ''attempts'' (r_key r) of
              Some rec \<Rightarrow> (replay_or_conflict E r rec, b\<lparr>redis_store := s1\<rparr>)
            | None \<Rightarrow>
                (let (reserved, s2) = acquire_reservation s1 now ''attempts'' (r_key r)
                 in (if reserved then Fetching True
                     else Waiting (now + seconds (GRADER_TIMEOUT_S S + 3)),
                     b\<lparr>redis_store := s2\<rparr>))))"

text \<open>One lookup of the polling loop; past the deadline the request goes on without a reservation.\<close>

definition poll :: "request_env \<Rightarrow> instant \<Rightarrow> request \<Rightarrow> instant \<Rightarrow> backend \<Rightarrow> phase" where
  "poll E now r deadline b =
     (case get_cached (redis_store b) now ''attempts'' (r_key r) of
        Some rec \<Rightarrow> replay_or_conflict E r rec
      | None \<Rightarrow> if deadline \<le> now then Fetching False else Waiting deadline)"

definition find_slot :: "attempt_request \<Rightarrow> session_slot list \<Rightarrow> session_slot option" where
  "find_slot q slots =
     find (\<lambda>s. slot_exercise_id s = rq_exercise_id q \<and> slot_version s = rq_version q) slots"

definition fetch :: "request_env \<Rightarrow> instant \<Rightarrow> request \<Rightarrow> bool \<Rightarrow> backend \<Rightarrow> phase \<times> backend" where
  "fetch E now r reserved b =
     (case get_today_slots (base_env E) now (r_user r) b of
        Inl e \<Rightarrow> (Releasing reserved (Inl e), b)
      | Inr ((today, slots), b1) \<Rightarrow>
          (case find_slot (r_payload r) slots of
             None \<Rightarrow> (Releasing reserved (Inl (ApiError 403 ''exercise_not_in_session'')), b1)
           | Some _ \<Rightarrow>
               (case find_exercise (rq_exercise_id (r_payload r)) (rq_version (r_payload r))
                       (exercises_tbl b1) of
                  None \<Rightarrow> (Releasing reserved (Inl (ApiError 404 ''not_found'')), b1)
                | Some ex \<Rightarrow>
                    (case check_answer ex (rq_answer (r_payload r)) of
                       Inl e \<Rightarrow> (Releasing reserved (Inl e), b1)
                     | Inr text \<Rightarrow> (Locking reserved today slots ex text, b1)))))"

definition store_response :: "request_env \<Rightarrow> instant \<Rightarrow> request \<Rightarrow> attempt_response \<Rightarrow> backend \<Rightarrow> backend" where
  "store_response E now r resp b =
     b\<lparr>redis_store := store_idempotency (redis_store b) now ''attempts'' (r_key r)
         (request_hash E (r_payload r)) 200 (response_json resp)\<rparr>"

definition release :: "request \<Rightarrow> bool \<Rightarrow> backend \<Rightarrow> backend" where
  "release r reserved b =
     (if reserved then b\<lparr>redis_store := release_reservation (redis_store b) ''attempts'' (r_key r)\<rparr> else b)"

fun advance :: "request_env \<Rightarrow> instant \<Rightarrow> request \<Rightarrow> phase \<Rightarrow> backend \<Rightarrow> phase \<times> backend" where
  "advance E now r Arrived b = admit E now r b"
| "advance E now r (Waiting deadline) b = (poll E now r deadline b, b)"
| "advance E now r (Fetching reserved) b = fetch E now r reserved b"
| "advance E now r (Locking reserved today slots ex text) b =
     (case transact E now r today slots ex text b of
        (Inl e, b') \<Rightarrow> (Releasing reserved (Inl e), b')
      | (Inr resp, b') \<Rightarrow> (Storing reserved resp, b'))"
| "advance E now r (Storing reserved resp) b =
     (Releasing reserved (Inr (200, response_json resp, False)), store_response E now r resp b)"
| "advance E now r (Releasing reserved out) b = (Finished out, release r reserved b)"
| "advance E now r (Finished out) b = (Finished out, b)"

text \<open>A request alone: its steps at the times given, with nothing in between.\<close>

fun run_request :: "request_env \<Rightarrow> request \<Rightarrow> instant list \<Rightarrow> phase \<Rightarrow> backend \<Rightarrow> phase \<times> backend" where
  "run_request E r [] ph b = (ph, b)"
| "run_request E r (t # ts) ph b = (case advance E t r ph b of (ph', b') \<Rightarrow> run_request E r ts ph' b')"

text \<open>\<open>submit_attempt\<close> without contention: five steps end it.\<close>

definition submit_attempt :: "request_env \<Rightarrow> instant \<Rightarrow> request \<Rightarrow> backend \<Rightarrow> phase \<times> backend" where
  "submit_attempt E now r b = run_request E r (replicate 5 now) Arrived b"

section \<open>Reading an attempt\<close>

definition get_attempt :: "backend \<Rightarrow> uid \<Rightarrow> nat \<Rightarrow> attempt_response option result" where
  "get_attempt b u i =
     (case find (\<lambda>a. att_id a = i \<and> att_user a = u) (attempts_tbl b) of
        None \<Rightarrow> Inr None
      | Some a \<Rightarrow>
          (case find_exercise (att_exercise a) (att_version a) (exercises_tbl b) of
             None \<Rightarrow> Inr None
           | Some ex \<Rightarrow>
               (let row = session_row b u (session_date a);
                    slots = (case row of None \<Rightarrow> [] | Some s \<Rightarrow> exercise_list s);
                    remaining = remaining_count b u (session_date a) slots;
                    completed = (case row of None \<Rightarrow> remaining = 0 | Some s \<Rightarrow> completed_at s \<noteq> None);
                    shown = (att_status a = StGraded \<or> att_status a = StSkipped);
                    det = (ex_type ex \<in> set deterministic_types);
                    rev = (if \<not> shown then Inr None
                           else if det then map_sum id Some (build_reveal ex)
                           else Inr (Some (build_summarize_reveal ex)))
                in bind_result rev (\<lambda>rv. Inr (Some
                     \<lparr>ar_attempt_id = att_id a, ar_status = att_status a, ar_correct = att_correct a,
                      ar_reveal = rv,
                      ar_score = (if shown \<and> \<not> det then att_score a else None),
                      ar_grader_output = (if shown \<and> \<not> det then grader_output a else None),
                      ar_percentile = read_percentile b (ex_id ex) (ex_version ex), ar_streak = None,
                      ar_session = \<lparr>sp_completed = completed, sp_remaining = remaining,
                                    sp_first_completed = False\<rparr>\<rparr>)))))"

end
