(* ===== verification/Attempts_Props.thy ===== *)
theory Attempts_Props
  imports Attempts Streak_Ledger
begin

text \<open>
  What each operation of a submit does to the tables of a learner (\<open>learner_tables\<close>), and that it
  keeps their invariant \<open>learner_inv\<close>.
\<close>

section \<open>The counters of the stats row\<close>

definition att_total :: "streak_db \<Rightarrow> uid \<Rightarrow> int" where
  "att_total db u = (case get_stats_row db u of None \<Rightarrow> 0 | Some s \<Rightarrow> total_attempts s)"

definition cor_total :: "streak_db \<Rightarrow> uid \<Rightarrow> int" where
  "cor_total db u = (case get_stats_row db u of None \<Rightarrow> 0 | Some s \<Rightarrow> total_correct s)"

lemma totals_put [simp]:
  "att_total (put_stats u s db) = (att_total db)(u := total_attempts s)"
  "cor_total (put_stats u s db) = (cor_total db)(u := total_correct s)"
  by (auto simp: att_total_def cor_total_def get_stats_row_def put_stats_def update_conv' fun_eq_iff)

lemma totals_same_rows:
  assumes "stats_tbl db' = stats_tbl db"
  shows "att_total db' = att_total db" "cor_total db' = cor_total db"
  using assms by (simp_all add: att_total_def cor_total_def get_stats_row_def fun_eq_iff)

lemma stats_tbl_events [simp]:
  "stats_tbl (add_event now u k f t d n db) = stats_tbl db"
  "stats_tbl (add_rows now k rows db) = stats_tbl db"
proof -
  show one: "stats_tbl (add_event now u k f t d n db) = stats_tbl db" for u k f t d n db
    by (simp add: add_event_def)
  show "stats_tbl (add_rows now k rows db) = stats_tbl db"
    unfolding add_rows_def by (induction rows arbitrary: db) (auto simp: one split: prod.split)
qed

definition totals_of :: "user_stats \<Rightarrow> int \<times> int" where
  "totals_of s = (total_attempts s, total_correct s)"

lemma try_cover_gap_totals:
  assumes "try_cover_gap S now u s l t db = (ok, s', db')"
  shows "totals_of s' = totals_of s" "stats_tbl db' = stats_tbl db"
  using assms by (cases rule: try_cover_gap_cases; simp add: totals_of_def)+

lemma streak_transition_totals:
  assumes "streak_transition S now u s t db = (k, to, s', db')"
  shows "totals_of s' = totals_of s \<and> stats_tbl db' = stats_tbl db"
proof (cases "last_active_local_date s")
  case None
  with assms show ?thesis by (simp add: streak_transition_def)
next
  case (Some l)
  obtain ok s1 db1 where g: "try_cover_gap S now u s l t db = (ok, s1, db1)" by (metis prod_cases3)
  from try_cover_gap_totals [OF g] Some g assms show ?thesis
    by (auto simp: streak_transition_def split: if_splits)
qed

lemma accrue_totals:
  assumes "accrue_freeze_if_earned S now u s d db = (ok, s', db')"
  shows "totals_of s' = totals_of s" "stats_tbl db' = stats_tbl db"
  using assms unfolding accrue_freeze_if_earned_def Let_def totals_of_def
  by (auto split: if_splits)

lemma record_transition_totals:
  assumes "record_transition S now u d f k to s db = (s', db')"
  shows "totals_of s' = totals_of s \<and> stats_tbl db' = stats_tbl db"
proof (cases "k = Extended")
  case True
  let ?s = "s\<lparr>current_streak := to, longest_streak := max (longest_streak s) to,
                   last_active_local_date := Some d\<rparr>"
  obtain ok where "accrue_freeze_if_earned S now u ?s d (add_event now u k f to d NoNote db) = (ok, s', db')"
    using assms True by (cases "accrue_freeze_if_earned S now u ?s d (add_event now u k f to d NoNote db)")
      (simp add: record_transition_def Let_def)
  from accrue_totals [OF this] show ?thesis by (simp add: totals_of_def)
next
  case False
  with assms show ?thesis by (auto simp: record_transition_def Let_def totals_of_def)
qed

lemma submit_totals:
  assumes "update_streak_and_attempt_count S now u today db = Inr (i, db')"
  shows "att_total db' = (att_total db)(u := att_total db u + 1)" "cor_total db' = cor_total db"
proof -
  have s: "total_attempts (submitted_stats S db u) = att_total db u + 1"
    "total_correct (submitted_stats S db u) = cor_total db u"
    by (auto simp: submitted_stats_def stats_or_new_def att_total_def cor_total_def new_user_stats_def
        split: option.split)
  obtain s' db2 where "db' = put_stats u s' db2" "stats_tbl db2 = stats_tbl db"
    "totals_of s' = totals_of (submitted_stats S db u)"
    using assms
  proof (cases rule: submit_cases)
    case same
    then show ?thesis using that by blast
  next
    case (first k to s1 db1 s3 db3)
    from streak_transition_totals [OF first(2)] record_transition_totals [OF first(5)] that [OF first(6)]
    show ?thesis by simp
  qed
  then show "att_total db' = (att_total db)(u := att_total db u + 1)" "cor_total db' = cor_total db"
    using s totals_same_rows [of db2 db] by (simp_all add: totals_of_def fun_eq_iff)
qed

lemma correctness_totals:
  "att_total (update_correctness_stats S u ty c db) = att_total db"
  "cor_total (update_correctness_stats S u ty c db) =
     (cor_total db)(u := cor_total db u + (if c then 1 else 0))"
  by (auto simp: update_correctness_stats_def Let_def stats_or_new_def new_user_stats_def att_total_def
      cor_total_def get_stats_row_def put_stats_def update_conv' fun_eq_iff split: option.split)

lemma repair_totals:
  assumes "repair_streak S off now u tz db = Inr (v, db')"
  shows "att_total db' = att_total db" "cor_total db' = cor_total db"
  using assms
proof (atomize(full), cases rule: repair_cases)
  case (1 r s)
  have "stats_tbl db' = stats_tbl (put_stats u (s\<lparr>current_streak := v, longest_streak := max (longest_streak s) v\<rparr>) db)"
    by (simp add: 1(5))
  from totals_same_rows [OF this] 1(2) show "att_total db' = att_total db \<and> cor_total db' = cor_total db"
    by (simp add: fun_eq_iff) (simp add: att_total_def cor_total_def)
qed

lemma correctness_inv [preserve]:
  assumes "streak_inv S db" and "freeze_settings_ok S"
  shows "streak_inv S (update_correctness_stats S u ty c db)"
  unfolding update_correctness_stats_def Let_def
proof (rule streak_inv_put)
  let ?s = "stats_or_new S db u"
  have "stats_ok S ?s \<and> current_streak ?s = cur_of db u"
    using assms(2) tbl_ok_get [OF streak_invD(1) [OF assms(1)], of u]
    by (auto simp: stats_or_new_def cur_of_def stats_ok_def freeze_settings_ok_def new_user_stats_def
        split: option.splits)
  then show "stats_ok S (?s\<lparr>total_correct := if c then total_correct ?s + 1 else total_correct ?s,
      accuracy_by_type := bump_accuracy (accuracy_by_type ?s) ty c\<rparr>)"
    "ledger_ok ((cur_of db)(u := current_streak (?s\<lparr>total_correct := if c then total_correct ?s + 1
      else total_correct ?s, accuracy_by_type := bump_accuracy (accuracy_by_type ?s) ty c\<rparr>))) db"
    using streak_invD(2) [OF assms(1)] by (simp_all add: stats_ok_def fun_upd_idem)
qed (use streak_invD [OF assms(1)] in auto)

section \<open>What a step changes\<close>

text \<open>The tables without Redis and the sessions: what only a commit of a submit writes.\<close>

definition learner_tables :: "backend \<Rightarrow> streak_db \<times> concept_tbl \<times> attempt list \<times> nat" where
  "learner_tables b = (streaks b, concept_states b, attempts_tbl b, next_attempt_id b)"

lemma learner_tables_simps [simp]:
  "learner_tables (b\<lparr>redis_store := s\<rparr>) = learner_tables b"
  "learner_tables (b\<lparr>daily_sessions := ds\<rparr>) = learner_tables b"
  "learner_tables (b\<lparr>exercises_tbl := es\<rparr>) = learner_tables b"
  "learner_tables (put_session_row u d row b) = learner_tables b"
  "learner_tables (cache_slots now u d xs b) = learner_tables b"
  "learner_tables (delete_session_row u d b) = learner_tables b"
  by (simp_all add: learner_tables_def put_session_row_def cache_slots_def delete_session_row_def)

lemma build_learner_tables [frame]:
  assumes "build_and_persist_session E now usr d b = Inr (xs, b')"
  shows "learner_tables b' = learner_tables b"
  using assms by (cases rule: build_cases) simp_all

lemma get_today_learner_tables [frame]:
  assumes "get_today_slots E now usr b = Inr ((d, xs), b')"
  shows "learner_tables b' = learner_tables b"
  using assms
proof (cases rule: get_today_cases)
  case (built b0 b1)
  have "learner_tables b1 = learner_tables b0" using build_learner_tables [OF built(6)] .
  with built(3,7,8) show ?thesis by (cases "xs = []") auto
qed simp_all

lemma purge_learner_tables [frame]:
  assumes "purge_sessions_referencing now ex b = (n, b')"
  shows "learner_tables b' = learner_tables b"
  using assms by (auto simp: purge_sessions_referencing_def Let_def)

lemma admit_learner_tables [frame]:
  assumes "admit E now r b = (p, b')"
  shows "learner_tables b' = learner_tables b"
  using assms by (auto simp: admit_def Let_def split: prod.splits if_splits option.splits)

lemma fetch_learner_tables [frame]:
  assumes "fetch E now r h b = (p, b')"
  shows "learner_tables b' = learner_tables b"
proof (cases "get_today_slots (base_env E) now (r_user r) b")
  case (Inl e)
  with assms show ?thesis by (simp add: fetch_def)
next
  case (Inr x)
  obtain d xs b1 where x: "x = ((d, xs), b1)" by (metis prod.collapse)
  have "b' = b1" using assms Inr unfolding x by (auto simp: fetch_def split: option.splits sum.splits)
  with get_today_learner_tables [OF Inr [unfolded x]] show ?thesis by simp
qed

lemma complete_learner_tables [frame]:
  assumes "complete_session now u d n b = (f, b')"
  shows "learner_tables b' = learner_tables b"
  using assms by (auto simp: complete_session_def Let_def split: if_splits option.splits)

text \<open>A commit: the new attempt row, and the counters and tables it moves.\<close>

lemma record_attempt_cases:
  assumes "record_attempt E now r today slots ex v b = Inr (resp, b')"
  obtains a b2 info db where
    "a = \<lparr>att_id = next_attempt_id b, att_user = user_id (r_user r), att_exercise = ex_id ex,
          att_version = ex_version ex, session_date = today, att_answer = rq_answer (r_payload r),
          att_mode = v_mode v, att_status = v_status v, att_correct = v_correct v, att_score = v_score v,
          grader_output = v_output v, time_taken_ms = rq_time_taken_ms (r_payload r),
          att_created_at = now, graded_at = v_graded_at v\<rparr>"
    "b2 = apply_verdict (settings_of (base_env E)) now (user_id (r_user r)) ex (v_status v = StSkipped)
       (v_correct v) (b\<lparr>attempts_tbl := attempts_tbl b @ [a], next_attempt_id := Suc (next_attempt_id b)\<rparr>)"
    "update_streak_and_attempt_count (settings_of (base_env E)) now (user_id (r_user r)) today (streaks b2)
       = Inr (info, db)"
    "complete_session now (user_id (r_user r)) today
       (remaining_count (b2\<lparr>streaks := db\<rparr>) (user_id (r_user r)) today slots) (b2\<lparr>streaks := db\<rparr>) =
       (sp_first_completed (ar_session resp), b')"
    "ar_attempt_id resp = next_attempt_id b" "ar_status resp = v_status v" "ar_correct resp = v_correct v"
    "ar_reveal resp = v_reveal v" "ar_score resp = v_score v" "ar_grader_output resp = v_output v"
    "ar_percentile resp = read_percentile b' (ex_id ex) (ex_version ex)" "ar_streak resp = info"
    "sp_remaining (ar_session resp) =
       remaining_count (b2\<lparr>streaks := db\<rparr>) (user_id (r_user r)) today slots"
    "sp_completed (ar_session resp) = (sp_remaining (ar_session resp) = 0)"
  using assms
  by (auto simp: record_attempt_def insert_attempt_def Let_def split: sum.splits prod.splits)

lemma transact_cases:
  assumes "transact E now r today slots ex text b = (out, b')"
  obtains (dup) "already_attempted b (user_id (r_user r)) (ex_id ex) today"
      "out = Inl (ApiError 409 ''already_attempted'')" "b' = b"
  | (ungraded) e where "\<not> already_attempted b (user_id (r_user r)) (ex_id ex) today" "out = Inl e" "b' = b"
  | (rejected) e v s where "\<not> already_attempted b (user_id (r_user r)) (ex_id ex) today"
      "grade_answer E now ex (rq_answer (r_payload r)) text (redis_store b) = Inr (v, s)"
      "record_attempt E now r today slots ex v (b\<lparr>redis_store := s\<rparr>) = Inl e"
      "out = Inl e" "b' = b\<lparr>redis_store := s\<rparr>"
  | (committed) v s resp where "\<not> already_attempted b (user_id (r_user r)) (ex_id ex) today"
      "grade_answer E now ex (rq_answer (r_payload r)) text (redis_store b) = Inr (v, s)"
      "record_attempt E now r today slots ex v (b\<lparr>redis_store := s\<rparr>) = Inr (resp, b')"
      "out = Inr resp"
proof (cases "already_attempted b (user_id (r_user r)) (ex_id ex) today")
  case True
  have "(out, b') = (Inl (ApiError 409 ''already_attempted''), b)"
    unfolding assms [symmetric] using True by (simp add: transact_def)
  then show ?thesis using dup [OF True] by blast
next
  case fresh: False
  show ?thesis
  proof (cases "grade_answer E now ex (rq_answer (r_payload r)) text (redis_store b)")
    case (Inl e)
    have "(out, b') = (Inl e, b)"
      unfolding assms [symmetric] using fresh Inl by (simp add: transact_def)
    then show ?thesis using ungraded [OF fresh] by blast
  next
    case (Inr x)
    obtain v s where x: "x = (v, s)" by fastforce
    note g = Inr [unfolded x]
    show ?thesis
    proof (cases "record_attempt E now r today slots ex v (b\<lparr>redis_store := s\<rparr>)")
      case (Inl e)
      have "(out, b') = (Inl e, b\<lparr>redis_store := s\<rparr>)"
        unfolding assms [symmetric] using fresh g Inl by (simp add: transact_def)
      then show ?thesis using rejected [OF fresh g Inl] by blast
    next
      case (Inr y)
      obtain resp b1 where y: "y = (resp, b1)" by fastforce
      have "(out, b') = (Inr resp, b1)"
        unfolding assms [symmetric] using fresh g Inr y by (simp add: transact_def)
      then show ?thesis using committed [OF fresh g, of resp] Inr y by blast
    qed
  qed
qed

lemma grade_answer_status:
  assumes "grade_answer E now ex answer text s = Inr (v, s')"
  shows "v_status v = StSkipped \<longrightarrow> v_correct v = None"
    "v_correct v \<noteq> None \<longleftrightarrow> v_status v = StGraded"
proof -
  have det: "v_correct v = None \<longleftrightarrow> is_skip_answer answer"
    if "grade_deterministic ex answer = Inr (v_correct v)"
    using that unfolding grade_deterministic_def
    by (cases "is_skip_answer answer"; cases "v_correct v")
       (auto simp: map_sum_def split: if_splits sum.splits)
  show "v_status v = StSkipped \<longrightarrow> v_correct v = None" "v_correct v \<noteq> None \<longleftrightarrow> v_status v = StGraded"
    using assms det
    by (auto simp: grade_answer_def deterministic_verdict_def bind_result_def rubric_verdict_def Let_def
        split: if_splits sum.splits grading_failure.splits)
qed

section \<open>The invariant of the learner tables\<close>

definition attempt_key :: "attempt \<Rightarrow> uid \<times> nat \<times> date" where
  "attempt_key a = (att_user a, att_exercise a, session_date a)"

definition count_of :: "uid \<Rightarrow> (attempt \<Rightarrow> bool) \<Rightarrow> attempt list \<Rightarrow> int" where
  "count_of u P xs = int (length (filter (\<lambda>a. att_user a = u \<and> P a) xs))"

lemma count_of_append [simp]:
  "count_of u P (xs @ [a]) = count_of u P xs + (if att_user a = u \<and> P a then 1 else 0)"
  by (simp add: count_of_def)

definition attempts_ok :: "backend \<Rightarrow> bool" where
  "attempts_ok b \<longleftrightarrow>
     distinct (map attempt_key (attempts_tbl b)) \<and> distinct (map att_id (attempts_tbl b)) \<and>
     (\<forall>a\<in>set (attempts_tbl b). att_id a < next_attempt_id b) \<and>
     (\<forall>a\<in>set (attempts_tbl b). att_correct a \<noteq> None \<longleftrightarrow> att_status a = StGraded)"

definition counters_ok :: "backend \<Rightarrow> bool" where
  "counters_ok b \<longleftrightarrow>
     (\<forall>u. att_total (streaks b) u = count_of u (\<lambda>_. True) (attempts_tbl b) \<and>
          cor_total (streaks b) u = count_of u (\<lambda>a. att_correct a = Some True) (attempts_tbl b))"

definition learner_inv :: "settings \<Rightarrow> backend \<Rightarrow> bool" where
  "learner_inv S b \<longleftrightarrow>
     streak_inv S (streaks b) \<and> concept_tbl_ok (concept_states b) \<and> attempts_ok b \<and> counters_ok b"

lemma learner_inv_frame:
  assumes "learner_tables b' = learner_tables b" and "learner_inv S b"
  shows "learner_inv S b'"
  using assms by (simp add: learner_tables_def learner_inv_def attempts_ok_def counters_ok_def)

text \<open>What a verdict does to the tables, before the streak is moved.\<close>

lemma apply_verdict_tables [simp]:
  "attempts_tbl (apply_verdict S now u ex sk c b) = attempts_tbl b"
  "next_attempt_id (apply_verdict S now u ex sk c b) = next_attempt_id b"
  "daily_sessions (apply_verdict S now u ex sk c b) = daily_sessions b"
  "exercises_tbl (apply_verdict S now u ex sk c b) = exercises_tbl b"
  "exercise_stats (apply_verdict S now u ex sk c b) = exercise_stats b"
  "redis_store (apply_verdict S now u ex sk c b) = redis_store b"
  by (auto simp: apply_verdict_def split: option.split)

lemma apply_verdict_concepts:
  "concept_tbl_ok (concept_states b) \<Longrightarrow> concept_tbl_ok (concept_states (apply_verdict S now u ex sk c b))"
  by (auto simp: apply_verdict_def intro: update_concept_state_ok split: option.split)

lemma apply_verdict_streaks:
  assumes "sk \<longrightarrow> c = None"
  shows "att_total (streaks (apply_verdict S now u ex sk c b)) = att_total (streaks b)"
    "cor_total (streaks (apply_verdict S now u ex sk c b)) =
       (cor_total (streaks b))(u := cor_total (streaks b) u + (if c = Some True then 1 else 0))"
    "streak_inv S (streaks b) \<Longrightarrow> freeze_settings_ok S \<Longrightarrow>
       streak_inv S (streaks (apply_verdict S now u ex sk c b))"
  using assms by (auto simp: apply_verdict_def correctness_totals fun_eq_iff intro: correctness_inv
      split: option.split)

lemma record_attempt_tables:
  assumes "record_attempt E now r today slots ex v b = Inr (resp, b')"
    and "v_status v = StSkipped \<longrightarrow> v_correct v = None"
  obtains a where "attempts_tbl b' = attempts_tbl b @ [a]" "next_attempt_id b' = Suc (next_attempt_id b)"
    "att_id a = next_attempt_id b" "ar_attempt_id resp = next_attempt_id b"
    "attempt_key a = (user_id (r_user r), ex_id ex, today)" "att_status a = v_status v"
    "att_correct a = v_correct v"
    "att_total (streaks b') = (att_total (streaks b))
       (user_id (r_user r) := att_total (streaks b) (user_id (r_user r)) + 1)"
    "cor_total (streaks b') = (cor_total (streaks b))
       (user_id (r_user r) := cor_total (streaks b) (user_id (r_user r)) +
          (if v_correct v = Some True then 1 else 0))"
    "concept_tbl_ok (concept_states b) \<Longrightarrow> concept_tbl_ok (concept_states b')"
    "streak_inv (settings_of (base_env E)) (streaks b) \<Longrightarrow> freeze_settings_ok (settings_of (base_env E)) \<Longrightarrow>
       streak_inv (settings_of (base_env E)) (streaks b')"
  using assms(1)
proof (cases rule: record_attempt_cases)
  case (1 a b2 info db)
  let ?S = "settings_of (base_env E)" and ?u = "user_id (r_user r)"
  have t: "learner_tables b' = learner_tables (b2\<lparr>streaks := db\<rparr>)"
    using complete_learner_tables [OF 1(4)] .
  note b' = t [unfolded learner_tables_def, simplified]
  note sub = submit_totals [OF 1(3)]
  note v = apply_verdict_streaks [OF assms(2), where S = ?S and now = now and u = ?u and ex = ex and
      b = "b\<lparr>attempts_tbl := attempts_tbl b @ [a], next_attempt_id := Suc (next_attempt_id b)\<rparr>", folded 1(2), simplified]
  show ?thesis
  proof (rule that [of a])
    show "attempts_tbl b' = attempts_tbl b @ [a]" "next_attempt_id b' = Suc (next_attempt_id b)"
      using b' by (simp_all add: 1(2))
    show "att_total (streaks b') = (att_total (streaks b))(?u := att_total (streaks b) ?u + 1)"
      using b' sub(1) v(1) by simp
    show "cor_total (streaks b') = (cor_total (streaks b))
        (?u := cor_total (streaks b) ?u + (if v_correct v = Some True then 1 else 0))"
      using b' sub(2) v(2) by simp
    show "concept_tbl_ok (concept_states b')" if "concept_tbl_ok (concept_states b)"
      using b' that by (simp add: 1(2) apply_verdict_concepts)
    show "streak_inv ?S (streaks b')" if "streak_inv ?S (streaks b)" "freeze_settings_ok ?S"
      using submit_inv [OF v(3) that(2) 1(3)] that b' by simp
  qed (simp_all add: 1(1,5) attempt_key_def)
qed

lemma transact_inv [preserve]:
  assumes "transact E now r today slots ex text b = (out, b')"
    and "learner_inv (settings_of (base_env E)) b" and "freeze_settings_ok (settings_of (base_env E))"
  shows "learner_inv (settings_of (base_env E)) b'"
  using assms(1)
proof (cases rule: transact_cases)
  case (committed v s resp)
  note st = grade_answer_status [OF committed(2)]
  show ?thesis
  proof (rule record_attempt_tables [OF committed(3) st(1)])
    fix a assume *: "attempts_tbl b' = attempts_tbl (b\<lparr>redis_store := s\<rparr>) @ [a]"
      "next_attempt_id b' = Suc (next_attempt_id (b\<lparr>redis_store := s\<rparr>))"
      "att_id a = next_attempt_id (b\<lparr>redis_store := s\<rparr>)"
      "attempt_key a = (user_id (r_user r), ex_id ex, today)" "att_status a = v_status v"
      "att_correct a = v_correct v"
      "att_total (streaks b') = (att_total (streaks (b\<lparr>redis_store := s\<rparr>)))
         (user_id (r_user r) := att_total (streaks (b\<lparr>redis_store := s\<rparr>)) (user_id (r_user r)) + 1)"
      "cor_total (streaks b') = (cor_total (streaks (b\<lparr>redis_store := s\<rparr>)))
         (user_id (r_user r) := cor_total (streaks (b\<lparr>redis_store := s\<rparr>)) (user_id (r_user r)) +
            (if v_correct v = Some True then 1 else 0))"
      "concept_tbl_ok (concept_states (b\<lparr>redis_store := s\<rparr>)) \<Longrightarrow> concept_tbl_ok (concept_states b')"
      "streak_inv (settings_of (base_env E)) (streaks (b\<lparr>redis_store := s\<rparr>)) \<Longrightarrow>
         freeze_settings_ok (settings_of (base_env E)) \<Longrightarrow> streak_inv (settings_of (base_env E)) (streaks b')"
    have I: "streak_inv (settings_of (base_env E)) (streaks b)" "concept_tbl_ok (concept_states b)"
      "attempts_ok b" "counters_ok b" using assms(2) by (simp_all add: learner_inv_def)
    have "attempt_key a \<notin> attempt_key ` set (attempts_tbl b)"
      unfolding *(4) using committed(1) by (auto simp: already_attempted_def attempt_key_def)
    then have "attempts_ok b'" using I(3) *(1-3,5,6) st(2) by (auto simp: attempts_ok_def)
    moreover have "att_user a = user_id (r_user r)" using *(4) by (simp add: attempt_key_def)
    then have "counters_ok b'" using I(4) *(1,6,7,8) by (simp add: counters_ok_def)
    ultimately show ?thesis using I *(9,10) assms(3) by (simp add: learner_inv_def)
  qed
qed (use assms(2) learner_inv_frame [of b' b] in simp_all)

lemma advance_inv [preserve]:
  assumes "advance E now r ph b = (ph', b')"
    and "learner_inv (settings_of (base_env E)) b" and "freeze_settings_ok (settings_of (base_env E))"
  shows "learner_inv (settings_of (base_env E)) b'"
proof (cases "\<exists>h today slots ex text. ph = Locking h today slots ex text")
  case True
  then obtain h today slots ex ans where ph: "ph = Locking h today slots ex ans" by blast
  obtain out b1 where t: "transact E now r today slots ex ans b = (out, b1)" by fastforce
  with assms(1) ph have "b' = b1" by (auto split: sum.splits)
  with transact_inv [OF t assms(2,3)] show ?thesis by simp
next
  case False
  with assms(1) have "learner_tables b' = learner_tables b"
    by (cases ph) (auto simp: store_response_def release_def dest: admit_learner_tables fetch_learner_tables)
  then show ?thesis using assms(2) by (rule learner_inv_frame)
qed

end
