(* ===== verification/Grading_Jobs.thy ===== *)
theory Grading_Jobs
  imports Attempts
begin

text \<open>
  The two jobs over the attempts: the retry of grades that are pending
  (\<open>jobs/grading_retry.py\<close>) and the statistics of the exercises (\<open>jobs/percentiles.py\<close>). The
  order of a query without an order is an argument, as are the instants at which an attempt is
  worked on and which users exist.
\<close>

section \<open>Retrying a pending grade\<close>

definition max_retry_attempts :: int where "max_retry_attempts = 3"

record retry_report =
  rr_resolved :: nat
  rr_failed :: nat
  rr_still_pending :: nat

definition no_report :: retry_report where
  "no_report = \<lparr>rr_resolved = 0, rr_failed = 0, rr_still_pending = 0\<rparr>"

definition retry_count :: "nat \<Rightarrow> backend \<Rightarrow> int" where
  "retry_count i b = (case map_of (retry_counts b) i of None \<Rightarrow> 0 | Some n \<Rightarrow> n)"

text \<open>A changed attempt row; \<open>grader_output\<close> loses the count.\<close>

definition settle_attempt :: "nat \<Rightarrow> (attempt \<Rightarrow> attempt) \<Rightarrow> backend \<Rightarrow> backend" where
  "settle_attempt i f b =
     b\<lparr>attempts_tbl := map (\<lambda>a. if att_id a = i then f a else a) (attempts_tbl b),
       retry_counts := filter (\<lambda>(j, _). j \<noteq> i) (retry_counts b)\<rparr>"

definition give_up :: "attempt \<Rightarrow> attempt" where
  "give_up a = a\<lparr>att_status := StFailed, grader_output := None\<rparr>"

definition resolve_as :: "instant \<Rightarrow> rubric_result \<Rightarrow> attempt \<Rightarrow> attempt" where
  "resolve_as now res a =
     a\<lparr>att_status := StGraded, att_correct := Some (is_correct res), att_score := Some (score res),
       grader_output := Some (rubric_hits res, rubric_misses res, rr_reference_answer res),
       graded_at := Some now\<rparr>"

definition mark_failed_grade :: "instant \<Rightarrow> backend \<Rightarrow> backend" where
  "mark_failed_grade now b = b\<lparr>redis_store := mark_failure (redis_store b) now\<rparr>"

definition regrade :: "request_env \<Rightarrow> instant \<Rightarrow> exercise \<Rightarrow> attempt \<Rightarrow> (grading_failure + rubric_result) result" where
  "regrade E now ex a =
     bind_result (str_of (get (att_answer a) ''text'' (JStr []))) (\<lambda>t.
     bind_result (rubric_of ex) (\<lambda>rb. Inr (grade_rubric (json_loads E) (grader_calls E now ex t) rb)))"

definition retry_one ::
    "request_env \<Rightarrow> (uid \<Rightarrow> bool) \<Rightarrow> instant \<Rightarrow> attempt \<Rightarrow> retry_report \<Rightarrow> backend
       \<Rightarrow> retry_report result \<times> backend" where
  "retry_one E known now a rep b =
     (case find_exercise (att_exercise a) (att_version a) (exercises_tbl b) of
        None \<Rightarrow> (Inr rep, b)
      | Some ex \<Rightarrow>
          if \<not> known (att_user a) then (Inr rep, b)
          else
            (case regrade E now ex a of
               Inl e \<Rightarrow> (Inl e, b)
             | Inr (Inl GradingInvalidResponse) \<Rightarrow>
                 (Inr (rep\<lparr>rr_failed := rr_failed rep + 1\<rparr>),
                  mark_failed_grade now (settle_attempt (att_id a) give_up b))
             | Inr (Inl GradingTimeout) \<Rightarrow>
                 (let n = retry_count (att_id a) b + 1 in
                  if max_retry_attempts \<le> n
                  then (Inr (rep\<lparr>rr_failed := rr_failed rep + 1\<rparr>),
                        mark_failed_grade now (settle_attempt (att_id a) give_up b))
                  else (Inr (rep\<lparr>rr_still_pending := rr_still_pending rep + 1\<rparr>),
                        mark_failed_grade now
                          (b\<lparr>retry_counts := (att_id a, n) # filter (\<lambda>(j, _). j \<noteq> att_id a) (retry_counts b)\<rparr>)))
             | Inr (Inr res) \<Rightarrow>
                 (Inr (rep\<lparr>rr_resolved := rr_resolved rep + 1\<rparr>),
                  apply_verdict (settings_of (base_env E)) now (att_user a) ex False (Some (is_correct res))
                    ((settle_attempt (att_id a) (resolve_as now res) b)
                       \<lparr>redis_store := mark_success (redis_store b)\<rparr>))))"

fun retry_all ::
    "request_env \<Rightarrow> (uid \<Rightarrow> bool) \<Rightarrow> (nat \<Rightarrow> instant) \<Rightarrow> attempt list \<Rightarrow> retry_report \<Rightarrow> backend
       \<Rightarrow> retry_report result \<times> backend" where
  "retry_all E known clk [] rep b = (Inr rep, b)"
| "retry_all E known clk (a # as) rep b =
     (case retry_one E known (clk (att_id a)) a rep b of
        (Inl e, b') \<Rightarrow> (Inl e, b')
      | (Inr rep', b') \<Rightarrow> retry_all E known clk as rep' b')"

definition pending_attempts :: "(attempt list \<Rightarrow> attempt list) \<Rightarrow> nat \<Rightarrow> backend \<Rightarrow> attempt list" where
  "pending_attempts order limit b =
     take limit (order (filter (\<lambda>a. att_status a = StPending) (attempts_tbl b)))"

text \<open>A raise rolls the tables back; what was written to Redis stays.\<close>

definition resolve_pending_summarize_grades ::
    "request_env \<Rightarrow> (uid \<Rightarrow> bool) \<Rightarrow> (nat \<Rightarrow> instant) \<Rightarrow> (attempt list \<Rightarrow> attempt list) \<Rightarrow> nat \<Rightarrow> backend
       \<Rightarrow> retry_report result \<times> backend" where
  "resolve_pending_summarize_grades E known clk order limit b =
     (case retry_all E known clk (pending_attempts order limit b) no_report b of
        (Inl e, b') \<Rightarrow> (Inl e, b\<lparr>redis_store := redis_store b'\<rparr>)
      | (Inr rep, b') \<Rightarrow> (Inr rep, b'))"

section \<open>Statistics of the exercises\<close>

text \<open>\<open>DISTINCT ON (user, exercise, version, day)\<close> of the graded rows, the earliest kept.\<close>

definition stat_key :: "attempt \<Rightarrow> uid \<times> nat \<times> nat \<times> date" where
  "stat_key a = (att_user a, att_exercise a, att_version a, session_date a)"

definition earliest :: "attempt list \<Rightarrow> attempt \<Rightarrow> bool" where
  "earliest as a \<longleftrightarrow>
     find (\<lambda>x. stat_key x = stat_key a) (sort_key att_created_at as) = Some a"

definition deduped :: "attempt list \<Rightarrow> attempt list" where
  "deduped as =
     (let graded = filter (\<lambda>a. att_status a = StGraded) as in filter (earliest graded) graded)"

text \<open>
  \<open>percentile_cont(0.5)\<close> of the times that are present, then \<open>int()\<close>: the middle one, or the
  mean of the two middle ones without its fraction.
\<close>

definition truncated_half :: "int \<Rightarrow> int" where
  "truncated_half s = (if 0 \<le> s then s div 2 else - ((- s) div 2))"

definition median :: "int list \<Rightarrow> int option" where
  "median ts =
     (let xs = sort ts; n = length xs in
      if n = 0 then None
      else if odd n then Some (xs ! (n div 2))
      else Some (truncated_half (xs ! (n div 2 - 1) + xs ! (n div 2))))"

text \<open>The quotient in a column of three decimals, which rounds half away from zero.\<close>

definition rate3 :: "int \<Rightarrow> int \<Rightarrow> int" where
  "rate3 c n = (2000 * c + n) div (2 * n)"

definition exercise_stat_of :: "attempt list \<Rightarrow> exercise_stat" where
  "exercise_stat_of rows =
     (let n = int (length rows); c = int (length (filter (\<lambda>a. att_correct a = Some True) rows)) in
      \<lparr>attempts_count = n, correct_count = c,
       solve_rate = (if n = 0 then None else Some (of_int (rate3 c n) / 1000)),
       median_time_ms = median (List.map_filter time_taken_ms rows)\<rparr>)"

definition stat_rows :: "backend \<Rightarrow> ((nat \<times> nat) \<times> exercise_stat) list" where
  "stat_rows b =
     (let ds = deduped (attempts_tbl b) in
      map (\<lambda>k. (k, exercise_stat_of (filter (\<lambda>a. (att_exercise a, att_version a) = k) ds)))
        (remdups (map (\<lambda>a. (att_exercise a, att_version a)) ds)))"

definition min_empirical_n :: int where "min_empirical_n = 30"

text \<open>Hundredths of the difficulty: \<open>1 + 9 (1 - rate)\<close> in two decimals, between 1 and 10.\<close>

definition empirical_difficulty :: "rat \<Rightarrow> int" where
  "empirical_difficulty r = min 1000 (max 100 \<lfloor>(1 + 9 * (1 - r)) * 100 + 1 / 2\<rfloor>)"

definition backfill :: "((nat \<times> nat) \<times> exercise_stat) list \<Rightarrow> exercise \<Rightarrow> exercise" where
  "backfill stats e =
     (case map_of stats (ex_id e, ex_version e) of
        None \<Rightarrow> e
      | Some st \<Rightarrow>
          (case solve_rate st of
             None \<Rightarrow> e
           | Some r \<Rightarrow>
               if min_empirical_n \<le> attempts_count st
               then e\<lparr>ex_difficulty_empirical := Some (empirical_difficulty r)\<rparr> else e))"

definition compute_exercise_stats :: "backend \<Rightarrow> nat \<times> backend" where
  "compute_exercise_stats b =
     (let new = stat_rows b;
          stats = foldl (\<lambda>t (k, st). AList.update k st t) (exercise_stats b) new
      in (length new, b\<lparr>exercise_stats := stats, exercises_tbl := map (backfill stats) (exercises_tbl b)\<rparr>))"

end
