(* ===== verification/Interleaving.thy ===== *)
theory Interleaving
  imports Attempts_Props Grading_Jobs "HOL-Library.Multiset"
begin

text \<open>
  What holds of submits under every interleaving: the step relation \<open>sys_step\<close> lets any number of
  requests, session reads, pulls, repairs, outage fills, changes of timezone and runs of the two
  grading jobs take turns on one backend.
\<close>

section \<open>The retry job\<close>

lemma settle_learner [simp]:
  "learner_tables (settle_attempt i f b) =
     (streaks b, concept_states b, map (\<lambda>a. if att_id a = i then f a else a) (attempts_tbl b), next_attempt_id b)"
  by (simp add: learner_tables_def settle_attempt_def)

lemma settle_tables [simp]:
  "attempts_tbl (settle_attempt i f b) = map (\<lambda>a. if att_id a = i then f a else a) (attempts_tbl b)"
  "streaks (settle_attempt i f b) = streaks b" "concept_states (settle_attempt i f b) = concept_states b"
  "next_attempt_id (settle_attempt i f b) = next_attempt_id b"
  "exercises_tbl (settle_attempt i f b) = exercises_tbl b"
  "retry_counts (settle_attempt i f b) = filter (\<lambda>(j, _). j \<noteq> i) (retry_counts b)"
  by (simp_all add: settle_attempt_def)

lemma mark_failed_grade_tables [simp]:
  "attempts_tbl (mark_failed_grade now b) = attempts_tbl b" "learner_tables (mark_failed_grade now b) = learner_tables b"
  "exercises_tbl (mark_failed_grade now b) = exercises_tbl b" "retry_counts (mark_failed_grade now b) = retry_counts b"
  by (simp_all add: mark_failed_grade_def learner_tables_def)

text \<open>The rewritten row keeps its identity, and its verdict says whether it is graded.\<close>

definition settles :: "(attempt \<Rightarrow> attempt) \<Rightarrow> bool option \<Rightarrow> bool" where
  "settles f v \<longleftrightarrow>
     (\<forall>a. att_id (f a) = att_id a \<and> attempt_key (f a) = attempt_key a \<and> att_user (f a) = att_user a \<and>
          att_version (f a) = att_version a \<and> (att_correct a = None \<longrightarrow> att_correct (f a) = v) \<and>
          att_status (f a) = (if v = None then StFailed else StGraded))"

lemma settles_simps: "settles give_up None" "settles (resolve_as now res) (Some (is_correct res))"
  by (simp_all add: settles_def give_up_def resolve_as_def attempt_key_def)

lemma count_of_settled:
  assumes "distinct (map att_id as)" and "a \<in> set as" and "settles f v" and "att_correct a = None"
  shows "count_of u (\<lambda>x. att_correct x = Some True) (map (\<lambda>x. if att_id x = att_id a then f x else x) as) =
     count_of u (\<lambda>x. att_correct x = Some True) as + (if att_user a = u \<and> v = Some True then 1 else 0)"
  using assms(1,2)
proof (induction as)
  case (Cons x xs)
  have f: "att_user (f a) = att_user a" "att_correct (f a) = v" using assms(3,4) by (simp_all add: settles_def)
  show ?case
  proof (cases "x = a")
    case True
    then have "map (\<lambda>x. if att_id x = att_id a then f x else x) xs = xs"
      using Cons.prems(1) by (intro map_idI) (metis distinct.simps(2) image_eqI list.set_map list.simps(9))
    then show ?thesis using f assms(4) True by (simp add: count_of_def)
  next
    case False
    then show ?thesis using Cons by (auto simp: count_of_def)
  qed
qed simp

lemma count_all_settled:
  assumes "settles f v"
  shows "count_of u (\<lambda>_. True) (map (\<lambda>x. if att_id x = i then f x else x) as) = count_of u (\<lambda>_. True) as"
  using assms by (induction as) (auto simp: count_of_def settles_def)

lemma settle_attempts_ok:
  assumes ok: "attempts_ok b" and a: "a \<in> set (attempts_tbl b)" "att_status a = StPending" and f: "settles f v"
    and b': "attempts_tbl b' = map (\<lambda>x. if att_id x = att_id a then f x else x) (attempts_tbl b)"
      "next_attempt_id b' = next_attempt_id b"
  shows "attempts_ok b'"
proof -
  let ?g = "\<lambda>x. if att_id x = att_id a then f x else x"
  have ids: "map att_id (map ?g (attempts_tbl b)) = map att_id (attempts_tbl b)"
    "map attempt_key (map ?g (attempts_tbl b)) = map attempt_key (attempts_tbl b)"
    using f by (simp_all add: settles_def)
  have "x = a" if "x \<in> set (attempts_tbl b)" "att_id x = att_id a" for x
    using ok a(1) that by (auto simp: attempts_ok_def distinct_map inj_on_def)
  moreover have "att_correct a = None" using ok a by (auto simp: attempts_ok_def)
  then have "att_correct (f a) \<noteq> None \<longleftrightarrow> att_status (f a) = StGraded" using f by (simp add: settles_def)
  ultimately have "\<forall>x\<in>set (map ?g (attempts_tbl b)). att_correct x \<noteq> None \<longleftrightarrow> att_status x = StGraded"
    using ok by (auto simp: attempts_ok_def)
  moreover have "\<forall>x\<in>set (map ?g (attempts_tbl b)). att_id x < next_attempt_id b"
    using ok f by (auto simp: attempts_ok_def settles_def)
  ultimately show ?thesis using ok unfolding attempts_ok_def b' ids by blast
qed

lemma retry_one_cases [consumes 1, case_names unknown raised failed timed_out graded]:
  assumes "retry_one E known now a rep b = (r, b')"
  obtains "r = Inr rep" "b' = b"
      "find_exercise (att_exercise a) (att_version a) (exercises_tbl b) = None \<or> \<not> known (att_user a)"
  | e where "r = Inl e" "b' = b"
  | "r = Inr (rep\<lparr>rr_failed := rr_failed rep + 1\<rparr>)" "b' = mark_failed_grade now (settle_attempt (att_id a) give_up b)"
  | n where "r = Inr (rep\<lparr>rr_still_pending := rr_still_pending rep + 1\<rparr>)"
      "n = retry_count (att_id a) b + 1" "n < max_retry_attempts"
      "b' = mark_failed_grade now (b\<lparr>retry_counts := (att_id a, n) # filter (\<lambda>(j, _). j \<noteq> att_id a) (retry_counts b)\<rparr>)"
  | ex res where "r = Inr (rep\<lparr>rr_resolved := rr_resolved rep + 1\<rparr>)"
      "find_exercise (att_exercise a) (att_version a) (exercises_tbl b) = Some ex"
      "regrade E now ex a = Inr (Inr res)"
      "b' = apply_verdict (settings_of (base_env E)) now (att_user a) ex False (Some (is_correct res))
         ((settle_attempt (att_id a) (resolve_as now res) b)\<lparr>redis_store := mark_success (redis_store b)\<rparr>)"
proof (cases "find_exercise (att_exercise a) (att_version a) (exercises_tbl b)")
  case None
  then show ?thesis using assms that(1) by (simp add: retry_one_def)
next
  case ex: (Some ex)
  show ?thesis
  proof (cases "known (att_user a)")
    case False
    then show ?thesis using assms ex that(1) by (simp add: retry_one_def)
  next
    case known: True
    note run = assms [unfolded retry_one_def ex option.case, simplified known, simplified]
    show ?thesis
    proof (cases "regrade E now ex a")
      case (Inl e)
      then show ?thesis using run by (auto intro: that(2))
    next
      case out: (Inr out)
      show ?thesis
      proof (cases out)
        case (Inr res)
        then show ?thesis using run that(5) [OF _ ex] out by simp
      next
        case (Inl f)
        show ?thesis
        proof (cases f)
          case GradingInvalidResponse
          then show ?thesis using run that(3) out Inl by simp
        next
          case GradingTimeout
          then show ?thesis using run that(3,4) out Inl by (simp add: Let_def not_le split: if_splits)
        qed
      qed
    qed
  qed
qed

lemma retry_one_tables:
  assumes "retry_one E known now a rep b = (r, b')"
  shows "exercises_tbl b' = exercises_tbl b"
    "attempts_tbl b' = attempts_tbl b \<or>
       (\<exists>f v. settles f v \<and> attempts_tbl b' = map (\<lambda>x. if att_id x = att_id a then f x else x) (attempts_tbl b))"
  using assms by (atomize(full), cases rule: retry_one_cases) (use settles_simps in auto)

lemma retry_one_inv [preserve]:
  assumes run: "retry_one E known now a rep b = (r, b')"
    and inv: "learner_inv (settings_of (base_env E)) b" "freeze_settings_ok (settings_of (base_env E))"
    and a: "a \<in> set (attempts_tbl b)" "att_status a = StPending"
  shows "learner_inv (settings_of (base_env E)) b'"
proof -
  let ?S = "settings_of (base_env E)"
  have ok: "attempts_ok b" "counters_ok b" "streak_inv ?S (streaks b)" "concept_tbl_ok (concept_states b)"
    using inv(1) by (simp_all add: learner_inv_def)
  have none: "att_correct a = None" and ids: "distinct (map att_id (attempts_tbl b))"
    using ok(1) a by (auto simp: attempts_ok_def)
  show ?thesis
    using run
  proof (cases rule: retry_one_cases)
    case failed
    have t: "attempts_tbl b' = map (\<lambda>x. if att_id x = att_id a then give_up x else x) (attempts_tbl b)"
      "next_attempt_id b' = next_attempt_id b" "streaks b' = streaks b" "concept_states b' = concept_states b"
      by (simp_all add: failed(2) mark_failed_grade_def)
    show ?thesis
      using settle_attempts_ok [OF ok(1) a settles_simps(1) t(1,2)] ok(2-)
        count_of_settled [OF ids a(1) settles_simps(1) none] count_all_settled [OF settles_simps(1)]
      by (simp add: learner_inv_def counters_ok_def t)
  next
    case (timed_out n)
    then show ?thesis using learner_inv_frame [of b' b, OF _ inv(1)]
      by (simp add: mark_failed_grade_def learner_tables_def)
  next
    case (graded ex res)
    let ?b1 = "(settle_attempt (att_id a) (resolve_as now res) b)\<lparr>redis_store := mark_success (redis_store b)\<rparr>"
    let ?v = "Some (is_correct res)"
    have t: "attempts_tbl b' = map (\<lambda>x. if att_id x = att_id a then resolve_as now res x else x) (attempts_tbl b)"
      "next_attempt_id b' = next_attempt_id b"
      by (simp_all add: graded(4))
    note v = apply_verdict_streaks [where sk = False and c = ?v and S = ?S and now = now and u = "att_user a" and ex = ex
        and b = ?b1, folded graded(4), simplified]
    have "concept_tbl_ok (concept_states b')"
      unfolding graded(4) by (rule apply_verdict_concepts) (simp add: ok(4))
    then show ?thesis
      using settle_attempts_ok [OF ok(1) a settles_simps(2) t] ok(2,3) v inv(2)
        count_of_settled [OF ids a(1) settles_simps(2) none] count_all_settled [OF settles_simps(2)]
      by (simp add: learner_inv_def counters_ok_def t)
  qed (use inv(1) in simp_all)
qed

lemma retry_one_others:
  assumes "retry_one E known now a rep b = (r, b')" and "x \<in> set (attempts_tbl b)" "att_id x \<noteq> att_id a"
  shows "x \<in> set (attempts_tbl b')"
  using retry_one_tables(2) [OF assms(1)] assms(2,3) by force

lemma retry_all_inv [preserve]:
  assumes "retry_all E known clk as rep b = (r, b')" and "learner_inv (settings_of (base_env E)) b"
    and "freeze_settings_ok (settings_of (base_env E))"
    and "set as \<subseteq> {a \<in> set (attempts_tbl b). att_status a = StPending}" "distinct (map att_id as)"
  shows "learner_inv (settings_of (base_env E)) b'"
  using assms(1,2,4,5,3)
proof (induction E known clk as rep b arbitrary: b' rule: retry_all.induct)
  case (2 E known clk a as rep b)
  obtain q b1 where q: "retry_one E known (clk (att_id a)) a rep b = (q, b1)" by fastforce
  have inv: "learner_inv (settings_of (base_env E)) b1"
    using retry_one_inv [OF q 2(3)] 2(4) 2(6) by (simp add: subset_eq)
  show ?case
  proof (cases q)
    case (Inl e)
    then show ?thesis using 2(2) q inv by simp
  next
    case (Inr rep')
    have "set as \<subseteq> {a \<in> set (attempts_tbl b1). att_status a = StPending}"
    proof
      fix x assume x: "x \<in> set as"
      then have "att_id x \<noteq> att_id a" using 2(5) by (metis distinct.simps(2) image_eqI list.set_map list.simps(9))
      then show "x \<in> {a \<in> set (attempts_tbl b1). att_status a = StPending}"
        using retry_one_others [OF q] 2(4) x by auto
    qed
    then show ?thesis using 2(1) [OF q [symmetric] Inr] 2(2,5,6) q Inr inv by simp
  qed
qed simp

lemma pending_picks:
  assumes "\<forall>xs. mset (order xs) = mset xs" and "distinct (map att_id (attempts_tbl b))"
  shows "set (pending_attempts order limit b) \<subseteq> {a \<in> set (attempts_tbl b). att_status a = StPending}"
    "distinct (map att_id (pending_attempts order limit b))"
proof -
  let ?p = "filter (\<lambda>a. att_status a = StPending) (attempts_tbl b)"
  have "mset (order ?p) = mset ?p" using assms(1) by blast
  then have "set (order ?p) = set ?p" and "mset (map att_id (order ?p)) = mset (map att_id ?p)"
    by (metis set_mset_mset) (simp add: \<open>mset (order ?p) = mset ?p\<close>)
  then show "set (pending_attempts order limit b) \<subseteq> {a \<in> set (attempts_tbl b). att_status a = StPending}"
    using set_take_subset [of limit "order ?p"] by (fastforce simp: pending_attempts_def)
  have "distinct (map att_id ?p)" using assms(2) by (simp add: distinct_map_filter)
  then have "distinct (map att_id (order ?p))"
    using \<open>mset (map att_id (order ?p)) = mset (map att_id ?p)\<close> mset_eq_imp_distinct_iff by blast
  then show "distinct (map att_id (pending_attempts order limit b))"
    by (simp add: pending_attempts_def take_map [symmetric])
qed

lemma resolve_pending_inv [preserve]:
  assumes "resolve_pending_summarize_grades E known clk order limit b = (r, b')"
    and "learner_inv (settings_of (base_env E)) b" and "freeze_settings_ok (settings_of (base_env E))"
    and "\<forall>xs. mset (order xs) = mset xs"
  shows "learner_inv (settings_of (base_env E)) b'"
proof -
  obtain q b1 where q: "retry_all E known clk (pending_attempts order limit b) no_report b = (q, b1)" by fastforce
  have "distinct (map att_id (attempts_tbl b))" using assms(2) by (simp add: learner_inv_def attempts_ok_def)
  note picks = pending_picks [OF assms(4) this, of limit]
  have "learner_inv (settings_of (base_env E)) b1" by (rule retry_all_inv [OF q assms(2,3) picks])
  then show ?thesis
    using assms(1,2) q learner_inv_frame [of "b\<lparr>redis_store := s\<rparr>" b for s]
    by (auto simp: resolve_pending_summarize_grades_def split: sum.splits)
qed

lemma compute_stats_learner [simp]:
  "compute_exercise_stats b = (n, b') \<Longrightarrow> learner_tables b' = learner_tables b"
  by (auto simp: compute_exercise_stats_def Let_def learner_tables_def)

section \<open>The whole backend\<close>

text \<open>
  Any number of requests (\<open>reqs\<close>, each with its phase) and the other writers of these tables, in
  any order, each step at some later time. A run of the retry job is one step: it holds no lock, so this
  says what holds when it overlaps no transaction of a user whose attempts it resolves
  (\<open>stale_submit_loses_a_correct_answer\<close> is what can happen otherwise).
\<close>

inductive sys_step ::
    "request_env \<Rightarrow> (nat \<Rightarrow> request) \<Rightarrow> (nat \<Rightarrow> phase) \<times> instant \<times> backend
       \<Rightarrow> (nat \<Rightarrow> phase) \<times> instant \<times> backend \<Rightarrow> bool" for E reqs where
  submit: "now \<le> now' \<Longrightarrow> advance E now' (reqs i) (ph i) b = (p, b') \<Longrightarrow>
     sys_step E reqs (ph, now, b) (ph(i := p), now', b')"
| view: "now \<le> now' \<Longrightarrow> get_today_slots (base_env E) now' usr b = Inr ((d, xs), b') \<Longrightarrow>
     sys_step E reqs (ph, now, b) (ph, now', b')"
| pull: "now \<le> now' \<Longrightarrow> pull_exercise now' i v b = Inr (n, b') \<Longrightarrow>
     sys_step E reqs (ph, now, b) (ph, now', b')"
| edit: "now \<le> now' \<Longrightarrow> ex_step (exercises_tbl b) tbl \<Longrightarrow>
     sys_step E reqs (ph, now, b) (ph, now', b\<lparr>exercises_tbl := tbl\<rparr>)"
| repair: "now \<le> now' \<Longrightarrow>
     repair_streak (settings_of (base_env E)) (zone_off (base_env E)) now' u tz (streaks b) = Inr (x, db) \<Longrightarrow>
     sys_step E reqs (ph, now, b) (ph, now', b\<lparr>streaks := db\<rparr>)"
| outage: "now \<le> now' \<Longrightarrow> outage_freeze now' d (streaks b) = (n, db) \<Longrightarrow>
     sys_step E reqs (ph, now, b) (ph, now', b\<lparr>streaks := db\<rparr>)"
| relocate: "now \<le> now' \<Longrightarrow>
     sys_step E reqs (ph, now, b) (ph, now', b\<lparr>streaks :=
       reconcile_streak_for_timezone_change (zone_off (base_env E)) now' u tz tz' (streaks b)\<rparr>)"
| retry: "now \<le> now' \<Longrightarrow> \<forall>xs. mset (order xs) = mset xs \<Longrightarrow>
     resolve_pending_summarize_grades E known clk order limit b = (rep, b') \<Longrightarrow>
     sys_step E reqs (ph, now, b) (ph, now', b')"
| percentiles: "now \<le> now' \<Longrightarrow> compute_exercise_stats b = (n, b') \<Longrightarrow>
     sys_step E reqs (ph, now, b) (ph, now', b')"
| flush: "now \<le> now' \<Longrightarrow> sys_step E reqs (ph, now, b) (ph, now', b\<lparr>redis_store := Map.empty\<rparr>)"

inductive_cases sys_stepE: "sys_step E reqs (ph, now, b) (ph', now', b')"

lemmas sys_step_cases = sys_stepE
  [consumes 1, case_names submit view pull edit repair outage relocate retry percentiles flush]

inductive sys_reachable ::
    "request_env \<Rightarrow> (nat \<Rightarrow> request) \<Rightarrow> backend \<Rightarrow> (nat \<Rightarrow> phase) \<times> instant \<times> backend \<Rightarrow> bool"
  for E reqs b0 where
  start: "sys_reachable E reqs b0 (\<lambda>_. Arrived, now, b0)"
| step: "sys_reachable E reqs b0 s \<Longrightarrow> sys_step E reqs s s' \<Longrightarrow> sys_reachable E reqs b0 s'"

definition empty_backend :: "exercise list \<Rightarrow> backend" where
  "empty_backend tbl = \<lparr>streaks = empty_streak_db, concept_states = [], attempts_tbl = [],
     next_attempt_id = 1, daily_sessions = [], exercises_tbl = tbl, exercise_stats = [],
     redis_store = Map.empty, retry_counts = []\<rparr>"

lemma empty_backend_inv: "learner_inv S (empty_backend tbl)"
  using empty_streak_inv
  by (simp add: learner_inv_def empty_backend_def attempts_ok_def counters_ok_def concept_tbl_ok_def
      count_of_def att_total_def cor_total_def empty_streak_db_def get_stats_row_def)

lemma outage_stats_tbl: "outage_freeze now d db = (n, db') \<Longrightarrow> stats_tbl db' = stats_tbl db"
  by (auto simp: outage_freeze_def Let_def)

lemma learner_inv_streaks:
  assumes "learner_inv S b" and "streak_inv S db" and "att_total db = att_total (streaks b)"
    and "cor_total db = cor_total (streaks b)"
  shows "learner_inv S (b\<lparr>streaks := db\<rparr>)"
  using assms by (simp add: learner_inv_def counters_ok_def attempts_ok_def)

lemma pull_learner_tables [frame]:
  assumes "pull_exercise now i v b = Inr (n, b')"
  shows "learner_tables b' = learner_tables b"
proof -
  obtain tbl where "purge_sessions_referencing now i (b\<lparr>exercises_tbl := tbl\<rparr>) = (n, b')"
    using assms by (auto simp: pull_exercise_def split: sum.splits)
  from purge_learner_tables [OF this] show ?thesis by simp
qed

lemma reconcile_totals:
  "att_total (reconcile_streak_for_timezone_change off now u tz tz' db) = att_total db"
  "cor_total (reconcile_streak_for_timezone_change off now u tz tz' db) = cor_total db"
  by (auto simp: reconcile_streak_for_timezone_change_def Let_def att_total_def cor_total_def fun_eq_iff
      get_stats_row_def put_stats_def update_conv' add_event_def split: option.split)

lemma sys_step_inv:
  assumes "sys_step E reqs (ph, now, b) (ph', now', b')"
    and "learner_inv (settings_of (base_env E)) b" and "freeze_settings_ok (settings_of (base_env E))"
  shows "learner_inv (settings_of (base_env E)) b'"
  using assms(1)
proof (cases rule: sys_step_cases)
  case (submit i p)
  from advance_inv [OF submit(3) assms(2,3)] show ?thesis .
next
  case (view usr d xs)
  from learner_inv_frame [OF get_today_learner_tables [OF view(3)] assms(2)] show ?thesis .
next
  case (pull i v n)
  from learner_inv_frame [OF pull_learner_tables [OF pull(3)] assms(2)] show ?thesis .
next
  case (edit tbl)
  then show ?thesis using learner_inv_frame [of b' b, OF _ assms(2)] by simp
next
  case (repair u tz x db)
  have "streak_inv (settings_of (base_env E)) (streaks b)" using assms(2) by (simp add: learner_inv_def)
  from repair_inv [OF this repair(2)] repair_totals [OF repair(2)] learner_inv_streaks [OF assms(2)]
  show ?thesis by (simp add: repair(4))
next
  case (outage d n db)
  have "streak_inv (settings_of (base_env E)) (streaks b)" using assms(2) by (simp add: learner_inv_def)
  from outage_inv [OF this outage(2)] totals_same_rows [OF outage_stats_tbl [OF outage(2)]]
    learner_inv_streaks [OF assms(2)]
  show ?thesis by (simp add: outage(4))
next
  case (relocate u tz tz')
  have "streak_inv (settings_of (base_env E)) (streaks b)" using assms(2) by (simp add: learner_inv_def)
  from reconcile_inv [OF this] reconcile_totals learner_inv_streaks [OF assms(2)]
  show ?thesis by (simp add: relocate)
next
  case (retry order known clk limit rep)
  from resolve_pending_inv [OF retry(4) assms(2,3) retry(3)] show ?thesis .
next
  case (percentiles n)
  from learner_inv_frame [OF compute_stats_learner [OF percentiles(3)] assms(2)] show ?thesis .
next
  case flush
  then show ?thesis using learner_inv_frame [of b' b, OF _ assms(2)] by simp
qed

lemma sys_reachable_inv:
  assumes "sys_reachable E reqs b0 (ph, now, b)" and "freeze_settings_ok (settings_of (base_env E))"
    and "learner_inv (settings_of (base_env E)) b0"
  shows "learner_inv (settings_of (base_env E)) b"
proof -
  have "learner_inv (settings_of (base_env E)) (snd (snd s))" if "sys_reachable E reqs b0 s" for s
    using that
  proof induction
    case (start now)
    with assms(3) show ?case by simp
  next
    case (step s s')
    then show ?case using sys_step_inv [OF _ _ assms(2)]
      by (cases s; cases s') (metis prod.collapse snd_conv)
  qed
  from this [OF assms(1)] show ?thesis by simp
qed

end
