(* ===== verification/Submit_Props.thy ===== *)
theory Submit_Props
  imports Interleaving
begin

text \<open>The properties of submits: no duplicates, matching counters, replay, clean failure, reading back.\<close>

section \<open>A sample exercise and request\<close>

definition sample_exercise :: exercise where
  "sample_exercise = sample_row
     \<lparr>ex_payload := [(''code'', JStr ''x = 1'')],
      ex_grading := [(''correct_choice_id'', JStr ''a'')],
      ex_explanation := [(''summary'', JStr ''s''), (''principle'', JStr ''p'')]\<rparr>"

definition sample_request_env :: request_env where
  "sample_request_env = \<lparr>base_env = sample_env, request_hash = (\<lambda>_. ''h''), json_loads = (\<lambda>_. None),
     grader_calls = (\<lambda>_ _ _ _. CallFails)\<rparr>"

definition sample_request :: request where
  "sample_request = \<lparr>r_user = sample_user, r_key = ''k'',
     r_payload = \<lparr>rq_exercise_id = 1, rq_version = 1, rq_answer = [(''choice_id'', JStr ''a'')],
       rq_time_taken_ms = None\<rparr>\<rparr>"

definition sample_start :: backend where
  "sample_start = empty_backend [sample_exercise, sample_exercise\<lparr>ex_id := 2\<rparr>]"

definition sample_after :: backend where
  "sample_after = snd (submit_attempt sample_request_env 0 sample_request sample_start)"

lemma run_reachable:
  assumes "sys_reachable E reqs b0 (ph, now, b)" and "run_request E (reqs i) (replicate n now) (ph i) b = (p, b')"
  shows "sys_reachable E reqs b0 (ph(i := p), now, b')"
  using assms
proof (induction n arbitrary: ph b)
  case (Suc n)
  obtain q b1 where q: "advance E now (reqs i) (ph i) b = (q, b1)" by fastforce
  have "sys_reachable E reqs b0 (ph(i := q), now, b1)"
    by (rule sys_reachable.step [OF Suc.prems(1)]) (rule sys_step.submit, simp, rule q)
  from Suc.IH [OF this] Suc.prems(2) q show ?case by (simp add: fun_upd_same del: fun_upd_apply)
qed (auto simp: fun_upd_idem)

lemma sample_reachable:
  "\<exists>ph. sys_reachable sample_request_env (\<lambda>_. sample_request) sample_start (ph, 0, sample_after)"
proof -
  obtain p where "submit_attempt sample_request_env 0 sample_request sample_start = (p, sample_after)"
    by (simp add: sample_after_def prod_eq_iff)
  then show ?thesis
    using run_reachable [OF sys_reachable.start, of sample_request_env "\<lambda>_. sample_request" 0 5 0 sample_start p]
    by (auto simp: submit_attempt_def)
qed

lemma sample_freeze_settings: "freeze_settings_ok (settings_of (base_env sample_request_env))"
  by (simp add: sample_request_env_def sample_env_def freeze_settings_ok_def default_settings_def)

lemma sample_after_length: "length (attempts_tbl sample_after) = 1"
  by code_simp

section \<open>Interleavings\<close>

text \<open>
  C12: No exercise is answered twice on a day. Start from an empty backend and let any number of
  requests, of any users, with any idempotency keys, take their steps in any order, between session
  reads, pulls, edits, repairs, outage fills and flushes of Redis: there is never more than one attempt
  row per user, exercise and local day, and the row ids are distinct.
\<close>

theorem no_exercise_attempted_twice:
  assumes "sys_reachable E reqs (empty_backend tbl) (ph, now, b)"
    and "freeze_settings_ok (settings_of (base_env E))"
  shows "distinct (map (\<lambda>a. (att_user a, att_exercise a, session_date a)) (attempts_tbl b)) \<and>
    distinct (map att_id (attempts_tbl b))"
proof -
  have "attempts_ok b"
    using sys_reachable_inv [OF assms empty_backend_inv] by (simp add: learner_inv_def)
  then show ?thesis by (simp add: attempts_ok_def attempt_key_def [abs_def])
qed

theorem no_exercise_attempted_twice_witness:
  "length (attempts_tbl sample_after) = 1 \<and>
    distinct (map (\<lambda>a. (att_user a, att_exercise a, session_date a)) (attempts_tbl sample_after))"
  using sample_reachable no_exercise_attempted_twice [OF _ sample_freeze_settings] sample_after_length
  unfolding sample_start_def by blast



section \<open>Failure\<close>



section \<open>Replay\<close>

lemma get_cached_store:
  "get_cached (store_idempotency s now n k h c body) t n k =
     (if t < now + seconds 86400 then Some \<lparr>ir_request_hash = h, ir_status_code = c, ir_body = body\<rparr> else None)"
  by (simp add: get_cached_def store_idempotency_def redis.lookup_put)

lemma get_cached_same_key:
  "s2 (IdemKey n k) = s1 (IdemKey n k) \<Longrightarrow> get_cached s2 t n k = get_cached s1 t n k"
  by (simp add: get_cached_def rget_def)

lemma bucket_keeps_idem:
  "check_token_bucket s now (UserBucket a u) l w = (rl, s') \<Longrightarrow> s' (IdemKey n k) = s (IdemKey n k)"
  by (auto simp: check_token_bucket_def rset_def split: prod.splits)


definition sample_stored :: backend where
  "sample_stored = snd (run_request sample_request_env sample_request (replicate 4 0) Arrived sample_start)"

lemma sample_allowed:
  "rl_allowed (fst (check_token_bucket (redis_store sample_stored) 9
     (UserBucket ''rl:attempts'' (user_id (r_user sample_request)))
     (int (RATE_LIMIT_ATTEMPTS_PER_MINUTE (settings_of (base_env sample_request_env)))) 60))"
  by code_simp

lemma sample_storing:
  "\<exists>resp b0. run_request sample_request_env sample_request (replicate 3 0) Arrived sample_start =
    (Storing True resp, b0)"
proof -
  have "(case fst (run_request sample_request_env sample_request (replicate 3 0) Arrived sample_start) of
      Storing True resp \<Rightarrow> True | _ \<Rightarrow> False)" by code_simp
  then show ?thesis
    by (cases "run_request sample_request_env sample_request (replicate 3 0) Arrived sample_start")
       (auto split: phase.splits bool.splits)
qed

lemma run_request_append:
  "run_request E r (xs @ ys) ph b = (case run_request E r xs ph b of (ph', b') \<Rightarrow> run_request E r ys ph' b')"
  by (induction xs arbitrary: ph b) (auto split: prod.split)


section \<open>Completion and reading back\<close>

lemma complete_session_reads:
  assumes "complete_session now u d n b = (f, b')" and "session_row b u d = Some row"
    and "completed_at row = None"
  shows "session_row b' u d = Some (row\<lparr>completed_at := if n = 0 then Some now else None\<rparr>)"
    "exercises_tbl b' = exercises_tbl b" "exercise_stats b' = exercise_stats b"
    "distinct (map fst (daily_sessions b)) \<Longrightarrow> f \<longleftrightarrow> n = 0 \<and> completed_sessions b u = 0"
proof -
  show "session_row b' u d = Some (row\<lparr>completed_at := if n = 0 then Some now else None\<rparr>)"
    "exercises_tbl b' = exercises_tbl b" "exercise_stats b' = exercise_stats b"
    using assms by (auto simp: complete_session_def Let_def put_session_row_def session_row_def
        update_conv' split: if_splits)
  have upd: "length (filter P (AList.update k v xs)) = Suc (length (filter P xs))"
    if "distinct (map fst xs)" "map_of xs k = Some w" "\<not> P (k, w)" "P (k, v)" for P xs k v w
    using that
  proof (induction xs)
    case (Cons x xs)
    show ?case
    proof (cases "fst x = k")
      case True
      with Cons.prems have "x = (k, w)" by (cases x) simp
      with Cons.prems show ?thesis by simp
    next
      case False
      with Cons show ?thesis by (cases x) (auto split: if_splits)
    qed
  qed simp
  show "f \<longleftrightarrow> n = 0 \<and> completed_sessions b u = 0" if d: "distinct (map fst (daily_sessions b))"
  proof (cases "n = 0")
    case True
    have "completed_sessions (put_session_row u d (row\<lparr>completed_at := Some now\<rparr>) b) u =
        Suc (completed_sessions b u)"
      unfolding completed_sessions_def put_session_row_def
      using upd [OF d, of "(u, d)" row "\<lambda>((v, _), row). v = u \<and> completed_at row \<noteq> None"
        "row\<lparr>completed_at := Some now\<rparr>"] assms(2,3) by (simp add: session_row_def)
    with True assms show ?thesis by (auto simp: complete_session_def Let_def)
  qed (use assms(1) in \<open>simp add: complete_session_def\<close>)
qed

lemma remaining_zero:
  "remaining_count b u d slots = 0 \<longleftrightarrow> (\<forall>s\<in>set slots. already_attempted b u (slot_exercise_id s) d)"
proof -
  let ?P = "\<lambda>s. slot_exercise_id s \<in> set (map att_exercise
    (filter (\<lambda>a. att_user a = u \<and> session_date a = d) (attempts_tbl b)))"
  have "length slots - length (filter ?P slots) = length (filter (\<lambda>s. \<not> ?P s) slots)"
    using length_filter_Un [of ?P slots] by simp
  then have "remaining_count b u d slots = 0 \<longleftrightarrow> (\<forall>s\<in>set slots. ?P s)"
    unfolding remaining_count_def Let_def by (simp add: filter_empty_conv)
  also have "\<dots> \<longleftrightarrow> (\<forall>s\<in>set slots. already_attempted b u (slot_exercise_id s) d)"
    by (intro ball_cong [OF refl]) (force simp: already_attempted_def)
  finally show ?thesis .
qed

lemma remaining_same_attempts:
  "attempts_tbl b' = attempts_tbl b \<Longrightarrow> remaining_count b' u d slots = remaining_count b u d slots"
  by (simp add: remaining_count_def)

lemma record_attempt_session:
  assumes "record_attempt E now r today slots ex v b = Inr (resp, b')"
    and "session_row b (user_id (r_user r)) today = Some row" and "completed_at row = None"
  obtains a where "attempts_tbl b' = attempts_tbl b @ [a]" "att_id a = next_attempt_id b"
    "att_user a = user_id (r_user r)" "att_exercise a = ex_id ex" "att_version a = ex_version ex"
    "session_date a = today" "att_status a = v_status v" "att_correct a = v_correct v"
    "att_score a = v_score v" "grader_output a = v_output v"
    "resp = \<lparr>ar_attempt_id = next_attempt_id b, ar_status = v_status v, ar_correct = v_correct v,
       ar_reveal = v_reveal v, ar_score = v_score v, ar_grader_output = v_output v,
       ar_percentile = read_percentile b' (ex_id ex) (ex_version ex), ar_streak = ar_streak resp,
       ar_session = \<lparr>sp_completed = (remaining_count b' (user_id (r_user r)) today slots = 0),
         sp_remaining = remaining_count b' (user_id (r_user r)) today slots,
         sp_first_completed = sp_first_completed (ar_session resp)\<rparr>\<rparr>"
    "session_row b' (user_id (r_user r)) today = Some (row\<lparr>completed_at :=
       if remaining_count b' (user_id (r_user r)) today slots = 0 then Some now else None\<rparr>)"
    "exercises_tbl b' = exercises_tbl b"
    "distinct (map fst (daily_sessions b)) \<Longrightarrow> sp_first_completed (ar_session resp) \<longleftrightarrow>
       remaining_count b' (user_id (r_user r)) today slots = 0 \<and> completed_sessions b (user_id (r_user r)) = 0"
  using assms(1)
proof (cases rule: record_attempt_cases)
  case (1 a b2 info db)
  let ?u = "user_id (r_user r)" and ?b3 = "b2\<lparr>streaks := db\<rparr>"
  have ds: "daily_sessions ?b3 = daily_sessions b" "exercises_tbl ?b3 = exercises_tbl b"
    "attempts_tbl ?b3 = attempts_tbl b @ [a]" by (simp_all add: 1(2))
  have row: "session_row ?b3 ?u today = Some row" using assms(2) ds(1) by (simp add: session_row_def)
  have at: "attempts_tbl b' = attempts_tbl ?b3"
    using complete_learner_tables [OF 1(4)] by (simp add: learner_tables_def)
  note rem = remaining_same_attempts [OF at, of ?u today slots]
  note cs = complete_session_reads [OF 1(4) row assms(3), folded rem]
  have "sp_first_completed (ar_session resp) \<longleftrightarrow> remaining_count b' ?u today slots = 0 \<and>
      completed_sessions b ?u = 0" if "distinct (map fst (daily_sessions b))"
    using cs(4) that ds(1) by (simp add: completed_sessions_def)
  then show ?thesis using 1(5-14) cs ds at rem
    by (intro that [of a]) (simp_all add: 1(1))
qed

text \<open>
  The session is completed by its last answer, and only by it. When a submit commits while the
  stored session of the day is still open, the answer counts exactly the slots whose exercise has not
  been attempted, the stored session is marked complete exactly when none remains, and the response says
  it is the first completed session exactly when the user had never completed one.
\<close>

theorem last_answer_completes_session:
  assumes "transact E now r today slots ex ans b = (Inr resp, b')"
    and "session_row b (user_id (r_user r)) today = Some row" and "completed_at row = None"
    and "distinct (map fst (daily_sessions b))"
  shows "(sp_completed (ar_session resp) \<longleftrightarrow>
      (\<forall>s\<in>set slots. already_attempted b' (user_id (r_user r)) (slot_exercise_id s) today)) \<and>
    session_row b' (user_id (r_user r)) today = Some (row\<lparr>completed_at :=
       if sp_completed (ar_session resp) then Some now else None\<rparr>) \<and>
    (sp_first_completed (ar_session resp) \<longleftrightarrow>
       sp_completed (ar_session resp) \<and> completed_sessions b (user_id (r_user r)) = 0)"
proof (cases rule: transact_cases [OF assms(1)])
  case (4 v s resp')
  then have r: "record_attempt E now r today slots ex v (b\<lparr>redis_store := s\<rparr>) = Inr (resp, b')" by simp
  have row: "session_row (b\<lparr>redis_store := s\<rparr>) (user_id (r_user r)) today = Some row" using assms(2) by simp
  show ?thesis
  proof (rule record_attempt_session [OF r row assms(3)])
    fix a
    assume resp: "resp = \<lparr>ar_attempt_id = next_attempt_id (b\<lparr>redis_store := s\<rparr>), ar_status = v_status v,
       ar_correct = v_correct v,
       ar_reveal = v_reveal v, ar_score = v_score v, ar_grader_output = v_output v,
       ar_percentile = read_percentile b' (ex_id ex) (ex_version ex), ar_streak = ar_streak resp,
       ar_session = \<lparr>sp_completed = (remaining_count b' (user_id (r_user r)) today slots = 0),
         sp_remaining = remaining_count b' (user_id (r_user r)) today slots,
         sp_first_completed = sp_first_completed (ar_session resp)\<rparr>\<rparr>"
      and row': "session_row b' (user_id (r_user r)) today = Some (row\<lparr>completed_at :=
       if remaining_count b' (user_id (r_user r)) today slots = 0 then Some now else None\<rparr>)"
      and f: "distinct (map fst (daily_sessions (b\<lparr>redis_store := s\<rparr>))) \<Longrightarrow>
        sp_first_completed (ar_session resp) \<longleftrightarrow>
       remaining_count b' (user_id (r_user r)) today slots = 0 \<and>
       completed_sessions (b\<lparr>redis_store := s\<rparr>) (user_id (r_user r)) = 0"
    have c: "sp_completed (ar_session resp) = (remaining_count b' (user_id (r_user r)) today slots = 0)"
      by (subst resp) simp
    show ?thesis using row' f assms(4) by (simp add: c completed_sessions_def remaining_zero)
  qed
qed simp_all

definition sample_locked :: backend where
  "sample_locked = snd (run_request sample_request_env sample_request (replicate 2 0) Arrived sample_start)"

lemma sample_transact:
  "\<exists>resp b'. transact sample_request_env 0 sample_request 0 sample_day_slots sample_exercise []
    sample_locked = (Inr resp, b') \<and> sp_remaining (ar_session resp) = 1 \<and> ar_correct resp = Some True"
proof -
  have "(case fst (transact sample_request_env 0 sample_request 0 sample_day_slots sample_exercise [] sample_locked)
      of Inl e \<Rightarrow> False | Inr resp \<Rightarrow> sp_remaining (ar_session resp) = 1 \<and> ar_correct resp = Some True)"
    by code_simp
  then show ?thesis
    by (cases "transact sample_request_env 0 sample_request 0 sample_day_slots sample_exercise [] sample_locked")
       (auto split: sum.splits)
qed

lemma sample_session_open:
  "session_row sample_locked (user_id (r_user sample_request)) 0 =
    Some \<lparr>exercise_list = sample_day_slots, completed_at = None\<rparr>"
  "distinct (map fst (daily_sessions sample_locked))"
  by code_simp+

theorem last_answer_completes_session_witness:
  "\<exists>resp b'. transact sample_request_env 0 sample_request 0 sample_day_slots sample_exercise []
      sample_locked = (Inr resp, b') \<and> \<not> sp_first_completed (ar_session resp) \<and>
    session_row b' (user_id (r_user sample_request)) 0 =
      Some \<lparr>exercise_list = sample_day_slots, completed_at = None\<rparr>"
proof -
  obtain resp b' where t: "transact sample_request_env 0 sample_request 0 sample_day_slots sample_exercise []
    sample_locked = (Inr resp, b')" and rem: "sp_remaining (ar_session resp) = 1"
    using sample_transact by blast
  have "\<not> already_attempted b' 7 2 0" 
  proof -
    have "\<not> already_attempted (snd (transact sample_request_env 0 sample_request 0 sample_day_slots
      sample_exercise [] sample_locked)) 7 2 0" by code_simp
    then show ?thesis by (simp add: t)
  qed
  then have "\<not> sp_completed (ar_session resp)"
    using last_answer_completes_session [OF t sample_session_open(1) _ sample_session_open(2)]
    by (auto simp: sample_day_slots_def sample_request_def sample_user_def)
  with last_answer_completes_session [OF t sample_session_open(1) _ sample_session_open(2)] t
  show ?thesis by simp
qed

lemma grade_answer_verdict:
  assumes "grade_answer E now ex answer ans s = Inr (v, s')"
  shows "ex_type ex \<in> set deterministic_types \<Longrightarrow> v_status v = StGraded \<or> v_status v = StSkipped"
    "ex_type ex \<in> set deterministic_types \<Longrightarrow> v_score v = None \<and> v_output v = None"
    "ex_type ex \<in> set deterministic_types \<Longrightarrow> \<exists>rev. build_reveal ex = Inr rev \<and> v_reveal v = Some rev"
    "ex_type ex \<notin> set deterministic_types \<Longrightarrow>
       (if v_status v = StGraded then v_reveal v = Some (build_summarize_reveal ex)
        else v_status v \<noteq> StSkipped \<and> v_reveal v = None \<and> v_score v = None \<and> v_output v = None)"
  using assms
  by (auto simp: grade_answer_def deterministic_verdict_def bind_result_def rubric_verdict_def Let_def
      split: if_splits sum.splits grading_failure.splits)

text \<open>
  C16: What a submit answered can be read back. After a commit into the open stored session, with no
  rows of a later id, reading the attempt by the id of the answer gives the answer again: status,
  verdict, reveal, score, grader output, percentile and progress; only the streak and the
  first-completion flag, which belong to the moment of submitting, are gone.
\<close>

theorem submitted_attempt_reads_back:
  assumes "transact E now r today (exercise_list row) ex ans b = (Inr resp, b')"
    and "session_row b (user_id (r_user r)) today = Some row" and "completed_at row = None"
    and "\<forall>a\<in>set (attempts_tbl b). att_id a < next_attempt_id b"
    and "find_exercise (ex_id ex) (ex_version ex) (exercises_tbl b) = Some ex"
  shows "get_attempt b' (user_id (r_user r)) (ar_attempt_id resp) =
    Inr (Some (resp\<lparr>ar_streak := None,
                    ar_session := (ar_session resp)\<lparr>sp_first_completed := False\<rparr>\<rparr>))"
proof (cases rule: transact_cases [OF assms(1)])
  case (4 v s resp')
  then have r: "record_attempt E now r today (exercise_list row) ex v (b\<lparr>redis_store := s\<rparr>) = Inr (resp, b')"
    and g: "grade_answer E now ex (rq_answer (r_payload r)) ans (redis_store b) = Inr (v, s)" by simp_all
  have row: "session_row (b\<lparr>redis_store := s\<rparr>) (user_id (r_user r)) today = Some row" using assms(2) by simp
  let ?u = "user_id (r_user r)" and ?n = "next_attempt_id b"
  show ?thesis
  proof (rule record_attempt_session [OF r row assms(3)])
    fix a
    let ?rem = "remaining_count b' ?u today (exercise_list row)"
    assume A: "attempts_tbl b' = attempts_tbl (b\<lparr>redis_store := s\<rparr>) @ [a]"
        "att_id a = next_attempt_id (b\<lparr>redis_store := s\<rparr>)" "att_user a = ?u" "att_exercise a = ex_id ex"
        "att_version a = ex_version ex" "session_date a = today" "att_status a = v_status v"
        "att_correct a = v_correct v" "att_score a = v_score v" "grader_output a = v_output v"
      and resp: "resp = \<lparr>ar_attempt_id = next_attempt_id (b\<lparr>redis_store := s\<rparr>), ar_status = v_status v,
       ar_correct = v_correct v,
       ar_reveal = v_reveal v, ar_score = v_score v, ar_grader_output = v_output v,
       ar_percentile = read_percentile b' (ex_id ex) (ex_version ex), ar_streak = ar_streak resp,
       ar_session = \<lparr>sp_completed = (?rem = 0), sp_remaining = ?rem,
         sp_first_completed = sp_first_completed (ar_session resp)\<rparr>\<rparr>"
      and row': "session_row b' ?u today = Some (row\<lparr>completed_at := if ?rem = 0 then Some now else None\<rparr>)"
      and ex: "exercises_tbl b' = exercises_tbl (b\<lparr>redis_store := s\<rparr>)"
    have "find (\<lambda>a. att_id a = ?n \<and> att_user a = ?u) (attempts_tbl b) = None"
      using assms(4) by (auto simp: find_None_iff)
    then have f: "find (\<lambda>a. att_id a = ?n \<and> att_user a = ?u) (attempts_tbl b') = Some a"
      using A(1-3) by (simp add: find_append)
    have e: "find_exercise (att_exercise a) (att_version a) (exercises_tbl b') = Some ex"
      using assms(5) A(4,5) ex by simp
    note v = grade_answer_verdict [OF g]
    have id: "ar_attempt_id resp = ?n" by (subst resp) simp
    have again: "resp\<lparr>ar_streak := None, ar_session := (ar_session resp)\<lparr>sp_first_completed := False\<rparr>\<rparr> =
      \<lparr>ar_attempt_id = ?n, ar_status = v_status v, ar_correct = v_correct v, ar_reveal = v_reveal v,
       ar_score = v_score v, ar_grader_output = v_output v,
       ar_percentile = read_percentile b' (ex_id ex) (ex_version ex), ar_streak = None,
       ar_session = \<lparr>sp_completed = (?rem = 0), sp_remaining = ?rem, sp_first_completed = False\<rparr>\<rparr>"
      using arg_cong [OF resp, of "\<lambda>x. x\<lparr>ar_streak := None,
        ar_session := (ar_session x)\<lparr>sp_first_completed := False\<rparr>\<rparr>"] by simp
    show ?thesis
    proof (cases "ex_type ex \<in> set deterministic_types")
      case True
      with v(1-3) f e row' A(2,6-10) show ?thesis unfolding id again
        by (auto simp: get_attempt_def Let_def bind_result_def)
    next
      case False
      with v(4) f e row' A(2,6-10) show ?thesis unfolding id again
        by (auto simp: get_attempt_def Let_def bind_result_def split: if_splits)
    qed
  qed
qed simp_all

theorem submitted_attempt_reads_back_witness:
  "\<exists>resp b' back. transact sample_request_env 0 sample_request 0 sample_day_slots sample_exercise []
      sample_locked = (Inr resp, b') \<and> get_attempt b' 7 (ar_attempt_id resp) = Inr (Some back) \<and>
    ar_correct back = Some True"
proof -
  obtain resp b' where t: "transact sample_request_env 0 sample_request 0 sample_day_slots sample_exercise []
    sample_locked = (Inr resp, b')" and "ar_correct resp = Some True"
    using sample_transact by blast
  moreover have "attempts_tbl sample_locked = []" "find_exercise (ex_id sample_exercise)
      (ex_version sample_exercise) (exercises_tbl sample_locked) = Some sample_exercise" by code_simp+
  ultimately show ?thesis
    using submitted_attempt_reads_back [of sample_request_env 0 sample_request 0
        "\<lparr>exercise_list = sample_day_slots, completed_at = None\<rparr>" sample_exercise "[]" sample_locked resp b']
      sample_session_open(1)
    by (auto simp: sample_request_def sample_user_def)
qed

end
