(* ===== verification/Deliveries.thy ===== *)
theory Deliveries
  imports Json Config "HOL-Library.AList"
begin

text \<open>
  Sending notification mail at most once: the ledger and the opt-outs (\<open>email/deliveries.py\<close>), the
  sweep that claims, renders, sends and records (\<open>email/dispatch.py\<close>). Each commit of the sweep is a
  step; \<open>job_step\<close> lets several sweeps overlap and crash between any two steps. The provider is a
  parameter: for each call it accepts, refuses or leaves the call unresolved.
\<close>

section \<open>Opt-outs\<close>

type_synonym suppressions = "((uid \<times> string) \<times> string \<times> string) list"

definition suppressed_kinds :: "suppressions \<Rightarrow> uid \<Rightarrow> string set" where
  "suppressed_kinds tbl u =
     (let kinds = set (map (\<lambda>((_, k), _). k) (filter (\<lambda>((v, _), _). v = u) tbl))
      in if ''all'' \<in> kinds then kinds \<union> {''reminder'', ''recap''} else kinds)"

definition is_suppressed :: "suppressions \<Rightarrow> uid \<Rightarrow> string \<Rightarrow> bool" where
  "is_suppressed tbl u kind \<longleftrightarrow> kind \<in> suppressed_kinds tbl u"

definition email_preferences :: "suppressions \<Rightarrow> uid \<Rightarrow> bool \<times> bool" where
  "email_preferences tbl u =
     (''reminder'' \<notin> suppressed_kinds tbl u, ''recap'' \<notin> suppressed_kinds tbl u)"

text \<open>\<open>ON CONFLICT DO NOTHING\<close>: the first reason and source stay.\<close>

definition suppress :: "uid \<Rightarrow> string \<Rightarrow> string \<Rightarrow> string \<Rightarrow> suppressions \<Rightarrow> suppressions" where
  "suppress u kind reason source tbl =
     (if map_of tbl (u, kind) = None then tbl @ [((u, kind), reason, source)] else tbl)"

definition unsuppress :: "uid \<Rightarrow> string \<Rightarrow> suppressions \<Rightarrow> suppressions" where
  "unsuppress u kind tbl = AList.delete (u, kind) tbl"

text \<open>The body of the preferences patch: a field that is absent or null changes nothing.\<close>

definition patch_email_prefs ::
    "uid \<Rightarrow> bool option \<Rightarrow> bool option \<Rightarrow> suppressions \<Rightarrow> (bool \<times> bool) \<times> suppressions" where
  "patch_email_prefs u reminders recap tbl =
     (let set_pref = (\<lambda>v kind t. case v of
                        None \<Rightarrow> t
                      | Some True \<Rightarrow> unsuppress u kind t
                      | Some False \<Rightarrow> suppress u kind ''unsubscribe'' ''profile'' t);
          tbl' = set_pref recap ''recap'' (set_pref reminders ''reminder'' tbl)
      in (email_preferences tbl' u, tbl'))"

section \<open>The ledger\<close>

text \<open>
  The period of a mail: the local day of a reminder, the ISO week (named by its Monday) of a recap.
  The code's strings \<open>YYYY-MM-DD\<close> and \<open>GGGG-Www\<close> name exactly these.
\<close>

datatype period = Day date | IsoWeek date

type_synonym dkey = "uid \<times> string \<times> period"

datatype delivery_status = Claimed | Sent | SendFailed | SkippedMail

record delivery =
  d_status :: delivery_status
  d_attempts :: nat
  d_payload :: "jobj option"
  d_error :: "string option"
  d_claimed_at :: instant
  d_sent_at :: "instant option"

type_synonym ledger = "(dkey \<times> delivery) list"

definition claim_period :: "settings \<Rightarrow> instant \<Rightarrow> dkey \<Rightarrow> ledger \<Rightarrow> bool \<times> ledger" where
  "claim_period S now k L =
     (case map_of L k of
        None \<Rightarrow>
          (True, AList.update k \<lparr>d_status = Claimed, d_attempts = 1, d_payload = None, d_error = None,
                                 d_claimed_at = now, d_sent_at = None\<rparr> L)
      | Some d \<Rightarrow>
          if d_status d = SendFailed \<and> d_attempts d < EMAIL_SEND_MAX_ATTEMPTS S \<and>
             now - hours_us (EMAIL_SEND_RETRY_WINDOW_H S) < d_claimed_at d
          then (True, AList.update k (d\<lparr>d_status := Claimed, d_attempts := d_attempts d + 1,
                                       d_claimed_at := now\<rparr>) L)
          else (False, L))"

definition change_row :: "dkey \<Rightarrow> (delivery \<Rightarrow> delivery) \<Rightarrow> ledger \<Rightarrow> ledger" where
  "change_row k f L = map (\<lambda>(k', d). (k', if k' = k then f d else d)) L"

definition finish_delivery ::
    "instant \<Rightarrow> dkey \<Rightarrow> delivery_status \<Rightarrow> string option \<Rightarrow> ledger \<Rightarrow> ledger" where
  "finish_delivery now k st err L =
     change_row k (\<lambda>d. d\<lparr>d_status := st, d_error := err,
       d_sent_at := (if st = Sent then Some now else d_sent_at d)\<rparr>) L"

definition mark_sent :: "instant \<Rightarrow> dkey \<Rightarrow> ledger \<Rightarrow> ledger" where
  "mark_sent now k L = finish_delivery now k Sent None L"

definition mark_failed :: "instant \<Rightarrow> dkey \<Rightarrow> string \<Rightarrow> ledger \<Rightarrow> ledger" where
  "mark_failed now k err L = finish_delivery now k SendFailed (Some err) L"

definition mark_skipped :: "instant \<Rightarrow> dkey \<Rightarrow> string \<Rightarrow> ledger \<Rightarrow> ledger" where
  "mark_skipped now k why L = finish_delivery now k SkippedMail (Some why) L"

definition read_payload :: "dkey \<Rightarrow> ledger \<Rightarrow> jobj option" where
  "read_payload k L = Option.bind (map_of L k) d_payload"

definition store_payload :: "dkey \<Rightarrow> jobj \<Rightarrow> ledger \<Rightarrow> ledger" where
  "store_payload k p L = change_row k (\<lambda>d. d\<lparr>d_payload := Some p\<rparr>) L"

definition reminder_period_key :: "date \<Rightarrow> period" where
  "reminder_period_key d = Day d"

section \<open>Messages\<close>

record outbound_email =
  em_to :: string
  em_subject :: string
  em_text :: string
  em_html :: string
  em_dev_link :: "string option"
  em_idempotency_key :: "dkey option"
  em_headers :: "(string \<times> string) list"

definition payload_from_message :: "outbound_email \<Rightarrow> jobj" where
  "payload_from_message m =
     [(''to'', JStr (em_to m)), (''subject'', JStr (em_subject m)), (''text'', JStr (em_text m)),
      (''html'', JStr (em_html m)),
      (''headers'', JObj (map (\<lambda>(k, v). (k, JStr v)) (em_headers m))),
      (''dev_link'', case em_dev_link m of None \<Rightarrow> JNull | Some l \<Rightarrow> JStr l)]"

definition str_item :: "jobj \<Rightarrow> string \<Rightarrow> string result" where
  "str_item p k = (case item p k of Inl e \<Rightarrow> Inl e | Inr (JStr s) \<Rightarrow> Inr s | Inr _ \<Rightarrow> Inl TypeError)"

definition message_from_payload :: "jobj \<Rightarrow> outbound_email result" where
  "message_from_payload p =
     (case (str_item p ''to'', str_item p ''subject'', str_item p ''text'', str_item p ''html'') of
        (Inr a, Inr s, Inr t, Inr h) \<Rightarrow>
          Inr \<lparr>em_to = a, em_subject = s, em_text = t, em_html = h,
               em_dev_link = (case get p ''dev_link'' JNull of JStr l \<Rightarrow> Some l | _ \<Rightarrow> None),
               em_idempotency_key = None,
               em_headers = (case get p ''headers'' JNull of
                  JObj kvs \<Rightarrow> map (\<lambda>(k, v). (k, case v of JStr x \<Rightarrow> x | _ \<Rightarrow> [])) kvs | _ \<Rightarrow> [])\<rparr>
      | _ \<Rightarrow> Inl KeyError)"

text \<open>What is snapshotted is what is sent again.\<close>

lemma payload_round_trip:
  "message_from_payload (payload_from_message m) = Inr (m\<lparr>em_idempotency_key := None\<rparr>)"
proof -
  have "map (\<lambda>(k, v). (k, case v of JStr x \<Rightarrow> x | _ \<Rightarrow> [])) (map (\<lambda>(k, v). (k, JStr v)) xs) = xs"
    for xs :: "(string \<times> string) list" by (induction xs) auto
  then show ?thesis
    by (cases m) (simp add: message_from_payload_def payload_from_message_def str_item_def item_def get_def
        split: option.split)
qed

lemma payload_inj:
  assumes "payload_from_message m = payload_from_message m'" and "em_idempotency_key m = em_idempotency_key m'"
  shows "m = m'"
proof -
  have "m\<lparr>em_idempotency_key := None\<rparr> = m'\<lparr>em_idempotency_key := None\<rparr>"
    using payload_round_trip [of m] payload_round_trip [of m'] assms(1) by simp
  with assms(2) show ?thesis by (cases m; cases m') simp
qed

section \<open>The sweep\<close>

record mail_candidate =
  mc_user :: uid
  mc_email :: string
  mc_period :: period

record sweep_result =
  sr_considered :: nat
  sr_sent :: nat
  sr_skipped :: nat
  sr_failed :: nat
  sr_not_claimed :: nat
  sr_deferred :: nat

text \<open>
  A provider call is accepted, refused (\<open>EmailSendError\<close>, with the text recorded), or ends in another
  exception.
\<close>

datatype send_outcome = Accepted | Refused string | Unhandled

record mail_world =
  mw_ledger :: ledger
  mw_calls :: "(dkey \<times> outbound_email \<times> send_outcome) list"

record sweep_env =
  se_settings :: settings
  se_build :: "mail_candidate \<Rightarrow> outbound_email option result"
  se_send :: "nat \<Rightarrow> outbound_email \<Rightarrow> send_outcome"
  se_claim_raises :: "mail_candidate \<Rightarrow> bool"

definition delivery_idempotency_key :: "string \<Rightarrow> mail_candidate \<Rightarrow> dkey" where
  "delivery_idempotency_key kind c = (mc_user c, kind, mc_period c)"

datatype work_result = WorkSent | WorkSkipped | WorkFailed

text \<open>The call, and what is committed about it; the n-th call of the run is \<open>se_send n\<close>.\<close>

definition send_and_record ::
    "sweep_env \<Rightarrow> instant \<Rightarrow> dkey \<Rightarrow> outbound_email \<Rightarrow> mail_world \<Rightarrow> work_result \<times> mail_world" where
  "send_and_record E now k m w =
     (let msg = m\<lparr>em_idempotency_key := Some k\<rparr>;
          out = se_send E (length (mw_calls w)) msg;
          w1 = w\<lparr>mw_calls := mw_calls w @ [(k, msg, out)]\<rparr>
      in case out of
           Accepted \<Rightarrow> (WorkSent, w1\<lparr>mw_ledger := mark_sent now k (mw_ledger w1)\<rparr>)
         | Refused err \<Rightarrow> (WorkFailed, w1\<lparr>mw_ledger := mark_failed now k err (mw_ledger w1)\<rparr>)
         | Unhandled \<Rightarrow> (WorkFailed, w1))"

definition work_candidate ::
    "sweep_env \<Rightarrow> instant \<Rightarrow> string \<Rightarrow> mail_candidate \<Rightarrow> mail_world \<Rightarrow> work_result \<times> mail_world" where
  "work_candidate E now kind c w =
     (let k = delivery_idempotency_key kind c in
      case read_payload k (mw_ledger w) of
        Some p \<Rightarrow>
          (case message_from_payload p of
             Inl e \<Rightarrow> (WorkFailed, w)
           | Inr m \<Rightarrow> send_and_record E now k m w)
      | None \<Rightarrow>
          (case se_build E c of
             Inl e \<Rightarrow> (WorkFailed, w)
           | Inr None \<Rightarrow>
               (WorkSkipped, w\<lparr>mw_ledger := mark_skipped now k ''nothing to report'' (mw_ledger w)\<rparr>)
           | Inr (Some m) \<Rightarrow>
               send_and_record E now k m
                 (w\<lparr>mw_ledger := store_payload k (payload_from_message m) (mw_ledger w)\<rparr>)))"

fun tally :: "work_result \<Rightarrow> sweep_result \<Rightarrow> sweep_result" where
  "tally WorkSent r = r\<lparr>sr_sent := sr_sent r + 1\<rparr>"
| "tally WorkSkipped r = r\<lparr>sr_skipped := sr_skipped r + 1\<rparr>"
| "tally WorkFailed r = r\<lparr>sr_failed := sr_failed r + 1\<rparr>"

fun sweep_loop ::
    "sweep_env \<Rightarrow> instant \<Rightarrow> string \<Rightarrow> mail_candidate list \<Rightarrow> nat \<Rightarrow> sweep_result \<Rightarrow> mail_world
       \<Rightarrow> sweep_result \<times> mail_world" where
  "sweep_loop E now kind [] attempted r w = (r, w)"
| "sweep_loop E now kind (c # cs) attempted r w =
     (if EMAIL_MAX_SENDS_PER_TICK (se_settings E) \<le> attempted
      then (r\<lparr>sr_deferred := length (c # cs)\<rparr>, w)
      else if se_claim_raises E c
      then sweep_loop E now kind cs attempted (r\<lparr>sr_failed := sr_failed r + 1\<rparr>) w
      else
        (case claim_period (se_settings E) now (delivery_idempotency_key kind c) (mw_ledger w) of
           (False, L) \<Rightarrow>
             sweep_loop E now kind cs attempted (r\<lparr>sr_not_claimed := sr_not_claimed r + 1\<rparr>) w
         | (True, L) \<Rightarrow>
             (case work_candidate E now kind c (w\<lparr>mw_ledger := L\<rparr>) of
                (out, w') \<Rightarrow> sweep_loop E now kind cs (attempted + 1) (tally out r) w')))"

definition run_sweep ::
    "sweep_env \<Rightarrow> instant \<Rightarrow> string \<Rightarrow> mail_candidate list \<Rightarrow> mail_world \<Rightarrow> sweep_result \<times> mail_world" where
  "run_sweep E now kind cs w =
     sweep_loop E now kind cs 0
       \<lparr>sr_considered = length cs, sr_sent = 0, sr_skipped = 0, sr_failed = 0, sr_not_claimed = 0,
        sr_deferred = 0\<rparr> w"

end
