(* ===== verification/Deliveries_Props.thy ===== *)
theory Deliveries_Props
  imports Deliveries
begin

text \<open>
  Overlapping and crashing sweeps. A worker is between two commits of its loop; \<open>job_step\<close> interleaves
  any number of workers, and a worker may stop at any point. \<open>run_sweep\<close> is one such run.
\<close>

section \<open>Steps\<close>

datatype worker =
    Ready
  | Owning dkey
  | Sending dkey outbound_email
  | Recording dkey send_outcome

fun owned :: "worker \<Rightarrow> dkey option" where
  "owned Ready = None"
| "owned (Owning k) = Some k"
| "owned (Sending k m) = Some k"
| "owned (Recording k out) = Some k"

fun record_outcome_of :: "instant \<Rightarrow> dkey \<Rightarrow> send_outcome \<Rightarrow> ledger \<Rightarrow> ledger" where
  "record_outcome_of now k Accepted L = mark_sent now k L"
| "record_outcome_of now k (Refused err) L = mark_failed now k err L"
| "record_outcome_of now k Unhandled L = L"

inductive job_step ::
    "settings \<Rightarrow> (nat \<Rightarrow> worker) \<times> mail_world \<Rightarrow> (nat \<Rightarrow> worker) \<times> mail_world \<Rightarrow> bool" for S where
  claim: "ph i = Ready \<Longrightarrow> claim_period S now k (mw_ledger w) = (True, L) \<Longrightarrow>
     job_step S (ph, w) (ph(i := Owning k), w\<lparr>mw_ledger := L\<rparr>)"
| render: "ph i = Owning k \<Longrightarrow> read_payload k (mw_ledger w) = None \<Longrightarrow>
     job_step S (ph, w) (ph(i := Sending k (m\<lparr>em_idempotency_key := Some k\<rparr>)),
       w\<lparr>mw_ledger := store_payload k (payload_from_message m) (mw_ledger w)\<rparr>)"
| reuse: "ph i = Owning k \<Longrightarrow> read_payload k (mw_ledger w) = Some p \<Longrightarrow> message_from_payload p = Inr m \<Longrightarrow>
     job_step S (ph, w) (ph(i := Sending k (m\<lparr>em_idempotency_key := Some k\<rparr>)), w)"
| skip: "ph i = Owning k \<Longrightarrow> read_payload k (mw_ledger w) = None \<Longrightarrow>
     job_step S (ph, w) (ph(i := Ready), w\<lparr>mw_ledger := mark_skipped now k why (mw_ledger w)\<rparr>)"
| send: "ph i = Sending k m \<Longrightarrow>
     job_step S (ph, w) (ph(i := Recording k out), w\<lparr>mw_calls := mw_calls w @ [(k, m, out)]\<rparr>)"
| settle: "ph i = Recording k out \<Longrightarrow>
     job_step S (ph, w) (ph(i := Ready), w\<lparr>mw_ledger := record_outcome_of now k out (mw_ledger w)\<rparr>)"
| crash: "job_step S (ph, w) (ph(i := Ready), w)"

definition job_steps ::
    "settings \<Rightarrow> (nat \<Rightarrow> worker) \<times> mail_world \<Rightarrow> (nat \<Rightarrow> worker) \<times> mail_world \<Rightarrow> bool" where
  "job_steps S = (job_step S)\<^sup>*\<^sup>*"

definition no_mail :: mail_world where
  "no_mail = \<lparr>mw_ledger = [], mw_calls = []\<rparr>"

section \<open>Rows\<close>

definition row_of :: "mail_world \<Rightarrow> dkey \<Rightarrow> delivery option" where
  "row_of w k = map_of (mw_ledger w) k"

lemma map_of_change_row [simp]:
  "map_of (change_row k f L) k' = (if k' = k then map_option f (map_of L k) else map_of L k')"
  unfolding change_row_def by (induction L) auto

lemma map_of_claim:
  assumes "claim_period S now k L = (True, L')"
  shows "k' \<noteq> k \<Longrightarrow> map_of L' k' = map_of L k'"
    "\<exists>d. map_of L' k = Some d \<and> d_status d = Claimed \<and> d_claimed_at d = now \<and>
       (case map_of L k of
          None \<Rightarrow> d_attempts d = 1 \<and> d_payload d = None
        | Some d0 \<Rightarrow> d_status d0 = SendFailed \<and> d_attempts d0 < EMAIL_SEND_MAX_ATTEMPTS S \<and>
            d_attempts d = d_attempts d0 + 1 \<and> d_payload d = d_payload d0)"
  using assms by (auto simp: claim_period_def update_conv' split: option.splits if_splits)

definition calls_for :: "mail_world \<Rightarrow> dkey \<Rightarrow> (dkey \<times> outbound_email \<times> send_outcome) list" where
  "calls_for w k = filter (\<lambda>c. fst c = k) (mw_calls w)"

definition accepted :: "mail_world \<Rightarrow> dkey \<Rightarrow> nat" where
  "accepted w k = length (filter (\<lambda>c. snd (snd c) = Accepted) (calls_for w k))"

section \<open>The invariant, key by key\<close>

definition may_call :: "(nat \<Rightarrow> worker) \<Rightarrow> dkey \<Rightarrow> bool" where
  "may_call ph k \<longleftrightarrow> (\<exists>i. ph i = Owning k \<or> (\<exists>m. ph i = Sending k m))"

definition payload_ok :: "delivery \<Rightarrow> bool" where
  "payload_ok d \<longleftrightarrow> (\<forall>p. d_payload d = Some p \<longrightarrow> (\<exists>m. p = payload_from_message m))"

definition key_inv :: "settings \<Rightarrow> (nat \<Rightarrow> worker) \<Rightarrow> mail_world \<Rightarrow> dkey \<Rightarrow> bool" where
  "key_inv S ph w k \<longleftrightarrow>
     (\<forall>i j. owned (ph i) = Some k \<and> owned (ph j) = Some k \<longrightarrow> i = j) \<and>
     (case row_of w k of
        None \<Rightarrow> (\<forall>i. owned (ph i) \<noteq> Some k) \<and> calls_for w k = []
      | Some d \<Rightarrow>
          ((\<exists>i. owned (ph i) = Some k) \<longrightarrow> d_status d = Claimed) \<and> payload_ok d \<and>
          accepted w k \<le> 1 \<and>
          (accepted w k = 1 \<longrightarrow> (d_status d = Sent \<or> d_status d = Claimed) \<and>
             (\<forall>i. owned (ph i) = Some k \<longrightarrow> ph i = Recording k Accepted)) \<and>
          (\<forall>i m. ph i = Sending k m \<longrightarrow>
             d_payload d = Some (payload_from_message m) \<and> em_idempotency_key m = Some k) \<and>
          (\<forall>(_, m, _)\<in>set (calls_for w k).
             d_payload d = Some (payload_from_message m) \<and> em_idempotency_key m = Some k) \<and>
          length (calls_for w k) + (if may_call ph k then 1 else 0) \<le> d_attempts d \<and>
          d_attempts d \<le> max 1 (EMAIL_SEND_MAX_ATTEMPTS S))"

text \<open>A step concerns one worker and one key.\<close>

lemma key_inv_other:
  assumes "key_inv S ph w k" and "owned (ph i) \<noteq> Some k" and "owned p \<noteq> Some k"
    and "row_of w' k = row_of w k" and "calls_for w' k = calls_for w k"
  shows "key_inv S (ph(i := p)) w' k"
proof -
  have own: "owned ((ph(i := p)) j) = Some k \<longleftrightarrow> owned (ph j) = Some k" for j
    using assms(2,3) by auto
  have acc: "accepted w' k = accepted w k" by (simp add: accepted_def assms(5))
  have phs: "(ph(i := p)) j = q \<longleftrightarrow> ph j = q" if "owned q = Some k" for j q
    using assms(2,3) that by auto
  have may: "may_call (ph(i := p)) k \<longleftrightarrow> may_call ph k"
    unfolding may_call_def using phs [of "Owning k"] phs [of "Sending k m" for m] by simp
  have rs: "(ph(i := p)) j = Recording k Accepted \<longleftrightarrow> ph j = Recording k Accepted"
    "(ph(i := p)) j = Sending k m \<longleftrightarrow> ph j = Sending k m" for j m
    by (rule phs, simp)+
  show ?thesis using assms(1) unfolding key_inv_def own acc may assms(4,5) rs .
qed

text \<open>What the invariant says of a key that a worker owns.\<close>

lemma key_invD:
  assumes "key_inv S ph w k" and "owned (ph i) = Some k"
  obtains d where "row_of w k = Some d" "d_status d = Claimed"
    "\<And>j. owned (ph j) = Some k \<longleftrightarrow> j = i" "accepted w k \<le> 1"
    "accepted w k = 1 \<Longrightarrow> ph i = Recording k Accepted"
    "\<And>m. ph i = Sending k m \<Longrightarrow> d_payload d = Some (payload_from_message m) \<and> em_idempotency_key m = Some k"
    "\<And>c m out. (c, m, out) \<in> set (calls_for w k) \<Longrightarrow>
       d_payload d = Some (payload_from_message m) \<and> em_idempotency_key m = Some k"
    "length (calls_for w k) + (if may_call ph k then 1 else 0) \<le> d_attempts d"
    "d_attempts d \<le> max 1 (EMAIL_SEND_MAX_ATTEMPTS S)" "payload_ok d"
proof -
  obtain d where d: "row_of w k = Some d" using assms by (auto simp: key_inv_def split: option.splits)
  show ?thesis
  proof (rule that [OF d])
    show "owned (ph j) = Some k \<longleftrightarrow> j = i" for j using assms by (auto simp: key_inv_def)
  qed (use assms d in \<open>auto simp: key_inv_def\<close>)
qed

lemma may_call_upd:
  assumes "\<And>j. owned (ph j) = Some k \<longleftrightarrow> j = i"
  shows "may_call (ph(i := p)) k \<longleftrightarrow> p = Owning k \<or> (\<exists>m. p = Sending k m)"
proof -
  have "ph j \<noteq> Owning k \<and> ph j \<noteq> Sending k m" if "j \<noteq> i" for j m
    using assms [of j] that by auto
  then show ?thesis by (auto simp: may_call_def)
qed

text \<open>The owner of a key moves to another phase of that key.\<close>

lemma key_inv_owner:
  assumes inv: "key_inv S ph w k" and own: "owned (ph i) = Some k" and p: "owned p = Some k"
    and row: "row_of w' k = Some d'" "d_status d' = Claimed" "d_attempts d' = the (map_option d_attempts (row_of w k))"
    and ok: "payload_ok d'"
    and acc: "accepted w' k \<le> 1" "accepted w' k = 1 \<Longrightarrow> p = Recording k Accepted"
    and pay: "\<And>m. p = Sending k m \<Longrightarrow> d_payload d' = Some (payload_from_message m) \<and> em_idempotency_key m = Some k"
      "\<And>c m out. (c, m, out) \<in> set (calls_for w' k) \<Longrightarrow>
         d_payload d' = Some (payload_from_message m) \<and> em_idempotency_key m = Some k"
    and calls: "length (calls_for w' k) + (if p = Owning k \<or> (\<exists>m. p = Sending k m) then 1 else 0) \<le>
      length (calls_for w k) + (if may_call ph k then 1 else 0)"
  shows "key_inv S (ph(i := p)) w' k"
proof (rule key_invD [OF inv own])
  fix d
  assume d: "row_of w k = Some d" "\<And>j. owned (ph j) = Some k \<longleftrightarrow> j = i"
    "length (calls_for w k) + (if may_call ph k then 1 else 0) \<le> d_attempts d"
    "d_attempts d \<le> max 1 (EMAIL_SEND_MAX_ATTEMPTS S)"
  have own': "owned ((ph(i := p)) j) = Some k \<longleftrightarrow> j = i" for j using d(2) p by auto
  have snd: "j = i" if "(ph(i := p)) j = Sending k m" for j m
    using own' [of j] that by (metis owned.simps(3))
  have msgs: "\<forall>(_, m, _)\<in>set (calls_for w' k).
      d_payload d' = Some (payload_from_message m) \<and> em_idempotency_key m = Some k"
    using pay(2) by fast
  have att: "length (calls_for w' k) + (if p = Owning k \<or> (\<exists>m. p = Sending k m) then 1 else 0) \<le> d_attempts d'"
    "d_attempts d' \<le> max 1 (EMAIL_SEND_MAX_ATTEMPTS S)"
    using calls row(3) d by simp_all
  show ?thesis
    unfolding key_inv_def row(1) option.case own' may_call_upd [OF d(2)]
  proof (intro conjI allI impI)
    fix j m assume "(ph(i := p)) j = Sending k m"
    moreover from snd [OF this] have "j = i" .
    ultimately show "d_payload d' = Some (payload_from_message m)" "em_idempotency_key m = Some k"
      using pay(1) [of m] by simp_all
  qed (use row(2) ok acc msgs att in simp_all)
qed

text \<open>The owner of a key leaves it.\<close>

lemma key_inv_leave:
  assumes inv: "key_inv S ph w k" and own: "owned (ph i) = Some k" and p: "owned p = None"
    and row: "row_of w' k = Some d'" "d_payload d' = the (map_option d_payload (row_of w k))"
      "d_attempts d' = the (map_option d_attempts (row_of w k))"
    and calls: "calls_for w' k = calls_for w k"
    and st: "accepted w k = 1 \<Longrightarrow> d_status d' = Sent \<or> d_status d' = Claimed"
  shows "key_inv S (ph(i := p)) w' k"
proof (rule key_invD [OF inv own])
  fix d
  assume d: "row_of w k = Some d" "\<And>j. owned (ph j) = Some k \<longleftrightarrow> j = i" "accepted w k \<le> 1"
    "\<And>c m out. (c, m, out) \<in> set (calls_for w k) \<Longrightarrow>
       d_payload d = Some (payload_from_message m) \<and> em_idempotency_key m = Some k"
    "length (calls_for w k) + (if may_call ph k then 1 else 0) \<le> d_attempts d"
    "d_attempts d \<le> max 1 (EMAIL_SEND_MAX_ATTEMPTS S)" "payload_ok d"
  have ok: "payload_ok d'" using d(1,7) row(2) by (simp add: payload_ok_def)
  have own': "owned ((ph(i := p)) j) \<noteq> Some k" for j using d(2) [of j] p by auto
  have snd: "(ph(i := p)) j \<noteq> Sending k m" for j m using own' [of j] by (metis owned.simps(3))
  have may: "\<not> may_call (ph(i := p)) k" using p by (auto simp: may_call_upd [OF d(2)])
  have acc: "accepted w' k = accepted w k" by (simp add: accepted_def calls)
  show ?thesis
    unfolding key_inv_def row(1) option.case calls acc
    using own' snd may row d st ok by (auto simp del: fun_upd_apply split: prod.splits)
qed

lemma key_inv_claim:
  assumes inv: "key_inv S ph w k" and idle: "ph i = Ready"
    and claim: "claim_period S now k (mw_ledger w) = (True, L)"
  shows "key_inv S (ph(i := Owning k)) (w\<lparr>mw_ledger := L\<rparr>) k"
proof -
  obtain d where d: "map_of L k = Some d" "d_status d = Claimed"
    and old: "case map_of (mw_ledger w) k of
          None \<Rightarrow> d_attempts d = 1 \<and> d_payload d = None
        | Some d0 \<Rightarrow> d_status d0 = SendFailed \<and> d_attempts d0 < EMAIL_SEND_MAX_ATTEMPTS S \<and>
            d_attempts d = d_attempts d0 + 1 \<and> d_payload d = d_payload d0"
    using map_of_claim(2) [OF claim] by blast
  have free: "owned (ph j) \<noteq> Some k" for j
    using inv old by (auto simp: key_inv_def row_of_def split: option.splits)
  have own: "owned ((ph(i := Owning k)) j) = Some k \<longleftrightarrow> j = i" for j using free by simp
  have acc: "accepted w k = 0"
  proof (cases "map_of (mw_ledger w) k")
    case None
    with inv show ?thesis by (simp add: key_inv_def row_of_def accepted_def)
  next
    case (Some d0)
    with inv old have "accepted w k \<le> 1" "accepted w k \<noteq> 1" by (auto simp: key_inv_def row_of_def)
    then show ?thesis by simp
  qed
  have msgs: "\<forall>(_, m, _)\<in>set (calls_for w k).
      d_payload d = Some (payload_from_message m) \<and> em_idempotency_key m = Some k"
    using inv old by (auto simp: key_inv_def row_of_def split: option.splits)
  have att: "length (calls_for w k) + 1 \<le> d_attempts d" "d_attempts d \<le> max 1 (EMAIL_SEND_MAX_ATTEMPTS S)"
    using inv old by (auto simp: key_inv_def row_of_def split: option.splits if_splits)
  have ok: "payload_ok d"
    using inv old by (auto simp: key_inv_def row_of_def payload_ok_def split: option.splits)
  have snd: "(ph(i := Owning k)) j \<noteq> Sending k m" for j m using free [of j] by auto
  have may: "may_call (ph(i := Owning k)) k" by (auto simp: may_call_def)
  have w: "row_of (w\<lparr>mw_ledger := L\<rparr>) k = Some d" "accepted (w\<lparr>mw_ledger := L\<rparr>) k = 0"
    "calls_for (w\<lparr>mw_ledger := L\<rparr>) k = calls_for w k"
    using acc by (simp_all add: row_of_def d(1) accepted_def calls_for_def)
  show ?thesis
    unfolding key_inv_def w option.case own
    using d(2) ok msgs att snd may by simp
qed

definition job_inv :: "settings \<Rightarrow> (nat \<Rightarrow> worker) \<Rightarrow> mail_world \<Rightarrow> bool" where
  "job_inv S ph w \<longleftrightarrow> (\<forall>k. key_inv S ph w k)"

lemma job_invD: "job_inv S ph w \<Longrightarrow> key_inv S ph w k"
  unfolding job_inv_def by (rule spec)

inductive_cases job_stepE: "job_step S (ph, w) (ph', w')"

lemmas job_step_cases = job_stepE
  [consumes 1, case_names claim render reuse skip send settle crash]

lemma calls_for_simps [simp]:
  "calls_for (w\<lparr>mw_ledger := L\<rparr>) k = calls_for w k"
  "calls_for (w\<lparr>mw_calls := mw_calls w @ [(k', m, out)]\<rparr>) k =
     calls_for w k @ (if k' = k then [(k', m, out)] else [])"
  by (simp_all add: calls_for_def)

lemma accepted_simps [simp]:
  "accepted (w\<lparr>mw_ledger := L\<rparr>) k = accepted w k"
  "accepted (w\<lparr>mw_calls := mw_calls w @ [(k', m, out)]\<rparr>) k =
     accepted w k + (if k' = k \<and> out = Accepted then 1 else 0)"
  by (simp_all add: accepted_def)

lemma row_of_simps [simp]:
  "row_of (w\<lparr>mw_ledger := L\<rparr>) k = map_of L k"
  "row_of (w\<lparr>mw_calls := c\<rparr>) k = row_of w k"
  by (simp_all add: row_of_def)

lemma may_call_owner: "(\<And>j. owned (ph j) = Some k \<longleftrightarrow> j = i) \<Longrightarrow>
    may_call ph k \<longleftrightarrow> ph i = Owning k \<or> (\<exists>m. ph i = Sending k m)"
  unfolding may_call_def by (metis owned.simps(2,3))

lemma owner_row:
  assumes "job_inv S ph w" and "owned (ph i) = Some k"
  obtains d where "map_of (mw_ledger w) k = Some d" "d_status d = Claimed"
    "\<And>j. owned (ph j) = Some k \<longleftrightarrow> j = i"
proof -
  have "key_inv S ph w k" using assms(1) by (rule job_invD)
  from key_invD [OF this assms(2)] that show ?thesis by (metis row_of_def)
qed

text \<open>A worker changes the row or the calls of the key it owns and of no other.\<close>

lemma job_inv_local:
  assumes inv: "job_inv S ph w" and own: "owned (ph i) = Some k" and p: "owned p = Some k \<or> owned p = None"
    and others: "\<And>k'. k' \<noteq> k \<Longrightarrow> row_of w' k' = row_of w k' \<and> calls_for w' k' = calls_for w k'"
    and key: "key_inv S (ph(i := p)) w' k"
  shows "job_inv S (ph(i := p)) w'"
  unfolding job_inv_def
proof
  fix k'
  show "key_inv S (ph(i := p)) w' k'"
  proof (cases "k' = k")
    case True
    with key show ?thesis by simp
  next
    case False
    have "key_inv S ph w k'" using inv by (rule job_invD)
    then show ?thesis by (rule key_inv_other) (use own p others [OF False] False in auto)
  qed
qed

lemma job_step_inv:
  assumes "job_step S (ph, w) (ph', w')" and inv: "job_inv S ph w"
  shows "job_inv S ph' w'"
  using assms(1)
proof (cases rule: job_step_cases)
  case (claim i now k L)
  show ?thesis unfolding job_inv_def claim(3,4)
  proof
    fix k'
    have ki: "key_inv S ph w k'" using inv by (rule job_invD)
    show "key_inv S (ph(i := Owning k)) (w\<lparr>mw_ledger := L\<rparr>) k'"
    proof (cases "k' = k")
      case True
      then show ?thesis using key_inv_claim [where ph = ph and i = i and w = w and k = k, OF job_invD [OF inv] claim(1,2)]
        by simp
    next
      case False
      with ki show ?thesis
        by (intro key_inv_other) (auto simp: claim(1) row_of_def map_of_claim(1) [OF claim(2)])
    qed
  qed
next
  case (render i k m)
  have own: "owned (ph i) = Some k" by (simp add: render(1))
  show ?thesis unfolding render(3,4)
  proof (rule job_inv_local [OF inv own])
    show "key_inv S (ph(i := Sending k (m\<lparr>em_idempotency_key := Some k\<rparr>)))
      (w\<lparr>mw_ledger := store_payload k (payload_from_message m) (mw_ledger w)\<rparr>) k"
    proof (rule key_invD [OF job_invD [OF inv] own])
      fix d assume d: "row_of w k = Some d" "d_status d = Claimed" "\<And>j. owned (ph j) = Some k \<longleftrightarrow> j = i"
        "\<And>c m out. (c, m, out) \<in> set (calls_for w k) \<Longrightarrow>
           d_payload d = Some (payload_from_message m) \<and> em_idempotency_key m = Some k"
      have "d_payload d = None" using render(2) d(1) by (simp add: read_payload_def row_of_def)
      then have none: "calls_for w k = []" using d(4) by (cases "calls_for w k") force+
      then have zero: "accepted w k = 0" by (simp add: accepted_def)
      have "payload_from_message (m\<lparr>em_idempotency_key := Some k\<rparr>) = payload_from_message m"
        by (simp add: payload_from_message_def)
      then show ?thesis
        by (intro key_inv_owner [OF job_invD [OF inv] own, where d' = "d\<lparr>d_payload := Some (payload_from_message m)\<rparr>"])
           (use d(1,2) none zero in \<open>auto simp: row_of_def store_payload_def may_call_owner [OF d(3)] render(1)
             payload_ok_def\<close>)
    qed
  qed (auto simp: store_payload_def row_of_def)
next
  case (reuse i k p m)
  have own: "owned (ph i) = Some k" by (simp add: reuse(1))
  show ?thesis unfolding reuse(4,5)
  proof (rule job_inv_local [OF inv own])
    show "key_inv S (ph(i := Sending k (m\<lparr>em_idempotency_key := Some k\<rparr>))) w k"
    proof (rule key_invD [OF job_invD [OF inv] own])
      fix d assume d: "row_of w k = Some d" "d_status d = Claimed" "\<And>j. owned (ph j) = Some k \<longleftrightarrow> j = i"
        "accepted w k \<le> 1" "accepted w k = 1 \<Longrightarrow> ph i = Recording k Accepted"
        "\<And>c m out. (c, m, out) \<in> set (calls_for w k) \<Longrightarrow>
           d_payload d = Some (payload_from_message m) \<and> em_idempotency_key m = Some k" "payload_ok d"
      have p: "d_payload d = Some p" using reuse(2) d(1) by (simp add: read_payload_def row_of_def)
      then obtain m0 where "p = payload_from_message m0" using d(7) by (auto simp: payload_ok_def)
      with reuse(3) have "payload_from_message (m\<lparr>em_idempotency_key := Some k\<rparr>) = p"
        by (auto simp: payload_round_trip) (simp add: payload_from_message_def)
      with p d show ?thesis
        by (intro key_inv_owner [OF job_invD [OF inv] own, where d' = d])
           (auto simp: may_call_owner [OF d(3)] reuse(1))
    qed
  qed auto
next
  case (skip i k now why)
  have own: "owned (ph i) = Some k" by (simp add: skip(1))
  show ?thesis unfolding skip(3,4)
  proof (rule job_inv_local [OF inv own])
    show "key_inv S (ph(i := Ready)) (w\<lparr>mw_ledger := mark_skipped now k why (mw_ledger w)\<rparr>) k"
    proof (rule key_invD [OF job_invD [OF inv] own])
      fix d assume d: "row_of w k = Some d" "accepted w k = 1 \<Longrightarrow> ph i = Recording k Accepted"
      then have "accepted w k \<noteq> 1" using skip(1) by auto
      with d show ?thesis
        by (intro key_inv_leave [OF job_invD [OF inv] own,
            where d' = "d\<lparr>d_status := SkippedMail, d_error := Some why\<rparr>"])
           (auto simp: row_of_def mark_skipped_def finish_delivery_def)
    qed
  qed (auto simp: mark_skipped_def finish_delivery_def row_of_def)
next
  case (send i k m out)
  have own: "owned (ph i) = Some k" by (simp add: send(1))
  show ?thesis unfolding send(2,3)
  proof (rule job_inv_local [OF inv own])
    show "key_inv S (ph(i := Recording k out)) (w\<lparr>mw_calls := mw_calls w @ [(k, m, out)]\<rparr>) k"
    proof (rule key_invD [OF job_invD [OF inv] own])
      fix d assume d: "row_of w k = Some d" "d_status d = Claimed" "\<And>j. owned (ph j) = Some k \<longleftrightarrow> j = i"
        "accepted w k \<le> 1" "accepted w k = 1 \<Longrightarrow> ph i = Recording k Accepted"
        "\<And>m. ph i = Sending k m \<Longrightarrow> d_payload d = Some (payload_from_message m) \<and> em_idempotency_key m = Some k"
        "\<And>c m out. (c, m, out) \<in> set (calls_for w k) \<Longrightarrow>
           d_payload d = Some (payload_from_message m) \<and> em_idempotency_key m = Some k" "payload_ok d"
      have "accepted w k \<noteq> 1" using d(5) send(1) by auto
      then have zero: "accepted w k = 0" using d(4) by linarith
      show ?thesis
        by (rule key_inv_owner [OF job_invD [OF inv] own, where d' = d])
           (use d(1,2,6,7,8) zero in \<open>auto simp: may_call_owner [OF d(3)] send(1) split: if_splits\<close>)
    qed
  qed auto
next
  case (settle i k out now)
  have own: "owned (ph i) = Some k" by (simp add: settle(1))
  show ?thesis unfolding settle(2,3)
  proof (rule job_inv_local [OF inv own])
    show "key_inv S (ph(i := Ready)) (w\<lparr>mw_ledger := record_outcome_of now k out (mw_ledger w)\<rparr>) k"
    proof (rule key_invD [OF job_invD [OF inv] own])
      fix d assume d: "row_of w k = Some d" "d_status d = Claimed" "accepted w k = 1 \<Longrightarrow> ph i = Recording k Accepted"
      then have "accepted w k = 1 \<Longrightarrow> out = Accepted" using settle(1) by auto
      with d show ?thesis
        by (cases out; intro key_inv_leave [OF job_invD [OF inv] own,
            where d' = "the (map_of (record_outcome_of now k out (mw_ledger w)) k)"])
           (auto simp: row_of_def mark_sent_def mark_failed_def finish_delivery_def)
    qed
  qed (cases out; auto simp: mark_sent_def mark_failed_def finish_delivery_def row_of_def)+
next
  case (crash i)
  show ?thesis
  proof (cases "owned (ph i)")
    case None
    show ?thesis unfolding job_inv_def crash
      using job_invD [OF inv] None by (auto intro!: key_inv_other)
  next
    case (Some k)
    show ?thesis unfolding crash
    proof (rule job_inv_local [OF inv Some])
      show "key_inv S (ph(i := Ready)) w k"
      proof (rule key_invD [OF job_invD [OF inv] Some])
        fix d assume "row_of w k = Some d" "d_status d = Claimed"
        then show ?thesis by (intro key_inv_leave [OF job_invD [OF inv] Some, where d' = d]) auto
      qed
    qed auto
  qed
qed

lemma no_mail_inv: "job_inv S (\<lambda>_. Ready) no_mail"
  by (simp add: job_inv_def key_inv_def row_of_def no_mail_def calls_for_def)

lemma job_steps_inv:
  assumes "job_steps S s s'" and "job_inv S (fst s) (snd s)"
  shows "job_inv S (fst s') (snd s')"
  using assms unfolding job_steps_def
proof induction
  case (step s1 s2)
  then show ?case using job_step_inv [of S "fst s1" "snd s1" "fst s2" "snd s2"] by simp
qed simp

section \<open>The sweep is a run of one worker\<close>

lemma job_stepsI: "job_step S s s' \<Longrightarrow> job_steps S s s'"
  unfolding job_steps_def by (rule r_into_rtranclp)

lemma job_steps_trans: "job_steps S s1 s2 \<Longrightarrow> job_steps S s2 s3 \<Longrightarrow> job_steps S s1 s3"
  unfolding job_steps_def by (rule rtranclp_trans)

lemma job_steps_refl [simp]: "job_steps S s s"
  by (simp add: job_steps_def)

lemma send_is_a_run:
  assumes "send_and_record E now k m w = (r, w')" and "ph i = Sending k (m\<lparr>em_idempotency_key := Some k\<rparr>)"
  shows "job_steps (se_settings E) (ph, w) (ph(i := Ready), w')"
proof -
  let ?msg = "m\<lparr>em_idempotency_key := Some k\<rparr>"
  let ?out = "se_send E (length (mw_calls w)) ?msg"
  let ?w1 = "w\<lparr>mw_calls := mw_calls w @ [(k, ?msg, ?out)]\<rparr>"
  have one: "job_step (se_settings E) (ph, w) (ph(i := Recording k ?out), ?w1)"
    by (rule job_step.send [where ph = ph and i = i, OF assms(2)])
  have "w' = ?w1\<lparr>mw_ledger := record_outcome_of now k ?out (mw_ledger ?w1)\<rparr>"
    using assms(1) by (cases ?out) (auto simp: send_and_record_def Let_def)
  moreover have "job_step (se_settings E) (ph(i := Recording k ?out), ?w1)
      ((ph(i := Recording k ?out))(i := Ready), ?w1\<lparr>mw_ledger := record_outcome_of now k ?out (mw_ledger ?w1)\<rparr>)"
    by (rule job_step.settle) simp
  ultimately show ?thesis using job_stepsI [OF one] job_stepsI by (auto intro: job_steps_trans)
qed

lemma work_is_a_run:
  assumes "work_candidate E now kind c w = (r, w')" and "ph i = Owning (delivery_idempotency_key kind c)"
  shows "job_steps (se_settings E) (ph, w) (ph(i := Ready), w')"
proof -
  let ?k = "delivery_idempotency_key kind c" and ?S = "se_settings E"
  have stop: "job_steps ?S (ph, w) (ph(i := Ready), w)" by (rule job_stepsI, rule job_step.crash)
  have sent: "job_steps ?S (ph, w) (ph(i := Ready), w')"
    if r: "job_step ?S (ph, w) (ph(i := Sending ?k (m\<lparr>em_idempotency_key := Some ?k\<rparr>)), w1)"
      and s: "send_and_record E now ?k m w1 = (r, w')" for m w1
  proof -
    have "job_steps ?S (ph(i := Sending ?k (m\<lparr>em_idempotency_key := Some ?k\<rparr>)), w1)
        ((ph(i := Sending ?k (m\<lparr>em_idempotency_key := Some ?k\<rparr>)))(i := Ready), w')"
      by (rule send_is_a_run [OF s]) simp
    with job_stepsI [OF r] show ?thesis by (auto intro: job_steps_trans)
  qed
  show ?thesis
  proof (cases "read_payload ?k (mw_ledger w)")
    case (Some p)
    show ?thesis
    proof (cases "message_from_payload p")
      case (Inl e)
      with Some assms(1) stop show ?thesis by (simp add: work_candidate_def Let_def)
    next
      case (Inr m)
      with Some assms(1) show ?thesis
        by (intro sent [OF job_step.reuse [where ph = ph and i = i, OF assms(2) Some Inr]]) (simp add: work_candidate_def Let_def)
    qed
  next
    case None
    consider (err) e where "se_build E c = Inl e" | (nothing) "se_build E c = Inr None"
      | (mail) m where "se_build E c = Inr (Some m)"
      by (cases "se_build E c") auto
    then show ?thesis
    proof cases
      case err
      with None assms(1) stop show ?thesis by (simp add: work_candidate_def Let_def)
    next
      case nothing
      then show ?thesis using job_step.skip [where ph = ph and i = i, OF assms(2) None, of ?S now "''nothing to report''"] None assms(1)
        by (auto simp: work_candidate_def Let_def intro: job_stepsI)
    next
      case mail
      with None assms(1) show ?thesis
        by (intro sent [OF job_step.render [where ph = ph and i = i, OF assms(2) None]]) (simp add: work_candidate_def Let_def)
    qed
  qed
qed

lemma sweep_is_a_run:
  assumes "sweep_loop E now kind cs n r w = (r', w')" and "ph i = Ready"
  shows "job_steps (se_settings E) (ph, w) (ph, w')"
  using assms(1)
proof (induction cs arbitrary: n r w)
  case (Cons c cs)
  let ?k = "delivery_idempotency_key kind c" and ?S = "se_settings E"
  show ?case
  proof (cases "EMAIL_MAX_SENDS_PER_TICK ?S \<le> n \<or> se_claim_raises E c")
    case True
    with Cons show ?thesis by (auto split: if_splits)
  next
    case False
    obtain ok L where cl: "claim_period ?S now ?k (mw_ledger w) = (ok, L)" by fastforce
    show ?thesis
    proof (cases ok)
      case no: False
      with cl False Cons show ?thesis by simp
    next
      case True
      obtain out w1 where wk: "work_candidate E now kind c (w\<lparr>mw_ledger := L\<rparr>) = (out, w1)" by fastforce
      have "job_step ?S (ph, w) (ph(i := Owning ?k), w\<lparr>mw_ledger := L\<rparr>)"
        by (rule job_step.claim [where ph = ph and i = i, OF assms(2)]) (use cl True in simp)
      moreover have "job_steps ?S (ph(i := Owning ?k), w\<lparr>mw_ledger := L\<rparr>) ((ph(i := Owning ?k))(i := Ready), w1)"
        by (rule work_is_a_run [OF wk]) simp
      moreover have "(ph(i := Owning ?k))(i := Ready) = ph" using assms(2) by auto
      moreover have "job_steps ?S (ph, w1) (ph, w')"
        by (rule Cons.IH [of "n + 1" "tally out r"]) (use Cons.prems False cl True wk in simp)
      ultimately show ?thesis by (metis job_stepsI job_steps_trans)
    qed
  qed
qed simp

section \<open>Properties\<close>

definition sample_mail :: outbound_email where
  "sample_mail = \<lparr>em_to = ''a@b.io'', em_subject = ''s'', em_text = ''t'', em_html = ''h'',
     em_dev_link = None, em_idempotency_key = None, em_headers = []\<rparr>"

definition sample_sweep_env :: sweep_env where
  "sample_sweep_env = \<lparr>se_settings = default_settings, se_build = (\<lambda>_. Inr (Some sample_mail)),
     se_send = (\<lambda>n _. if n = 0 then Refused ''HTTPStatusError 503'' else Accepted),
     se_claim_raises = (\<lambda>_. False)\<rparr>"

definition sample_candidate :: mail_candidate where
  "sample_candidate = \<lparr>mc_user = 7, mc_email = ''a@b.io'', mc_period = Day 3\<rparr>"


definition sample_twice :: mail_world where
  "sample_twice =
     snd (run_sweep sample_sweep_env 5 ''reminder'' [sample_candidate]
       (snd (run_sweep sample_sweep_env 0 ''reminder'' [sample_candidate] no_mail)))"

lemma run_sweep_is_a_run:
  assumes "run_sweep E now kind cs w = (r, w')"
  shows "job_steps (se_settings E) (\<lambda>_. Ready, w) (\<lambda>_. Ready, w')"
  using sweep_is_a_run [of E now kind cs 0 _ w r w' "\<lambda>_. Ready" 0] assms by (simp add: run_sweep_def)


definition accounted :: "sweep_result \<Rightarrow> nat" where
  "accounted r = sr_sent r + sr_skipped r + sr_failed r + sr_not_claimed r + sr_deferred r"

lemma sweep_accounts:
  assumes "sweep_loop E now kind cs n r w = (r', w')" and "sr_deferred r = 0"
  shows "accounted r' = accounted r + length cs \<and> sr_considered r' = sr_considered r"
  using assms
proof (induction cs arbitrary: n r w)
  case (Cons c cs)
  have t: "accounted (tally out r) = Suc (accounted r)" "sr_deferred (tally out r) = sr_deferred r"
    "sr_considered (tally out r) = sr_considered r" for out
    by (cases out; simp add: accounted_def)+
  have u: "accounted (r\<lparr>sr_failed := Suc (sr_failed r)\<rparr>) = Suc (accounted r)"
    "accounted (r\<lparr>sr_not_claimed := Suc (sr_not_claimed r)\<rparr>) = Suc (accounted r)"
    "accounted (r\<lparr>sr_deferred := Suc (length cs)\<rparr>) = accounted r + Suc (length cs)"
    using Cons.prems(2) by (simp_all add: accounted_def)
  show ?case
    using Cons.prems Cons.IH [of _ "r\<lparr>sr_failed := Suc (sr_failed r)\<rparr>"]
      Cons.IH [of _ "r\<lparr>sr_not_claimed := Suc (sr_not_claimed r)\<rparr>"] Cons.IH [of _ "tally out r" for out]
    by (auto simp: t u split: if_splits prod.splits bool.splits)
qed simp


section \<open>Limits of the mechanism\<close>

text \<open>
  The retry window is measured from the last claim, not from the first send: with the default three
  attempts and 24 hours, the third attempt can be made 46 hours after the first.
\<close>

lemma third_attempt_after_46_hours:
  "\<exists>L1 L2 L3. claim_period default_settings t k [] = (True, L1) \<and>
    claim_period default_settings (t + hours_us 23) k (mark_failed (t + 1) k e L1) = (True, L2) \<and>
    claim_period default_settings (t + hours_us 46) k (mark_failed (t + hours_us 23 + 1) k e L2) = (True, L3)"
  by (simp add: claim_period_def default_settings_def mark_failed_def finish_delivery_def change_row_def
      hours_us_def)

text \<open>The preferences patch cannot lift an opt-out of everything.\<close>

lemma enabling_keeps_all:
  assumes "((u, ''all''), why) \<in> set tbl"
  shows "fst (patch_email_prefs u (Some True) (Some True) tbl) = (False, False)"
proof -
  have "((u, ''all''), why) \<in> set (AList.delete (u, k) t)"
    if "k \<noteq> ''all''" "((u, ''all''), why) \<in> set t" for k t
    using that by (auto simp: AList.delete_eq)
  with assms have "''all'' \<in> set (map (\<lambda>((_, k), _). k) (filter (\<lambda>((v, _), _). v = u)
      (unsuppress u ''recap'' (unsuppress u ''reminder'' tbl))))"
    by (force simp: unsuppress_def AList.delete_eq)
  then show ?thesis
    by (simp add: patch_email_prefs_def email_preferences_def suppressed_kinds_def Let_def)
qed

end
