(* ===== verification/Pystring.thy ===== *)
theory Pystring
  imports Json
begin

text \<open>
  The string methods of Python the token and address code uses, on texts of characters below 256.
\<close>

definition code :: "char \<Rightarrow> nat" where
  "code c = of_char c"

definition is_digit :: "char \<Rightarrow> bool" where
  "is_digit c \<longleftrightarrow> 48 \<le> code c \<and> code c \<le> 57"

definition is_upper :: "char \<Rightarrow> bool" where
  "is_upper c \<longleftrightarrow> 65 \<le> code c \<and> code c \<le> 90"

definition is_lower :: "char \<Rightarrow> bool" where
  "is_lower c \<longleftrightarrow> 97 \<le> code c \<and> code c \<le> 122"

definition is_alnum :: "char \<Rightarrow> bool" where
  "is_alnum c \<longleftrightarrow> is_digit c \<or> is_upper c \<or> is_lower c"

text \<open>\<open>s.lower()\<close>: the capital letters of ASCII and of Latin-1.\<close>

definition lower_char :: "char \<Rightarrow> char" where
  "lower_char c =
     (if is_upper c \<or> 192 \<le> code c \<and> code c \<le> 222 \<and> code c \<noteq> 215 then char_of (code c + 32) else c)"

definition lower :: "string \<Rightarrow> string" where
  "lower s = map lower_char s"

text \<open>\<open>s.split(sep)\<close> for a separator of one character.\<close>

fun split_on :: "char \<Rightarrow> string \<Rightarrow> string list" where
  "split_on c [] = [[]]"
| "split_on c (x # xs) =
     (if x = c then [] # split_on c xs
      else (case split_on c xs of [] \<Rightarrow> [[x]] | p # ps \<Rightarrow> (x # p) # ps))"

text \<open>\<open>s.partition(sep)\<close> and \<open>s.rpartition(sep)\<close>; the middle part is whether the separator occurs.\<close>

definition partition_at :: "char \<Rightarrow> string \<Rightarrow> string \<times> bool \<times> string" where
  "partition_at c s = (takeWhile (\<lambda>x. x \<noteq> c) s, c \<in> set s, tl (dropWhile (\<lambda>x. x \<noteq> c) s))"

definition rpartition_at :: "char \<Rightarrow> string \<Rightarrow> string \<times> bool \<times> string" where
  "rpartition_at c s =
     (if c \<in> set s
      then (rev (tl (dropWhile (\<lambda>x. x \<noteq> c) (rev s))), True, rev (takeWhile (\<lambda>x. x \<noteq> c) (rev s)))
      else ([], False, s))"

section \<open>Facts\<close>

lemma char_eq_code: "c = d \<longleftrightarrow> code c = code d"
  by (simp add: code_def)

lemma code_char_of [simp]: "code (char_of n) = n mod 256"
  by (simp add: code_def)

lemma code_lt [simp]: "code c < 256"
  by (metis char_of_char code_char_of code_def mod_less_divisor zero_less_numeral)

lemma code_lower: "code (lower_char c) =
    (if is_upper c \<or> 192 \<le> code c \<and> code c \<le> 222 \<and> code c \<noteq> 215 then code c + 32 else code c)"
  by (auto simp: lower_char_def is_upper_def)

lemma lower_idem [simp]: "lower (lower s) = lower s"
  by (auto simp: lower_def char_eq_code code_lower is_upper_def)

lemma length_lower [simp]: "length (lower s) = length s"
  by (simp add: lower_def)

lemma lower_not_upper: "c \<in> set (lower s) \<Longrightarrow> \<not> is_upper c"
  by (auto simp: lower_def is_upper_def code_lower split: if_splits)

lemma split_on_ne [simp]: "split_on c s \<noteq> []"
  by (induction s) (auto split: list.splits)

lemma split_on_no_sep: "p \<in> set (split_on c s) \<Longrightarrow> c \<notin> set p"
  by (induction s arbitrary: p) (auto split: list.splits if_splits)

lemma split_on_chars: "p \<in> set (split_on c s) \<Longrightarrow> set p \<subseteq> set s"
  by (induction s arbitrary: p) (fastforce split: list.splits if_splits)+

lemma split_on_covers: "x \<in> set s \<Longrightarrow> x \<noteq> c \<Longrightarrow> \<exists>p\<in>set (split_on c s). x \<in> set p"
  by (induction s) (fastforce split: list.splits)+

lemma split_on_single: "c \<notin> set s \<Longrightarrow> split_on c s = [s]"
  by (induction s) auto

lemma split_on_cons: "c \<notin> set p \<Longrightarrow> split_on c (p @ c # s) = p # split_on c s"
  by (induction p) auto

lemma split_on_map:
  assumes "\<And>x. x \<in> set s \<Longrightarrow> f x = c \<longleftrightarrow> x = c"
  shows "split_on c (map f s) = map (map f) (split_on c s)"
  using assms by (induction s) (auto split: list.splits)

lemma partition_at_append: "c \<notin> set p \<Longrightarrow> partition_at c (p @ c # s) = (p, True, s)"
  by (induction p) (auto simp: partition_at_def)

lemma split_on_Cons2: "split_on c s = p # q # ps \<Longrightarrow> \<exists>s'. s = p @ c # s' \<and> split_on c s' = q # ps"
proof (induction s arbitrary: p)
  case (Cons x s)
  show ?case
  proof (cases "x = c")
    case False
    then obtain p' where "split_on c s = p' # q # ps" "p = x # p'"
      using Cons.prems by (auto split: list.splits)
    with Cons.IH show ?thesis by fastforce
  qed (use Cons.prems in auto)
qed simp

lemma split_on_Cons1: "split_on c s = [p] \<Longrightarrow> s = p"
  by (induction s arbitrary: p) (auto split: if_splits list.splits)

lemma partition_at_eq:
  "c \<in> set s \<Longrightarrow> partition_at c s = (p, b, d) \<Longrightarrow> s = p @ c # d"
  using partition_at_append [of c] by (auto dest!: split_list_first)

lemma rpartition_at_append:
  assumes "c \<notin> set s" shows "rpartition_at c (p @ c # s) = (p, True, s)"
proof -
  have "takeWhile (\<lambda>x. x \<noteq> c) (rev s @ c # rev p) = rev s"
    and "dropWhile (\<lambda>x. x \<noteq> c) (rev s @ c # rev p) = c # rev p"
    using assms by (auto simp: takeWhile_append dropWhile_append)
  then show ?thesis by (simp add: rpartition_at_def)
qed

lemma rpartition_atE:
  assumes "rpartition_at c s = (p, True, d)"
  obtains "s = p @ c # d" and "c \<notin> set d"
proof -
  have c: "c \<in> set s" using assms by (simp add: rpartition_at_def split: if_splits)
  then obtain u v where s: "s = u @ c # v" "c \<notin> set v" by (auto dest: split_list_last)
  then have "(p, True, d) = (u, True, v)" using assms rpartition_at_append by metis
  with s show ?thesis using that by simp
qed

end
