(* ===== verification/Address.thy ===== *)
theory Address
  imports Pystring
begin

text \<open>
  Validation of an email address, \<open>email/address.py\<close>. The two regular expressions are written as
  predicates on the text they accept: dot-separated runs of allowed characters, and a label that
  starts and ends with a letter or digit.
\<close>

definition control_char :: "char \<Rightarrow> bool" where
  "control_char c \<longleftrightarrow> code c < 32 \<or> code c = 127"

definition local_char :: "char \<Rightarrow> bool" where
  "local_char c \<longleftrightarrow> is_alnum c \<or> c \<in> set ''!#$%&*+/=?^_{|}~-'' \<or> code c = 39 \<or> code c = 96"

definition local_match :: "string \<Rightarrow> bool" where
  "local_match s \<longleftrightarrow> (\<forall>p\<in>set (split_on (CHR ''.'') s). p \<noteq> [] \<and> (\<forall>c\<in>set p. local_char c))"

definition label_match :: "string \<Rightarrow> bool" where
  "label_match s \<longleftrightarrow> s \<noteq> [] \<and> is_alnum (hd s) \<and> is_alnum (last s) \<and>
     (\<forall>c\<in>set s. is_alnum c \<or> c = CHR ''-'')"

definition max_email_length :: nat where "max_email_length = 254"
definition max_local_length :: nat where "max_local_length = 64"

definition invalid_email :: "string \<Rightarrow> 'a result" where
  "invalid_email msg = Inl (ValueError msg)"

definition looks_wrong :: string where "looks_wrong = ''That email address doesn't look right.''"
definition too_long :: string where "too_long = ''That email address is too long.''"

definition normalize_email :: "string \<Rightarrow> string result" where
  "normalize_email raw =
     (let s = strip raw in
      if s = [] then invalid_email ''Enter an email address.''
      else if \<exists>c\<in>set s. control_char c
      then invalid_email ''That email address contains characters we can't accept.''
      else if max_email_length < length s then invalid_email too_long
      else if \<exists>c\<in>set s. py_space c then invalid_email looks_wrong
      else
        (case rpartition_at (CHR ''@'') s of
           (loc, sep, domain) \<Rightarrow>
             if \<not> sep \<or> loc = [] \<or> domain = [] then invalid_email looks_wrong
             else if max_local_length < length loc then invalid_email too_long
             else if \<not> local_match loc then invalid_email looks_wrong
             else
               (let labels = split_on (CHR ''.'') domain in
                if length labels < 2 \<or> \<not> (\<forall>l\<in>set labels. label_match l) then invalid_email looks_wrong
                else if length (last labels) < 2 then invalid_email looks_wrong
                else Inr (lower s))))"

definition mask_email :: "string \<Rightarrow> string" where
  "mask_email v =
     (case rpartition_at (CHR ''@'') v of
        (loc, sep, domain) \<Rightarrow>
          if \<not> sep then ''***''
          else if length loc \<le> 2 then take 1 loc @ ''***@'' @ domain
          else [hd loc] @ ''***'' @ [last loc] @ ''@'' @ domain)"

section \<open>What an accepted address looks like\<close>

lemma code_lits [simp]: "code (CHR ''.'') = 46" "code (CHR ''@'') = 64" "code (CHR ''-'') = 45"
  by (simp_all add: code_def)

lemma lower_ascii:
  assumes "code c < 128"
  shows "code (lower_char c) = (if is_upper c then code c + 32 else code c)"
  using assms by (simp add: code_lower)

lemma lower_char_sep:
  assumes "code c < 128" and "d = CHR ''.'' \<or> d = CHR ''@'' \<or> d = CHR ''-''"
  shows "lower_char c = d \<longleftrightarrow> c = d"
  using assms by (auto simp: char_eq_code lower_ascii is_upper_def)

lemma is_alnum_lower: "code c < 128 \<Longrightarrow> is_alnum (lower_char c) \<longleftrightarrow> is_alnum c"
  by (auto simp: is_alnum_def is_digit_def is_upper_def is_lower_def lower_ascii)

lemma local_char_code: "local_char c \<Longrightarrow> 33 \<le> code c \<and> code c < 127 \<and> c \<noteq> CHR ''@'' \<and> c \<noteq> CHR ''.''"
  by (auto simp: local_char_def is_alnum_def is_digit_def is_upper_def is_lower_def char_eq_code)
     (auto simp: code_def)

lemma local_char_lower: "local_char c \<Longrightarrow> local_char (lower_char c)"
proof -
  assume c: "local_char c"
  show ?thesis
  proof (cases "is_upper c")
    case True
    then have "is_alnum (lower_char c)" using local_char_code [OF c] is_alnum_lower [of c]
      by (simp add: is_alnum_def)
    then show ?thesis by (simp add: local_char_def)
  next
    case False
    then have "lower_char c = c" using local_char_code [OF c] by (simp add: char_eq_code lower_ascii)
    with c show ?thesis by simp
  qed
qed

lemma split_on_lower:
  assumes "\<forall>c\<in>set s. code c < 128"
  shows "split_on (CHR ''.'') (lower s) = map lower (split_on (CHR ''.'') s)"
  using assms unfolding lower_def by (intro split_on_map) (simp add: lower_char_sep)

lemma local_match_code: "local_match s \<Longrightarrow> c \<in> set s \<Longrightarrow> 33 \<le> code c \<and> code c < 127 \<and> c \<noteq> CHR ''@''"
proof (cases "c = CHR ''.''")
  case False
  assume "local_match s" "c \<in> set s"
  then have "local_char c" using split_on_covers [of c s "CHR ''.''"] False by (auto simp: local_match_def)
  then show ?thesis by (simp add: local_char_code)
qed (simp add: char_eq_code)

lemma local_match_lower: "local_match s \<Longrightarrow> local_match (lower s)"
proof -
  assume m: "local_match s"
  then have "\<forall>c\<in>set s. code c < 128" using local_match_code [of s] by fastforce
  with m show ?thesis
    by (auto simp: local_match_def split_on_lower) (auto simp: lower_def local_char_lower)
qed

definition labels_match :: "string \<Rightarrow> bool" where
  "labels_match d \<longleftrightarrow> 2 \<le> length (split_on (CHR ''.'') d) \<and> (\<forall>l\<in>set (split_on (CHR ''.'') d). label_match l) \<and>
     2 \<le> length (last (split_on (CHR ''.'') d))"

lemma label_match_code: "label_match l \<Longrightarrow> c \<in> set l \<Longrightarrow> 45 \<le> code c \<and> code c < 123 \<and> c \<noteq> CHR ''@''"
  by (auto simp: label_match_def is_alnum_def is_digit_def is_upper_def is_lower_def char_eq_code)

lemma labels_match_code: "labels_match d \<Longrightarrow> c \<in> set d \<Longrightarrow> 45 \<le> code c \<and> code c < 123 \<and> c \<noteq> CHR ''@''"
proof (cases "c = CHR ''.''")
  case False
  assume "labels_match d" "c \<in> set d"
  then obtain l where "label_match l" "c \<in> set l"
    using split_on_covers [of c d "CHR ''.''"] False by (auto simp: labels_match_def)
  then show ?thesis by (rule label_match_code)
qed (simp add: char_eq_code)

lemma label_match_lower: "label_match l \<Longrightarrow> label_match (lower l)"
proof -
  assume m: "label_match l"
  have "code c < 128" if "c \<in> set l" for c using label_match_code [OF m that] by simp
  with m show ?thesis
    by (auto simp: label_match_def lower_def hd_map last_map is_alnum_lower lower_char_sep)
qed

lemma labels_match_lower: "labels_match d \<Longrightarrow> labels_match (lower d)"
proof -
  assume m: "labels_match d"
  have "\<forall>c\<in>set d. code c < 128" using labels_match_code [OF m] by fastforce
  with m show ?thesis by (auto simp: labels_match_def split_on_lower label_match_lower last_map)
qed

lemma normalize_emailE:
  assumes "normalize_email raw = Inr v"
  obtains l d where "strip raw = l @ CHR ''@'' # d" and "l \<noteq> []" and "local_match l" and "labels_match d"
    and "length l \<le> 64" and "length (strip raw) \<le> 254" and "v = lower (strip raw)"
proof -
  obtain l sep d where r: "rpartition_at (CHR ''@'') (strip raw) = (l, sep, d)" by (metis prod_cases3)
  with assms have "sep" and other: "l \<noteq> []" "local_match l" "labels_match d" "length l \<le> 64"
      "length (strip raw) \<le> 254" "v = lower (strip raw)"
    by (auto simp: normalize_email_def Let_def invalid_email_def labels_match_def not_less
        max_email_length_def max_local_length_def split: if_splits)
  then have "strip raw = l @ CHR ''@'' # d" using r by (auto elim: rpartition_atE)
  then show ?thesis using other by (rule that)
qed

lemma normalize_emailI:
  assumes "l \<noteq> []" and "local_match l" and "labels_match d" and "length l \<le> 64"
    and "length l + length d < 254"
  shows "normalize_email (l @ CHR ''@'' # d) = Inr (lower (l @ CHR ''@'' # d))"
proof -
  let ?s = "l @ CHR ''@'' # d"
  have plain: "33 \<le> code c \<and> code c < 127" if "c \<in> set ?s" for c
    using that local_match_code [OF assms(2), of c] labels_match_code [OF assms(3), of c] by auto
  then have ns: "\<not> py_space c" and nc: "\<not> control_char c" if "c \<in> set ?s" for c
    using that by (force simp: py_space_def control_char_def code_def Let_def)+
  have "strip xs = xs" if "\<And>c. c \<in> set xs \<Longrightarrow> \<not> py_space c" for xs
  proof -
    have "dropWhile py_space ys = ys" if "set ys = set xs" for ys
      using that \<open>\<And>c. c \<in> set xs \<Longrightarrow> \<not> py_space c\<close> by (cases ys) auto
    then show ?thesis by (simp add: strip_def lstrip_def)
  qed
  then have st: "strip ?s = ?s" using ns by blast
  have d: "CHR ''@'' \<notin> set d" using labels_match_code [OF assms(3)] by blast
  have "d \<noteq> []" using assms(3) by (auto simp: labels_match_def)
  with assms st ns nc show ?thesis
    by (simp add: normalize_email_def Let_def rpartition_at_append [OF d] labels_match_def
        max_email_length_def max_local_length_def not_less)
qed

lemma normalize_emailD:
  assumes "normalize_email raw = Inr v"
  obtains l d where "v = l @ CHR ''@'' # d" and "l \<noteq> []" and "local_match l" and "labels_match d"
    and "length l \<le> 64" and "length v \<le> 254" and "lower v = v"
proof -
  obtain l d where s: "strip raw = l @ CHR ''@'' # d" and l: "l \<noteq> []" "local_match l" "length l \<le> 64"
    and d: "labels_match d" and len: "length (strip raw) \<le> 254" and v: "v = lower (strip raw)"
    using assms by (rule normalize_emailE)
  have "v = lower l @ CHR ''@'' # lower d"
    using v s lower_char_sep [of "CHR ''@''"] by (simp add: lower_def)
  moreover have "lower l \<noteq> []" using l(1) by (simp add: lower_def)
  moreover have "length (lower l) \<le> 64" using l(3) by simp
  moreover have "length v \<le> 254" "lower v = v" using len v by simp_all
  ultimately show ?thesis using local_match_lower [OF l(2)] labels_match_lower [OF d] that by blast
qed

lemma normalize_email_idem:
  assumes "normalize_email raw = Inr v" shows "normalize_email v = Inr v"
proof -
  obtain l d where "v = l @ CHR ''@'' # d" "l \<noteq> []" "local_match l" "labels_match d" "length l \<le> 64"
    "length v \<le> 254" and low: "lower v = v" using assms by (rule normalize_emailD)
  then have "normalize_email v = Inr (lower v)" by (simp add: normalize_emailI)
  with low show ?thesis by simp
qed

text \<open>
  An accepted address is a canonical text: one local part of dot-separated runs, one at sign, at
  least two labels, all of it printable ASCII without a capital letter, so that no header can be
  injected through it; and normalising it again gives the same text.
\<close>

theorem normalized_email_is_canonical:
  assumes "normalize_email raw = Inr v"
  shows "normalize_email v = Inr v \<and> length v \<le> 254 \<and>
    (\<forall>c\<in>set v. 33 \<le> code c \<and> code c < 127 \<and> \<not> is_upper c) \<and>
    (\<exists>l d. v = l @ CHR ''@'' # d \<and> CHR ''@'' \<notin> set l \<union> set d \<and> 1 \<le> length l \<and> length l \<le> 64 \<and>
       local_match l \<and> 2 \<le> length (split_on (CHR ''.'') d))"
proof -
  obtain l d where v: "v = l @ CHR ''@'' # d" and ne: "l \<noteq> []" and l: "local_match l" and d: "labels_match d"
    and len: "length l \<le> 64" "length v \<le> 254" and low: "lower v = v" using assms by (rule normalize_emailD)
  have "\<not> is_upper c" if "c \<in> set v" for c using that lower_not_upper [of c v] low by simp
  moreover have "33 \<le> code c \<and> code c < 127" if "c \<in> set v" for c
    using that local_match_code [OF l, of c] labels_match_code [OF d, of c] by (auto simp: v)
  moreover have "CHR ''@'' \<notin> set l \<union> set d"
    using local_match_code [OF l] labels_match_code [OF d] by blast
  moreover have "1 \<le> length l" using ne by (cases l) simp_all
  moreover have "2 \<le> length (split_on (CHR ''.'') d)" using d by (simp add: labels_match_def)
  ultimately show ?thesis using v l len normalize_email_idem [OF assms] by blast
qed

lemma normalized_email_is_canonical_witness:
  "length (''alice.b@example.com'' :: string) \<le> 254 \<and> normalize_email ''alice.b@example.com'' = Inr ''alice.b@example.com''"
proof -
  have "normalize_email '' Alice.B@Example.com '' = Inr ''alice.b@example.com''" by code_simp
  from normalized_email_is_canonical [OF this] show ?thesis by blast
qed

end
