(* ===== verification/Accounts.thy ===== *)
theory Accounts
  imports Store Address
begin

text \<open>
  The identity tables (\<open>models/identity.py\<close>) and the operations on a user row that the components
  over them share. Texts compared by the database without regard to case (\<open>citext\<close>) are compared here
  after \<open>lower\<close>. A table is the list of its rows in the order of insertion.
\<close>

record account =
  acc_id :: uid
  acc_username :: string
  acc_display_name :: "string option"
  acc_avatar_url :: "string option"
  acc_timezone :: string
  acc_level :: string
  acc_onboarded :: bool
  acc_beta_allowed :: bool
  acc_reminder_time :: "int option"
  acc_email :: "string option"
  acc_email_verified_at :: "instant option"
  acc_pending_email :: "string option"
  acc_deleted_at :: "instant option"

record auth_identity =
  ai_user :: uid
  ai_provider_user_id :: string
  ai_provider_login :: string
  ai_access_token_enc :: string
  ai_token_scopes :: "string option"

record refresh_token =
  rt_id :: nat
  rt_user :: uid
  rt_family :: nat
  rt_token_hash :: string
  rt_issued_at :: instant
  rt_expires_at :: instant
  rt_rotated_at :: "instant option"
  rt_revoked_at :: "instant option"

record verification_token =
  vt_user :: uid
  vt_email :: string
  vt_token_hash :: string
  vt_expires_at :: instant
  vt_consumed_at :: "instant option"
  vt_invalidated_at :: "instant option"

record identity_db =
  accounts :: "account list"
  identities :: "auth_identity list"
  refresh_tokens :: "refresh_token list"
  verification_tokens :: "verification_token list"
  beta_invites :: "string list"

definition citext_eq :: "string \<Rightarrow> string \<Rightarrow> bool" where
  "citext_eq a b \<longleftrightarrow> lower a = lower b"

text \<open>\<open>session.get(User, id)\<close> and the write back of a changed row.\<close>

definition find_account :: "uid \<Rightarrow> identity_db \<Rightarrow> account option" where
  "find_account u db = find (\<lambda>a. acc_id a = u) (accounts db)"

definition change_account :: "uid \<Rightarrow> (account \<Rightarrow> account) \<Rightarrow> identity_db \<Rightarrow> identity_db" where
  "change_account u f db = db\<lparr>accounts := map (\<lambda>a. if acc_id a = u then f a else a) (accounts db)\<rparr>"

section \<open>Facts\<close>

lemma find_account_SomeD: "find_account u db = Some a \<Longrightarrow> a \<in> set (accounts db) \<and> acc_id a = u"
  by (auto simp: find_account_def dest: find_SomeD)

lemma find_account_unique:
  "distinct (map acc_id (accounts db)) \<Longrightarrow> a \<in> set (accounts db) \<Longrightarrow> find_account (acc_id a) db = Some a"
  unfolding find_account_def
  by (metis (mono_tags, lifting) distinct_map_filter_eq find_SomeD find_Some_iff_set)

lemma find_account_change:
  assumes "\<And>a. acc_id (f a) = acc_id a"
  shows "find_account v (change_account u f db) = map_option (\<lambda>a. if v = u then f a else a) (find_account v db)"
proof -
  have "find (\<lambda>a. acc_id a = v) (map (\<lambda>a. if acc_id a = u then f a else a) xs) =
      map_option (\<lambda>a. if v = u then f a else a) (find (\<lambda>a. acc_id a = v) xs)" for xs
    using assms by (induction xs) auto
  then show ?thesis by (simp add: find_account_def change_account_def)
qed

lemma change_account_simps [simp]:
  "identities (change_account u f db) = identities db"
  "refresh_tokens (change_account u f db) = refresh_tokens db"
  "verification_tokens (change_account u f db) = verification_tokens db"
  "beta_invites (change_account u f db) = beta_invites db"
  by (simp_all add: change_account_def)

lemma accounts_change:
  "accounts (change_account u f db) = map (\<lambda>a. if acc_id a = u then f a else a) (accounts db)"
  by (simp add: change_account_def)

lemma in_change_account:
  "a \<in> set (accounts (change_account u f db)) \<longleftrightarrow>
    (\<exists>a0\<in>set (accounts db). a = (if acc_id a0 = u then f a0 else a0))"
  unfolding accounts_change set_map image_iff by blast

lemma in_change_accountE:
  assumes "a \<in> set (accounts (change_account u f db))"
  obtains a0 where "a0 \<in> set (accounts db)" and "a = (if acc_id a0 = u then f a0 else a0)"
  using assms unfolding in_change_account by blast

lemma ids_change_account:
  "(\<And>a. acc_id (f a) = acc_id a) \<Longrightarrow> map acc_id (accounts (change_account u f db)) = map acc_id (accounts db)"
  by (simp add: change_account_def)

end
