(* ===== verification/Verify.thy ===== *)
theory Verify
  imports Accounts Config
begin

text \<open>
  Email capture and verification, \<open>email/service.py\<close>. An operation is one transaction on the identity
  tables, next to its commands on Redis; an error rolls the transaction back and leaves the Redis
  commands done. The digests, the raw token of a call and the answer of the mail provider are
  parameters.
\<close>

record verify_env =
  ve_settings :: settings
  ve_digest :: "string \<Rightarrow> string"
  ve_address_digest :: "string \<Rightarrow> string"
  ve_send_ok :: "string \<Rightarrow> string \<Rightarrow> bool"

definition verify_failure :: exn where
  "verify_failure = ApiError 400 ''verification_failed''"

definition enforce_send_throttle ::
    "verify_env \<Rightarrow> instant \<Rightarrow> uid \<Rightarrow> string \<Rightarrow> rstore \<Rightarrow> unit result \<times> rstore" where
  "enforce_send_throttle E now u email s =
     (let S = ve_settings E; d = ve_address_digest E email;
          (claimed, s1) = rset_nx s now (EmailKey ''cooldown:addr'' d) Flag
                            (seconds (EMAIL_VERIFICATION_RESEND_COOLDOWN_S S)) in
      if \<not> claimed then (Inl (ApiError 429 ''rate_limited''), s1)
      else
        (let (r, s2) = check_token_bucket s1 now (UserBucket ''rl:emailsend:user'' u)
                         (int (EMAIL_VERIFICATION_SENDS_PER_HOUR S)) 3600 in
         if \<not> rl_allowed r then (Inl (ApiError 429 ''rate_limited''), s2)
         else
           (let (r', s3) = check_token_bucket s2 now (BucketKey (''emailsend:addr:'' @ d))
                             (int (EMAIL_VERIFICATION_SENDS_PER_HOUR S)) 3600 in
            (if rl_allowed r' then Inr () else Inl (ApiError 429 ''rate_limited''), s3))))"

definition outstanding :: "verification_token \<Rightarrow> bool" where
  "outstanding t \<longleftrightarrow> vt_consumed_at t = None \<and> vt_invalidated_at t = None"

definition stamp_invalidated :: "instant \<Rightarrow> uid \<Rightarrow> verification_token \<Rightarrow> verification_token" where
  "stamp_invalidated now u t =
     (if vt_user t = u \<and> outstanding t then t\<lparr>vt_invalidated_at := Some now\<rparr> else t)"

definition invalidate_outstanding :: "instant \<Rightarrow> uid \<Rightarrow> identity_db \<Rightarrow> identity_db" where
  "invalidate_outstanding now u db =
     db\<lparr>verification_tokens := map (stamp_invalidated now u) (verification_tokens db)\<rparr>"

definition issue_and_send ::
    "verify_env \<Rightarrow> instant \<Rightarrow> uid \<Rightarrow> string \<Rightarrow> string \<Rightarrow> identity_db \<Rightarrow> identity_db result" where
  "issue_and_send E now u email raw_token db =
     (let db1 = invalidate_outstanding now u db;
          h = ve_digest E raw_token;
          row = \<lparr>vt_user = u, vt_email = email, vt_token_hash = h,
                 vt_expires_at = now + hours_us (EMAIL_VERIFICATION_TTL_H (ve_settings E)),
                 vt_consumed_at = None, vt_invalidated_at = None\<rparr>
      in if \<exists>t\<in>set (verification_tokens db1). vt_token_hash t = h then Inl IntegrityError
         else if \<not> ve_send_ok E email raw_token then Inl (ApiError 503 ''email_send_failed'')
         else Inr (change_account u (\<lambda>a. a\<lparr>acc_pending_email := Some email\<rparr>)
                (db1\<lparr>verification_tokens := verification_tokens db1 @ [row]\<rparr>)))"

definition load_user :: "uid \<Rightarrow> identity_db \<Rightarrow> account result" where
  "load_user u db =
     (case find_account u db of
        None \<Rightarrow> Inl (ApiError 401 ''invalid_token'')
      | Some a \<Rightarrow> if acc_deleted_at a \<noteq> None then Inl (ApiError 401 ''invalid_token'') else Inr a)"

record email_state =
  es_email :: "string option"
  es_verified :: bool
  es_pending :: "string option"

definition email_state :: "account \<Rightarrow> email_state" where
  "email_state a = \<lparr>es_email = acc_email a, es_verified = (acc_email_verified_at a \<noteq> None),
                    es_pending = acc_pending_email a\<rparr>"

definition state_of :: "uid \<Rightarrow> identity_db \<Rightarrow> email_state result" where
  "state_of u db = (case load_user u db of Inl e \<Rightarrow> Inl e | Inr a \<Rightarrow> Inr (email_state a))"

text \<open>The throttle, then the transaction; what both routes that send do.\<close>

definition throttled_issue ::
    "verify_env \<Rightarrow> instant \<Rightarrow> uid \<Rightarrow> string \<Rightarrow> string \<Rightarrow> identity_db \<times> rstore
       \<Rightarrow> email_state result \<times> identity_db \<times> rstore" where
  "throttled_issue E now u email raw_token w =
     (case enforce_send_throttle E now u email (snd w) of
        (Inl e, s) \<Rightarrow> (Inl e, fst w, s)
      | (Inr _, s) \<Rightarrow>
          (case issue_and_send E now u email raw_token (fst w) of
             Inl e \<Rightarrow> (Inl e, fst w, s)
           | Inr db \<Rightarrow> (state_of u db, db, s)))"

definition request_email ::
    "verify_env \<Rightarrow> instant \<Rightarrow> uid \<Rightarrow> string \<Rightarrow> string \<Rightarrow> identity_db \<times> rstore
       \<Rightarrow> email_state result \<times> identity_db \<times> rstore" where
  "request_email E now u raw_email raw_token w =
     (case normalize_email raw_email of
        Inl _ \<Rightarrow> (Inl (ApiError 400 ''validation_error''), w)
      | Inr email \<Rightarrow>
          (case load_user u (fst w) of
             Inl e \<Rightarrow> (Inl e, w)
           | Inr a \<Rightarrow>
               if map_option lower (acc_email a) = Some email
               then (Inl (ApiError 409 ''email_already_verified''), w)
               else throttled_issue E now u email raw_token w))"

definition resend_verification ::
    "verify_env \<Rightarrow> instant \<Rightarrow> uid \<Rightarrow> string \<Rightarrow> identity_db \<times> rstore
       \<Rightarrow> email_state result \<times> identity_db \<times> rstore" where
  "resend_verification E now u raw_token w =
     (case load_user u (fst w) of
        Inl e \<Rightarrow> (Inl e, w)
      | Inr a \<Rightarrow>
          (case acc_pending_email a of
             None \<Rightarrow> (Inl (ApiError 409 ''no_pending_email''), w)
           | Some email \<Rightarrow> throttled_issue E now u email raw_token w))"

text \<open>The partial unique index: one live account per verified address.\<close>

definition address_conflict :: "uid \<Rightarrow> string \<Rightarrow> identity_db \<Rightarrow> bool" where
  "address_conflict u email db \<longleftrightarrow>
     (\<exists>a\<in>set (accounts db). acc_id a \<noteq> u \<and> acc_email_verified_at a \<noteq> None \<and> acc_deleted_at a = None \<and>
        (case acc_email a of None \<Rightarrow> False | Some e \<Rightarrow> citext_eq e email))"

definition stamp_consumed :: "instant \<Rightarrow> string \<Rightarrow> verification_token \<Rightarrow> verification_token" where
  "stamp_consumed now h t = (if vt_token_hash t = h then t\<lparr>vt_consumed_at := Some now\<rparr> else t)"

definition consume_token :: "instant \<Rightarrow> string \<Rightarrow> identity_db \<Rightarrow> identity_db" where
  "consume_token now h db =
     db\<lparr>verification_tokens := map (stamp_consumed now h) (verification_tokens db)\<rparr>"

definition promote :: "instant \<Rightarrow> string \<Rightarrow> account \<Rightarrow> account" where
  "promote now email a =
     a\<lparr>acc_email := Some email, acc_email_verified_at := Some now, acc_pending_email := None\<rparr>"

definition verify_email ::
    "verify_env \<Rightarrow> instant \<Rightarrow> uid \<Rightarrow> string \<Rightarrow> identity_db \<Rightarrow> email_state result \<times> identity_db" where
  "verify_email E now u raw_token db =
     (if raw_token = [] then (Inl verify_failure, db)
      else
        (case find (\<lambda>t. vt_token_hash t = ve_digest E raw_token) (verification_tokens db) of
           None \<Rightarrow> (Inl verify_failure, db)
         | Some t \<Rightarrow>
             if vt_consumed_at t \<noteq> None \<or> vt_invalidated_at t \<noteq> None then (Inl verify_failure, db)
             else if vt_expires_at t \<le> now then (Inl verify_failure, db)
             else if vt_user t \<noteq> u then (Inl verify_failure, db)
             else
               (case load_user u db of
                  Inl e \<Rightarrow> (Inl e, db)
                | Inr _ \<Rightarrow>
                    if address_conflict u (vt_email t) db then (Inl verify_failure, db)
                    else
                      (let db' = change_account u (promote now (vt_email t))
                                   (invalidate_outstanding now u
                                     (consume_token now (vt_token_hash t) db))
                       in (state_of u db', db')))))"

definition withdraw :: "account \<Rightarrow> account" where
  "withdraw a = a\<lparr>acc_email := None, acc_email_verified_at := None, acc_pending_email := None\<rparr>"

definition delete_email :: "instant \<Rightarrow> uid \<Rightarrow> identity_db \<Rightarrow> email_state result \<times> identity_db" where
  "delete_email now u db =
     (case load_user u db of
        Inl e \<Rightarrow> (Inl e, db)
      | Inr _ \<Rightarrow>
          (let db' = change_account u withdraw (invalidate_outstanding now u db) in (state_of u db', db')))"

section \<open>The requests of all users\<close>

datatype email_call =
    RequestEmail uid string string
  | ResendVerification uid string
  | VerifyEmail uid string
  | DeleteEmail uid

fun run_email_call ::
    "verify_env \<Rightarrow> instant \<Rightarrow> email_call \<Rightarrow> identity_db \<times> rstore
       \<Rightarrow> email_state result \<times> identity_db \<times> rstore" where
  "run_email_call E now (RequestEmail u raw_email raw_token) w = request_email E now u raw_email raw_token w"
| "run_email_call E now (ResendVerification u raw_token) w = resend_verification E now u raw_token w"
| "run_email_call E now (VerifyEmail u raw_token) (db, s) =
     (case verify_email E now u raw_token db of (r, db') \<Rightarrow> (r, db', s))"
| "run_email_call E now (DeleteEmail u) (db, s) =
     (case delete_email now u db of (r, db') \<Rightarrow> (r, db', s))"

end
