(* ===== verification/Verify_Props.thy ===== *)
theory Verify_Props
  imports Verify
begin

text \<open>
  What the verification of addresses promises: an address on an account was proven by a token issued to
  that account for that address, and no two live accounts share one.
\<close>

section \<open>The invariant\<close>

definition tokens_ok :: "identity_db \<Rightarrow> bool" where
  "tokens_ok db \<longleftrightarrow> distinct (map vt_token_hash (verification_tokens db)) \<and>
     (\<forall>t\<in>set (verification_tokens db). normalize_email (vt_email t) = Inr (vt_email t)) \<and>
     (\<forall>t\<in>set (verification_tokens db). \<forall>t'\<in>set (verification_tokens db).
        outstanding t \<longrightarrow> outstanding t' \<longrightarrow> vt_user t = vt_user t' \<longrightarrow> t = t')"

definition proven :: "identity_db \<Rightarrow> uid \<Rightarrow> string \<Rightarrow> bool" where
  "proven db u e \<longleftrightarrow> (\<exists>t\<in>set (verification_tokens db). vt_user t = u \<and> vt_email t = e \<and> vt_consumed_at t \<noteq> None)"

definition address_ok :: "identity_db \<Rightarrow> account \<Rightarrow> bool" where
  "address_ok db a \<longleftrightarrow> (acc_email a \<noteq> None \<longleftrightarrow> acc_email_verified_at a \<noteq> None) \<and>
     (\<forall>e. acc_email a = Some e \<longrightarrow> normalize_email e = Inr e \<and> proven db (acc_id a) e) \<and>
     (\<forall>e. acc_pending_email a = Some e \<longrightarrow> normalize_email e = Inr e) \<and>
     (\<forall>t\<in>set (verification_tokens db). outstanding t \<longrightarrow> vt_user t = acc_id a \<longrightarrow>
        acc_pending_email a = Some (vt_email t))"

definition addresses_unique :: "identity_db \<Rightarrow> bool" where
  "addresses_unique db \<longleftrightarrow> (\<forall>a\<in>set (accounts db). \<forall>b\<in>set (accounts db).
     acc_deleted_at a = None \<longrightarrow> acc_deleted_at b = None \<longrightarrow> acc_email a \<noteq> None \<longrightarrow>
     acc_email a = acc_email b \<longrightarrow> acc_id a = acc_id b)"

definition email_ok :: "identity_db \<Rightarrow> bool" where
  "email_ok db \<longleftrightarrow> distinct (map acc_id (accounts db)) \<and> tokens_ok db \<and>
     (\<forall>a\<in>set (accounts db). address_ok db a) \<and> addresses_unique db"

inductive email_reachable :: "verify_env \<Rightarrow> account list \<Rightarrow> identity_db \<times> rstore \<Rightarrow> bool"
  for E accs where
  start: "accounts db = accs \<Longrightarrow> verification_tokens db = [] \<Longrightarrow> email_reachable E accs (db, s)"
| call: "email_reachable E accs w \<Longrightarrow> run_email_call E now c w = (r, w') \<Longrightarrow> email_reachable E accs w'"

definition fresh_accounts :: "account list \<Rightarrow> bool" where
  "fresh_accounts accs \<longleftrightarrow> distinct (map acc_id accs) \<and>
     (\<forall>a\<in>set accs. acc_email a = None \<and> acc_email_verified_at a = None \<and> acc_pending_email a = None)"

section \<open>What the steps of an operation change\<close>

lemma tables_of_token_steps [simp]:
  "accounts (invalidate_outstanding now u db) = accounts db" "accounts (consume_token now h db) = accounts db"
  "verification_tokens (invalidate_outstanding now u db) = map (stamp_invalidated now u) (verification_tokens db)"
  "verification_tokens (consume_token now h db) = map (stamp_consumed now h) (verification_tokens db)"
  by (simp_all add: invalidate_outstanding_def consume_token_def)

lemma find_account_tokens [simp]:
  "find_account u (invalidate_outstanding now v db) = find_account u db"
  "find_account u (consume_token now h db) = find_account u db"
  by (simp_all add: find_account_def)

lemma stamps_keep [simp]:
  "vt_user (stamp_invalidated now u t) = vt_user t" "vt_user (stamp_consumed now h t) = vt_user t"
  "vt_email (stamp_invalidated now u t) = vt_email t" "vt_email (stamp_consumed now h t) = vt_email t"
  "vt_token_hash (stamp_invalidated now u t) = vt_token_hash t"
  "vt_token_hash (stamp_consumed now h t) = vt_token_hash t"
  "vt_consumed_at (stamp_invalidated now u t) = vt_consumed_at t"
  "vt_consumed_at (stamp_consumed now h t) = (if vt_token_hash t = h then Some now else vt_consumed_at t)"
  by (simp_all add: stamp_invalidated_def stamp_consumed_def)

lemma stamps_comp [simp]: "vt_token_hash \<circ> stamp_invalidated now u = vt_token_hash"
    "vt_token_hash \<circ> stamp_consumed now h = vt_token_hash"
  by auto

lemma outstanding_stamped:
  "outstanding (stamp_invalidated now u t) \<longleftrightarrow> outstanding t \<and> vt_user t \<noteq> u"
  "outstanding (stamp_consumed now h t) \<longleftrightarrow> outstanding t \<and> vt_token_hash t \<noteq> h"
  by (auto simp: outstanding_def stamp_invalidated_def stamp_consumed_def)

lemma proven_invalidate [simp]: "proven (invalidate_outstanding now u db) v e \<longleftrightarrow> proven db v e"
  by (auto simp: proven_def)

lemma proven_consume: "proven db v e \<Longrightarrow> proven (consume_token now h db) v e"
  by (fastforce simp: proven_def)

lemma outstanding_same:
  "outstanding t \<Longrightarrow> stamp_invalidated now u t = (if vt_user t = u then t\<lparr>vt_invalidated_at := Some now\<rparr> else t)"
  by (simp add: stamp_invalidated_def)

text \<open>Invalidation keeps the invariant and leaves the user nothing outstanding.\<close>

lemma email_ok_invalidate:
  assumes "email_ok db"
  shows "email_ok (invalidate_outstanding now u db) \<and>
    (\<forall>t\<in>set (verification_tokens (invalidate_outstanding now u db)). outstanding t \<longrightarrow> vt_user t \<noteq> u)"
proof -
  have toks: "tokens_ok db" using assms by (simp add: email_ok_def)
  have "t = t'" if t: "t \<in> stamp_invalidated now u ` set (verification_tokens db)" "outstanding t"
      and t': "t' \<in> stamp_invalidated now u ` set (verification_tokens db)" "outstanding t'"
      and "vt_user t = vt_user t'" for t t'
  proof -
    have "t \<in> set (verification_tokens db)" "t' \<in> set (verification_tokens db)"
      using t t' by (auto simp: stamp_invalidated_def outstanding_def split: if_splits)
    with toks t(2) t'(2) \<open>vt_user t = vt_user t'\<close> show ?thesis unfolding tokens_ok_def by blast
  qed
  then have "tokens_ok (invalidate_outstanding now u db)"
    using toks unfolding tokens_ok_def tables_of_token_steps set_map by simp
  moreover have "address_ok (invalidate_outstanding now u db) a" if "address_ok db a" for a
    using that by (simp add: address_ok_def outstanding_stamped)
  moreover have "addresses_unique (invalidate_outstanding now u db) \<longleftrightarrow> addresses_unique db"
    by (simp add: addresses_unique_def)
  ultimately show ?thesis using assms by (simp add: email_ok_def outstanding_stamped)
qed

lemma email_ok_change_account:
  assumes ok: "email_ok db" and ids: "\<And>a. acc_id (f a) = acc_id a"
    and addr: "\<And>a. a \<in> set (accounts db) \<Longrightarrow> acc_id a = u \<Longrightarrow> address_ok db (f a)"
    and uniq: "addresses_unique (change_account u f db)"
  shows "email_ok (change_account u f db)"
proof -
  have "address_ok (change_account u f db) a \<longleftrightarrow> address_ok db a" for a
    by (simp add: address_ok_def proven_def)
  moreover have "address_ok db a" if "a \<in> set (accounts (change_account u f db))" for a
    using that ok addr unfolding in_change_account email_ok_def by auto
  moreover have "tokens_ok (change_account u f db) \<longleftrightarrow> tokens_ok db" by (simp add: tokens_ok_def)
  ultimately show ?thesis using ok uniq by (simp add: email_ok_def ids_change_account [OF ids])
qed

lemma addresses_unique_change:
  assumes uniq: "addresses_unique db"
    and f: "\<And>a. acc_id (f a) = acc_id a" "\<And>a. acc_deleted_at (f a) = acc_deleted_at a"
    and new: "\<And>a b. acc_id a = u \<Longrightarrow> b \<in> set (accounts db) \<Longrightarrow> acc_id b \<noteq> u \<Longrightarrow> acc_deleted_at b = None \<Longrightarrow>
      acc_email (f a) \<noteq> None \<Longrightarrow> acc_email b \<noteq> acc_email (f a)"
  shows "addresses_unique (change_account u f db)"
  unfolding addresses_unique_def
proof (intro ballI impI)
  fix a b
  assume mem: "a \<in> set (accounts (change_account u f db))" "b \<in> set (accounts (change_account u f db))"
    and live: "acc_deleted_at a = None" "acc_deleted_at b = None" and e: "acc_email a \<noteq> None" "acc_email a = acc_email b"
  obtain a0 where a0: "a0 \<in> set (accounts db)" "a = (if acc_id a0 = u then f a0 else a0)"
    using mem(1) by (rule in_change_accountE)
  obtain b0 where b0: "b0 \<in> set (accounts db)" "b = (if acc_id b0 = u then f b0 else b0)"
    using mem(2) by (rule in_change_accountE)
  have ids: "acc_id a = acc_id a0" "acc_id b = acc_id b0" and live0: "acc_deleted_at a0 = None" "acc_deleted_at b0 = None"
    using a0 b0 f live by (metis (full_types))+
  consider "acc_id a0 = acc_id b0" | "acc_id a0 = u" "acc_id b0 \<noteq> u" | "acc_id b0 = u" "acc_id a0 \<noteq> u"
    | "acc_id a0 \<noteq> u" "acc_id b0 \<noteq> u" by metis
  then show "acc_id a = acc_id b"
  proof cases
    case 2
    then show ?thesis using new [of a0 b0] a0 b0 live0 e by simp
  next
    case 3
    then show ?thesis using new [of b0 a0] a0 b0 live0 e by simp
  next
    case 4
    then have "a = a0" "b = b0" using a0 b0 by simp_all
    then show ?thesis using uniq a0(1) b0(1) live e unfolding addresses_unique_def by blast
  qed (simp add: ids)
qed

lemma addresses_unique_same:
  assumes uniq: "addresses_unique db"
    and f: "\<And>a. acc_id (f a) = acc_id a" "\<And>a. acc_deleted_at (f a) = acc_deleted_at a" "\<And>a. acc_email (f a) = acc_email a"
  shows "addresses_unique (change_account u f db)"
  unfolding addresses_unique_def
proof (intro ballI impI)
  fix a b
  assume mem: "a \<in> set (accounts (change_account u f db))" "b \<in> set (accounts (change_account u f db))"
    and h: "acc_deleted_at a = None" "acc_deleted_at b = None" "acc_email a \<noteq> None" "acc_email a = acc_email b"
  have "\<exists>c0\<in>set (accounts db). acc_id c0 = acc_id c \<and> acc_deleted_at c0 = acc_deleted_at c \<and> acc_email c0 = acc_email c"
    if "c \<in> set (accounts (change_account u f db))" for c
    using that f by (elim in_change_accountE) (metis (full_types))
  from this [OF mem(1)] this [OF mem(2)] show "acc_id a = acc_id b"
    using uniq h unfolding addresses_unique_def by metis
qed

section \<open>The operations keep the invariant\<close>

lemma normalized: "normalize_email raw = Inr e \<Longrightarrow> normalize_email e = Inr e"
  by (rule normalize_email_idem)

lemma issue_and_send_ok:
  assumes ok: "email_ok db" and e: "normalize_email e = Inr e" and i: "issue_and_send E now u e raw db = Inr db'"
  shows "email_ok db'"
proof -
  define db1 where "db1 = invalidate_outstanding now u db"
  have ok1: "email_ok db1" and none: "\<forall>t\<in>set (verification_tokens db1). outstanding t \<longrightarrow> vt_user t \<noteq> u"
    using email_ok_invalidate [OF ok] by (auto simp: db1_def)
  define row where "row = \<lparr>vt_user = u, vt_email = e, vt_token_hash = ve_digest E raw,
    vt_expires_at = now + hours_us (EMAIL_VERIFICATION_TTL_H (ve_settings E)),
    vt_consumed_at = None, vt_invalidated_at = None\<rparr>"
  have row: "vt_user row = u" "vt_email row = e" "outstanding row" "vt_consumed_at row = None"
    by (simp_all add: row_def outstanding_def)
  have new: "\<forall>t\<in>set (verification_tokens db1). vt_token_hash t \<noteq> vt_token_hash row"
    and db': "db' = change_account u (\<lambda>a. a\<lparr>acc_pending_email := Some e\<rparr>)
      (db1\<lparr>verification_tokens := verification_tokens db1 @ [row]\<rparr>)"
    using i unfolding issue_and_send_def Let_def db1_def [symmetric] row_def [symmetric]
    by (auto simp: row_def split: if_splits)
  let ?db2 = "db1\<lparr>verification_tokens := verification_tokens db1 @ [row]\<rparr>"
  have "tokens_ok ?db2"
    using ok1 new none row e by (auto simp: email_ok_def tokens_ok_def)
  moreover have pr: "proven ?db2 v x \<longleftrightarrow> proven db1 v x" for v x using row by (auto simp: proven_def)
  moreover have "address_ok db' a" if mem: "a \<in> set (accounts db')" for a
  proof -
    obtain a0 where a0: "a0 \<in> set (accounts db1)" and a: "a = (if acc_id a0 = u then a0\<lparr>acc_pending_email := Some e\<rparr> else a0)"
      using mem [unfolded db'] by (rule in_change_accountE) simp
    have "address_ok db1 a0" using ok1 a0 by (simp add: email_ok_def)
    then show ?thesis using none row e pr by (auto simp: a address_ok_def db' proven_def)
  qed
  moreover have "addresses_unique db'"
  proof -
    have "addresses_unique db1" using ok1 by (simp add: email_ok_def)
    then have "addresses_unique (db1\<lparr>verification_tokens := verification_tokens db1 @ [row]\<rparr>)"
      by (simp add: addresses_unique_def)
    then show ?thesis unfolding db' by (rule addresses_unique_same) simp_all
  qed
  moreover have "map acc_id (accounts db') = map acc_id (accounts db1)"
    unfolding db' by (subst ids_change_account) simp_all
  moreover have "verification_tokens db' = verification_tokens ?db2" by (simp add: db')
  ultimately show ?thesis using ok1 by (simp add: email_ok_def tokens_ok_def)
qed

lemma throttled_issue_ok:
  assumes "email_ok (fst w)" and "normalize_email e = Inr e" and "throttled_issue E now u e raw w = (r, w')"
  shows "email_ok (fst w')"
  using assms issue_and_send_ok [OF assms(1,2)]
  by (auto simp: throttled_issue_def split: prod.splits sum.splits)

lemma load_userD:
  "load_user u db = Inr a \<Longrightarrow> a \<in> set (accounts db) \<and> acc_id a = u \<and> acc_deleted_at a = None"
  by (auto simp: load_user_def dest: find_account_SomeD split: option.splits if_splits)

lemma request_email_ok:
  assumes "email_ok (fst w)" and "request_email E now u raw_email raw w = (r, w')"
  shows "email_ok (fst w')"
  using assms by (auto simp: request_email_def intro: throttled_issue_ok normalize_email_idem
      split: sum.splits if_splits)

lemma resend_verification_ok:
  assumes "email_ok (fst w)" and "resend_verification E now u raw w = (r, w')"
  shows "email_ok (fst w')"
proof (cases "load_user u (fst w)")
  case (Inr a)
  have "normalize_email e = Inr e" if "acc_pending_email a = Some e" for e
    using assms(1) load_userD [OF Inr] that by (auto simp: email_ok_def address_ok_def)
  with assms Inr show ?thesis
    by (auto simp: resend_verification_def intro: throttled_issue_ok split: option.splits)
qed (use assms in \<open>auto simp: resend_verification_def\<close>)

lemma delete_email_ok:
  assumes "email_ok db" and "delete_email now u db = (r, db')"
  shows "email_ok db'"
proof (cases "load_user u db")
  case (Inr a)
  let ?db1 = "invalidate_outstanding now u db"
  have ok1: "email_ok ?db1" and none: "\<forall>t\<in>set (verification_tokens ?db1). outstanding t \<longrightarrow> vt_user t \<noteq> u"
    using email_ok_invalidate [OF assms(1)] by blast+
  have "email_ok (change_account u withdraw ?db1)"
  proof (rule email_ok_change_account [OF ok1])
    show "address_ok ?db1 (withdraw b)" if "acc_id b = u" for b
      using none that by (simp add: address_ok_def withdraw_def)
    have "addresses_unique ?db1" using ok1 by (simp add: email_ok_def)
    then show "addresses_unique (change_account u withdraw ?db1)"
      by (rule addresses_unique_change) (simp_all add: withdraw_def)
  qed (simp add: withdraw_def)
  then show ?thesis using assms(2) Inr by (simp add: delete_email_def Let_def)
qed (use assms in \<open>auto simp: delete_email_def\<close>)

lemma verify_emailE:
  assumes "verify_email E now u raw db = (r, db')"
  obtains "db' = db" and "\<exists>e. r = Inl e"
  | t where "t \<in> set (verification_tokens db)" and "vt_token_hash t = ve_digest E raw" and "outstanding t"
      and "now < vt_expires_at t" and "vt_user t = u" and "\<not> address_conflict u (vt_email t) db"
      and "db' = change_account u (promote now (vt_email t))
        (invalidate_outstanding now u (consume_token now (vt_token_hash t) db))"
proof (cases "find (\<lambda>t. vt_token_hash t = ve_digest E raw) (verification_tokens db)")
  case None
  with assms that(1) show ?thesis by (auto simp: verify_email_def split: if_splits)
next
  case (Some t)
  show ?thesis
  proof (cases "raw \<noteq> [] \<and> outstanding t \<and> now < vt_expires_at t \<and> vt_user t = u \<and> is_ok (load_user u db) \<and>
      \<not> address_conflict u (vt_email t) db")
    case True
    then have "db' = change_account u (promote now (vt_email t))
        (invalidate_outstanding now u (consume_token now (vt_token_hash t) db))"
      using assms Some by (auto simp: verify_email_def outstanding_def Let_def is_ok_def split: sum.splits)
    with True that(2) [of t] find_SomeD [OF Some] show ?thesis by blast
  next
    case False
    then have "db' = db \<and> (\<exists>e. r = Inl e)"
      using assms Some by (auto simp: verify_email_def outstanding_def is_ok_def split: sum.splits if_splits)
    with that(1) show ?thesis by blast
  qed
qed

lemma verify_email_ok:
  assumes ok: "email_ok db" and v: "verify_email E now u raw db = (r, db')"
  shows "email_ok db'"
  using v
proof (cases rule: verify_emailE)
  case (2 t)
  let ?db1 = "consume_token now (vt_token_hash t) db" and ?db2 = "invalidate_outstanding now u (consume_token now (vt_token_hash t) db)"
  have toks: "tokens_ok db" using ok by (simp add: email_ok_def)
  have "t1 = t2" if "t1 \<in> stamp_consumed now (vt_token_hash t) ` set (verification_tokens db)" "outstanding t1"
      "t2 \<in> stamp_consumed now (vt_token_hash t) ` set (verification_tokens db)" "outstanding t2" "vt_user t1 = vt_user t2"
    for t1 t2
  proof -
    have "t1 \<in> set (verification_tokens db)" "t2 \<in> set (verification_tokens db)"
      using that by (auto simp: stamp_consumed_def outstanding_def split: if_splits)
    with toks that(2,4,5) show ?thesis unfolding tokens_ok_def by blast
  qed
  then have toks1: "tokens_ok ?db1" using toks unfolding tokens_ok_def tables_of_token_steps set_map by simp
  have "address_ok ?db1 a" if "address_ok db a" for a
    using that proven_consume [of db] by (auto simp: address_ok_def outstanding_stamped)
  moreover have "addresses_unique ?db1 \<longleftrightarrow> addresses_unique db" by (simp add: addresses_unique_def)
  ultimately have ok1: "email_ok ?db1" using ok toks1 by (simp add: email_ok_def)
  have ok2: "email_ok ?db2" and none: "\<forall>t\<in>set (verification_tokens ?db2). outstanding t \<longrightarrow> vt_user t \<noteq> u"
    using email_ok_invalidate [OF ok1] by blast+
  have e: "normalize_email (vt_email t) = Inr (vt_email t)" using toks 2(1) by (auto simp: tokens_ok_def)
  have pr: "proven ?db2 u (vt_email t)"
    using 2(1,5) by (auto simp: proven_def intro!: bexI [of _ t])
  have "email_ok (change_account u (promote now (vt_email t)) ?db2)"
  proof (rule email_ok_change_account [OF ok2])
    show "address_ok ?db2 (promote now (vt_email t) b)" if "acc_id b = u" for b
      using none that e pr by (simp add: address_ok_def promote_def)
    have "addresses_unique ?db2" using ok2 by (simp add: email_ok_def)
    then show "addresses_unique (change_account u (promote now (vt_email t)) ?db2)"
    proof (rule addresses_unique_change)
      fix a b assume b: "b \<in> set (accounts ?db2)" "acc_id b \<noteq> u" "acc_deleted_at b = None"
      have "address_ok db b" using ok b by (simp add: email_ok_def)
      then have "acc_email b \<noteq> Some (vt_email t)"
        using 2(6) b by (force simp: address_conflict_def citext_eq_def address_ok_def)
      then show "acc_email b \<noteq> acc_email (promote now (vt_email t) a)" by (simp add: promote_def)
    qed (simp_all add: promote_def)
  qed (simp add: promote_def)
  then show ?thesis by (simp add: 2(7))
qed (simp add: ok)

lemma email_reachable_ok:
  assumes "email_reachable E accs w" and "fresh_accounts accs"
  shows "email_ok (fst w)"
  using assms
proof (induction rule: email_reachable.induct)
  case (start db s)
  then have "address_ok db a" if "a \<in> set (accounts db)" for a
    using that by (simp add: fresh_accounts_def address_ok_def)
  moreover have "addresses_unique db" using start by (simp add: fresh_accounts_def addresses_unique_def)
  ultimately show ?case using start by (simp add: email_ok_def fresh_accounts_def tokens_ok_def)
next
  case (call w now c r w')
  then have ok: "email_ok (fst w)" by simp
  show ?case
  proof (cases c)
    case (VerifyEmail u raw)
    with ok call.hyps(2) verify_email_ok [of "fst w" E now u raw] show ?thesis
      by (cases w) (auto split: prod.splits)
  next
    case (DeleteEmail u)
    with ok call.hyps(2) delete_email_ok [of "fst w" now u] show ?thesis
      by (cases w) (auto split: prod.splits)
  next
    case (RequestEmail u raw_email raw)
    then show ?thesis using request_email_ok [OF ok] call.hyps(2) by simp
  next
    case (ResendVerification u raw)
    then show ?thesis using resend_verification_ok [OF ok] call.hyps(2) by simp
  qed
qed

text \<open>
  C22: Whatever requests are made, an address stored on an account is canonical, was proven by a consumed
  link that had been issued to that very account for that address, and belongs to no other live account.
\<close>

theorem stored_address_is_proven:
  assumes "email_reachable E accs (db, s)" and "fresh_accounts accs"
    and "a \<in> set (accounts db)" and "acc_email a = Some e"
  shows "normalize_email e = Inr e \<and> acc_email_verified_at a \<noteq> None \<and> proven db (acc_id a) e \<and>
    (\<exists>n. \<forall>b. b \<in> set (accounts db) \<and> acc_deleted_at a = None \<and> acc_deleted_at b = None \<and> acc_email b = Some e
      \<longrightarrow> acc_id b = n)"
proof -
  have ok: "email_ok db" using email_reachable_ok [OF assms(1,2)] by simp
  then have "address_ok db a" using assms(3) by (simp add: email_ok_def)
  moreover have "acc_id b = acc_id a" if "b \<in> set (accounts db)" "acc_deleted_at a = None"
      "acc_deleted_at b = None" "acc_email b = Some e" for b
    using ok that assms(3,4) unfolding email_ok_def addresses_unique_def by (metis option.distinct(1))
  ultimately show ?thesis using assms(4) by (auto simp: address_ok_def)
qed

text \<open>
  At most one link of a user is live, and it is for the address the account shows as pending: once a
  newer link is issued or the address withdrawn, an older link is refused and changes nothing.
\<close>

theorem live_link_matches_pending_address:
  assumes "email_reachable E accs (db, s)" and "fresh_accounts accs"
    and "verify_email E now u raw db = (Inr st, db')"
  shows "\<exists>a a' t. a \<in> set (accounts db) \<and> acc_id a = u \<and> vt_token_hash t = ve_digest E raw \<and>
    filter (\<lambda>t. outstanding t \<and> vt_user t = u) (verification_tokens db) = [t] \<and>
    acc_pending_email a = Some (vt_email t) \<and> now < vt_expires_at t \<and>
    find_account u db' = Some a' \<and> acc_email a' = acc_pending_email a \<and> acc_pending_email a' = None \<and>
    filter (\<lambda>t. outstanding t \<and> vt_user t = u) (verification_tokens db') = []"
proof -
  have ok: "email_ok db" using email_reachable_ok [OF assms(1,2)] by simp
  show ?thesis
    using assms(3)
  proof (cases rule: verify_emailE)
    case (2 t)
    obtain a where a: "a \<in> set (accounts db)" "acc_id a = u" "find_account u db = Some a"
      using assms(3) find_account_SomeD by (auto simp: verify_email_def load_user_def split: if_splits option.splits sum.splits)
    have toks: "tokens_ok db" using ok by (simp add: email_ok_def)
    have only: "t' = t" if "t' \<in> set (verification_tokens db)" "outstanding t' \<and> vt_user t' = u" for t'
      using toks that 2(1,3,5) unfolding tokens_ok_def by metis
    have "distinct (verification_tokens db)"
      using toks unfolding tokens_ok_def by (simp add: distinct_map)
    then have one: "filter (\<lambda>t. outstanding t \<and> vt_user t = u) (verification_tokens db) = [t]"
      using 2(1) conjI [OF 2(3,5)] only by (rule filter_unique)
    have pend: "acc_pending_email a = Some (vt_email t)"
      using ok a 2 by (auto simp: email_ok_def address_ok_def)
    have "find_account u db' = Some (promote now (vt_email t) a)"
      using a(3) by (simp add: 2(7) find_account_change promote_def find_account_tokens)
    moreover have "filter (\<lambda>t. outstanding t \<and> vt_user t = u) (verification_tokens db') = []"
      by (auto simp: 2(7) filter_empty_conv outstanding_stamped)
    ultimately show ?thesis using a(1,2) one pend 2(2,4)
      by (intro exI [of _ a] exI [of _ "promote now (vt_email t) a"] exI [of _ t]) (simp add: promote_def)
  qed simp
qed

section \<open>A run\<close>

definition sample_verify_env :: verify_env where
  "sample_verify_env = \<lparr>ve_settings = default_settings, ve_digest = id, ve_address_digest = id,
     ve_send_ok = (\<lambda>_ _. True)\<rparr>"

definition new_account :: "uid \<Rightarrow> string \<Rightarrow> account" where
  "new_account u name = \<lparr>acc_id = u, acc_username = name, acc_display_name = None, acc_avatar_url = None,
     acc_timezone = ''UTC'', acc_level = ''mid'', acc_onboarded = False, acc_beta_allowed = False,
     acc_reminder_time = None, acc_email = None, acc_email_verified_at = None, acc_pending_email = None,
     acc_deleted_at = None\<rparr>"

definition sample_identity :: identity_db where
  "sample_identity = \<lparr>accounts = [new_account 1 ''ann''], identities = [], refresh_tokens = [],
     verification_tokens = [], beta_invites = []\<rparr>"

definition requested :: "identity_db \<times> rstore" where
  "requested = snd (run_email_call sample_verify_env 0 (RequestEmail 1 ''Ann@Example.com'' ''t1'') (sample_identity, Map.empty))"

definition confirmed :: "identity_db \<times> rstore" where
  "confirmed = snd (run_email_call sample_verify_env 5 (VerifyEmail 1 ''t1'') requested)"

lemma fresh_sample: "fresh_accounts (accounts sample_identity)"
  by (simp add: fresh_accounts_def sample_identity_def new_account_def)

lemma reach_requested: "email_reachable sample_verify_env (accounts sample_identity) (fst requested, snd requested)"
  unfolding requested_def prod.collapse
  by (rule email_reachable.call [OF _ surjective_pairing], rule email_reachable.start)
     (simp_all add: sample_identity_def)

lemma reach_confirmed: "email_reachable sample_verify_env (accounts sample_identity) (fst confirmed, snd confirmed)"
  unfolding confirmed_def prod.collapse
  by (rule email_reachable.call [OF _ surjective_pairing], rule reach_requested [unfolded prod.collapse])

lemma stored_address_is_proven_witness:
  "\<exists>a. a \<in> set (accounts (fst confirmed)) \<and> acc_email a = Some ''ann@example.com'' \<and>
    acc_email_verified_at a \<noteq> None \<and> proven (fst confirmed) (acc_id a) ''ann@example.com''"
proof -
  have a: "hd (accounts (fst confirmed)) \<in> set (accounts (fst confirmed))"
      "acc_email (hd (accounts (fst confirmed))) = Some ''ann@example.com''" by code_simp+
  from stored_address_is_proven [OF reach_confirmed fresh_sample a] a show ?thesis by blast
qed

lemma live_link_matches_pending_address_witness:
  "\<exists>(a::account) (t::verification_token). acc_pending_email a = Some ''ann@example.com'' \<and> vt_email t = ''ann@example.com'' \<and>
    filter (\<lambda>t. outstanding t \<and> vt_user t = 1) (verification_tokens (fst requested)) = [t]"
proof -
  have v: "verify_email sample_verify_env 5 1 ''t1'' (fst requested) =
      (Inr \<lparr>es_email = Some ''ann@example.com'', es_verified = True, es_pending = None\<rparr>, fst confirmed)"
    by code_simp
  have e: "map_option acc_email (find_account 1 (fst confirmed)) = Some (Some ''ann@example.com'')" by code_simp
  from live_link_matches_pending_address [OF reach_requested fresh_sample v]
  obtain a a' :: account and t :: verification_token where "acc_pending_email a = Some (vt_email t)"
      "filter (\<lambda>t. outstanding t \<and> vt_user t = 1) (verification_tokens (fst requested)) = [t]"
      "find_account 1 (fst confirmed) = Some a'" "acc_email a' = acc_pending_email a" by blast
  with e show ?thesis by (intro exI [of _ a] exI [of _ t]) simp
qed

end
