(* ===== verification/Notify.thy ===== *)
theory Notify
  imports Deliveries_Props Attempts_Props Verify_Props "HOL-Library.Char_ord" "HOL-Library.List_Lexorder"
begin

text \<open>
  Who is mailed and what a recap says: the candidate queries of \<open>jobs/reminders.py\<close> and
  \<open>jobs/weekly_email.py\<close>, and \<open>email/recap.py\<close>. The texts of the mails (\<open>email/messages.py\<close>) are a
  parameter of the two jobs.
\<close>

section \<open>Recipients\<close>

definition eligible_recipients :: "account list \<Rightarrow> account list" where
  "eligible_recipients accs =
     filter (\<lambda>a. acc_email a \<noteq> None \<and> acc_email_verified_at a \<noteq> None \<and> acc_deleted_at a = None) accs"

text \<open>The \<open>NOT EXISTS\<close> over the opt-outs of the user.\<close>

definition opted_out :: "suppressions \<Rightarrow> string \<Rightarrow> uid \<Rightarrow> bool" where
  "opted_out tbl kind u \<longleftrightarrow> (\<exists>((v, k), _)\<in>set tbl. v = u \<and> (k = kind \<or> k = ''all''))"

definition batch :: "settings \<Rightarrow> account list \<Rightarrow> account list" where
  "batch S rows = take (EMAIL_JOB_BATCH_SIZE S) (sort_key acc_id rows)"

definition local_date_of :: "int \<Rightarrow> date" where
  "local_date_of local_now = local_now div us_per_day"

definition local_time_of :: "int \<Rightarrow> int" where
  "local_time_of local_now = local_now mod us_per_day"

text \<open>
  \<open>zones tz now\<close> is the offset of a known zone, \<open>None\<close> for a name the zone database does not have.
\<close>

definition reminder_rows :: "settings \<Rightarrow> suppressions \<Rightarrow> account list \<Rightarrow> account list" where
  "reminder_rows S tbl accs =
     batch S (filter (\<lambda>a. acc_reminder_time a \<noteq> None \<and> \<not> opted_out tbl ''reminder'' (acc_id a))
       (eligible_recipients accs))"

definition reminder_due ::
    "(string \<Rightarrow> instant \<Rightarrow> int option) \<Rightarrow> instant \<Rightarrow> (uid \<Rightarrow> date option) \<Rightarrow> account \<Rightarrow> mail_candidate option" where
  "reminder_due zones now last_active a =
     (case zones (acc_timezone a) now of
        None \<Rightarrow> None
      | Some off \<Rightarrow>
          (let local_now = now + off; d = local_date_of local_now in
           if (case last_active (acc_id a) of None \<Rightarrow> False | Some l \<Rightarrow> d \<le> l) then None
           else if local_time_of local_now < the (acc_reminder_time a) then None
           else Some \<lparr>mc_user = acc_id a, mc_email = the (acc_email a), mc_period = reminder_period_key d\<rparr>))"

definition find_reminder_candidates ::
    "settings \<Rightarrow> (string \<Rightarrow> instant \<Rightarrow> int option) \<Rightarrow> instant \<Rightarrow> suppressions \<Rightarrow> (uid \<Rightarrow> date option)
       \<Rightarrow> account list \<Rightarrow> mail_candidate list" where
  "find_reminder_candidates S zones now tbl last_active accs =
     List.map_filter (reminder_due zones now last_active) (reminder_rows S tbl accs)"

definition recap_period_key :: "date \<Rightarrow> period" where
  "recap_period_key d = IsoWeek (d - weekday d)"

definition recap_due ::
    "settings \<Rightarrow> (string \<Rightarrow> instant \<Rightarrow> int option) \<Rightarrow> instant \<Rightarrow> account \<Rightarrow> mail_candidate option" where
  "recap_due S zones now a =
     (case zones (acc_timezone a) now of
        None \<Rightarrow> None
      | Some off \<Rightarrow>
          (let local_now = now + off; d = local_date_of local_now in
           if weekday d \<noteq> RECAP_LOCAL_WEEKDAY S then None
           else if local_time_of local_now div hours_us 1 < RECAP_LOCAL_HOUR S then None
           else Some \<lparr>mc_user = acc_id a, mc_email = the (acc_email a), mc_period = recap_period_key d\<rparr>))"

definition find_recap_candidates ::
    "settings \<Rightarrow> (string \<Rightarrow> instant \<Rightarrow> int option) \<Rightarrow> instant \<Rightarrow> suppressions \<Rightarrow> account list
       \<Rightarrow> mail_candidate list" where
  "find_recap_candidates S zones now tbl accs =
     List.map_filter (recap_due S zones now)
       (batch S (filter (\<lambda>a. \<not> opted_out tbl ''recap'' (acc_id a)) (eligible_recipients accs)))"

section \<open>The recap\<close>

record weekly_recap =
  wr_week_start :: date
  wr_week_end :: date
  wr_sessions_completed :: nat
  wr_exercises_attempted :: nat
  wr_correct :: nat
  wr_graded :: nat
  wr_concepts :: "string list"
  wr_current_streak :: int
  wr_longest_streak :: int
  wr_skipped :: nat
  wr_pending :: nat

text \<open>\<open>round(x)\<close> of a float: the nearest integer, ties to even.\<close>

definition py_round :: "rat \<Rightarrow> int" where
  "py_round x = (case quotient_of x of (a, b) \<Rightarrow> round_half_even a b)"

definition accuracy_pct :: "weekly_recap \<Rightarrow> int option" where
  "accuracy_pct r =
     (if wr_graded r = 0 then None
      else Some (py_round (fl (of_nat (100 * wr_correct r) / of_nat (wr_graded r)))))"

definition is_empty_recap :: "weekly_recap \<Rightarrow> bool" where
  "is_empty_recap r \<longleftrightarrow> wr_exercises_attempted r = 0"

definition week_attempts :: "backend \<Rightarrow> uid \<Rightarrow> date \<Rightarrow> date \<Rightarrow> attempt list" where
  "week_attempts b u d1 d2 =
     filter (\<lambda>a. att_user a = u \<and> d1 \<le> session_date a \<and> session_date a \<le> d2) (attempts_tbl b)"

definition count_hit :: "string \<Rightarrow> (string \<times> nat) list \<Rightarrow> (string \<times> nat) list" where
  "count_hit c hits = AList.update c (Suc (case map_of hits c of None \<Rightarrow> 0 | Some n \<Rightarrow> n)) hits"

definition concept_hits :: "backend \<Rightarrow> attempt list \<Rightarrow> (string \<times> nat) list" where
  "concept_hits b rows =
     fold (\<lambda>a hits. case find_exercise (att_exercise a) (att_version a) (exercises_tbl b) of
                      None \<Rightarrow> hits
                    | Some ex \<Rightarrow> fold count_hit (ex_concepts ex) hits)
       (filter (\<lambda>a. att_correct a = Some True) rows) []"

definition count_if :: "('a \<Rightarrow> bool) \<Rightarrow> 'a list \<Rightarrow> nat" where
  "count_if P xs = length (filter P xs)"

definition build_weekly_recap :: "backend \<Rightarrow> uid \<Rightarrow> date \<Rightarrow> date \<Rightarrow> weekly_recap" where
  "build_weekly_recap b u d1 d2 =
     (let rows = week_attempts b u d1 d2;
          hits = concept_hits b rows;
          stats = get_stats_row (streaks b) u
      in \<lparr>wr_week_start = d1, wr_week_end = d2,
          wr_sessions_completed =
            count_if (\<lambda>((v, d), row). v = u \<and> d1 \<le> d \<and> d \<le> d2 \<and> completed_at row \<noteq> None) (daily_sessions b),
          wr_exercises_attempted = length rows,
          wr_correct = count_if (\<lambda>a. att_correct a = Some True) rows,
          wr_graded = count_if (\<lambda>a. att_correct a \<noteq> None) rows,
          wr_concepts = map fst (take 4 (sort_key (\<lambda>(c, n). (- int n, c)) hits)),
          wr_current_streak = (case stats of None \<Rightarrow> 0 | Some s \<Rightarrow> current_streak s),
          wr_longest_streak = (case stats of None \<Rightarrow> 0 | Some s \<Rightarrow> longest_streak s),
          wr_skipped = count_if (\<lambda>a. att_status a = StSkipped) rows,
          wr_pending = count_if (\<lambda>a. att_status a = StPending) rows\<rparr>)"

section \<open>The two jobs\<close>

text \<open>The length of today's session when there is one; an empty list is no session.\<close>

definition session_count :: "backend \<Rightarrow> mail_candidate \<Rightarrow> nat option" where
  "session_count b c =
     (case mc_period c of
        Day d \<Rightarrow>
          (case session_row b (mc_user c) d of
             None \<Rightarrow> None
           | Some row \<Rightarrow> if exercise_list row = [] then None else Some (length (exercise_list row)))
      | IsoWeek _ \<Rightarrow> None)"

definition build_recap_mail ::
    "(mail_candidate \<Rightarrow> weekly_recap \<Rightarrow> outbound_email) \<Rightarrow> backend \<Rightarrow> mail_candidate
       \<Rightarrow> outbound_email option result" where
  "build_recap_mail template b c =
     (case mc_period c of
        Day _ \<Rightarrow> Inl (ValueError ''period'')
      | IsoWeek monday \<Rightarrow>
          (let (d1, d2) = week_bounds monday; recap = build_weekly_recap b (mc_user c) d1 d2
           in Inr (if is_empty_recap recap then None else Some (template c recap))))"

record mail_job_env =
  mj_settings :: settings
  mj_zones :: "string \<Rightarrow> instant \<Rightarrow> int option"
  mj_reminder_text :: "mail_candidate \<Rightarrow> nat option \<Rightarrow> outbound_email"
  mj_recap_text :: "mail_candidate \<Rightarrow> weekly_recap \<Rightarrow> outbound_email"
  mj_send :: "nat \<Rightarrow> outbound_email \<Rightarrow> send_outcome"
  mj_claim_raises :: "mail_candidate \<Rightarrow> bool"

definition no_result :: sweep_result where
  "no_result = \<lparr>sr_considered = 0, sr_sent = 0, sr_skipped = 0, sr_failed = 0, sr_not_claimed = 0,
     sr_deferred = 0\<rparr>"

definition last_active_of :: "backend \<Rightarrow> uid \<Rightarrow> date option" where
  "last_active_of b u = Option.bind (get_stats_row (streaks b) u) last_active_local_date"

definition send_daily_reminders ::
    "mail_job_env \<Rightarrow> instant \<Rightarrow> suppressions \<Rightarrow> account list \<Rightarrow> backend \<Rightarrow> mail_world
       \<Rightarrow> sweep_result \<times> mail_world" where
  "send_daily_reminders J now tbl accs b w =
     (let cs = find_reminder_candidates (mj_settings J) (mj_zones J) now tbl (last_active_of b) accs
      in if cs = [] then (no_result, w)
         else run_sweep \<lparr>se_settings = mj_settings J,
                         se_build = (\<lambda>c. Inr (Some (mj_reminder_text J c (session_count b c)))),
                         se_send = mj_send J, se_claim_raises = mj_claim_raises J\<rparr>
                now ''reminder'' cs w)"

definition send_weekly_recaps ::
    "mail_job_env \<Rightarrow> instant \<Rightarrow> suppressions \<Rightarrow> account list \<Rightarrow> backend \<Rightarrow> mail_world
       \<Rightarrow> sweep_result \<times> mail_world" where
  "send_weekly_recaps J now tbl accs b w =
     (let cs = find_recap_candidates (mj_settings J) (mj_zones J) now tbl accs
      in if cs = [] then (no_result, w)
         else run_sweep \<lparr>se_settings = mj_settings J, se_build = build_recap_mail (mj_recap_text J) b,
                         se_send = mj_send J, se_claim_raises = mj_claim_raises J\<rparr>
                now ''recap'' cs w)"

section \<open>Who is mailed\<close>

lemma map_filter_mem: "y \<in> set (List.map_filter f xs) \<longleftrightarrow> (\<exists>x\<in>set xs. f x = Some y)"
  by (auto simp: List.map_filter_def) force

lemma batch_subset: "a \<in> set (batch S rows) \<Longrightarrow> a \<in> set rows"
  unfolding batch_def by (metis in_set_takeD set_sort)

lemma reminder_due_user: "reminder_due zones now last_active a = Some c \<Longrightarrow> mc_user c = acc_id a"
  by (auto simp: reminder_due_def Let_def split: option.splits if_splits)


definition sample_account :: account where
  "sample_account = (new_account 1 ''ann'')\<lparr>acc_email := Some ''u@x.io'', acc_email_verified_at := Some 0,
     acc_reminder_time := Some (hours_us 9)\<rparr>"


text \<open>
  A user behind the batch is never looked at: the limit applies before the ledger and before the time,
  so the same lowest ids fill it on every tick.
\<close>

lemma users_behind_the_batch_are_never_reminded:
  assumes "c \<in> set (find_reminder_candidates S zones now tbl last_active accs)"
    and "distinct (map acc_id accs)"
    and "first \<subseteq> set accs" and "card first = EMAIL_JOB_BATCH_SIZE S"
    and "\<forall>a\<in>first. acc_email a \<noteq> None \<and> acc_email_verified_at a \<noteq> None \<and> acc_deleted_at a = None \<and>
      acc_reminder_time a \<noteq> None \<and> \<not> opted_out tbl ''reminder'' (acc_id a) \<and> acc_id a < u"
  shows "mc_user c \<noteq> u"
proof
  assume u: "mc_user c = u"
  let ?rows = "filter (\<lambda>a. acc_reminder_time a \<noteq> None \<and> \<not> opted_out tbl ''reminder'' (acc_id a))
    (eligible_recipients accs)"
  let ?s = "sort_key acc_id ?rows" and ?n = "EMAIL_JOB_BATCH_SIZE S"
  obtain a where a: "a \<in> set (reminder_rows S tbl accs)" and "reminder_due zones now last_active a = Some c"
    using assms(1) unfolding find_reminder_candidates_def map_filter_mem by blast
  with u have id: "acc_id a = u" by (auto dest: reminder_due_user)
  have a: "a \<in> set (take ?n ?s)" using a unfolding reminder_rows_def batch_def .
  obtain i where i: "i < ?n" "i < length ?s" "?s ! i = a"
    using a by (auto simp: in_set_conv_nth)
  have sub: "first \<subseteq> set ?s" using assms(3,5) by (auto simp: eligible_recipients_def)
  have "first \<subseteq> set (take i ?s)"
  proof
    fix f assume f: "f \<in> first"
    then have "f \<in> set ?s" using sub by (rule rev_subsetD)
    then obtain j where j: "j < length ?s" "?s ! j = f" unfolding in_set_conv_nth by blast
    have "acc_id f < acc_id a" using assms(5) f id by auto
    then have "j < i"
      using sorted_nth_mono [OF sorted_sort_key [of acc_id ?rows], of i j] i j
      by (cases "i \<le> j") (simp_all del: length_sort)
    then show "f \<in> set (take i ?s)" using j i(2) unfolding in_set_conv_nth by (intro exI [of _ j]) simp
  qed
  then have "card first \<le> length (take i ?s)"
    by (meson List.finite_set card_length card_mono le_trans)
  with i(1) assms(4) show False by simp
qed

text \<open>The numbers of a recap add up, except for grades that failed for good.\<close>

lemma recap_reconciles:
  assumes "attempts_ok b"
  shows "wr_exercises_attempted (build_weekly_recap b u d1 d2) =
    wr_graded (build_weekly_recap b u d1 d2) + wr_skipped (build_weekly_recap b u d1 d2) +
    wr_pending (build_weekly_recap b u d1 d2) + count_if (\<lambda>a. att_status a = StFailed) (week_attempts b u d1 d2)"
proof -
  have "\<forall>a\<in>set xs. att_correct a \<noteq> None \<longleftrightarrow> att_status a = StGraded \<Longrightarrow>
      length xs = count_if (\<lambda>a. att_correct a \<noteq> None) xs + count_if (\<lambda>a. att_status a = StSkipped) xs +
        count_if (\<lambda>a. att_status a = StPending) xs + count_if (\<lambda>a. att_status a = StFailed) xs" for xs
  proof (induction xs)
    case (Cons a xs)
    then show ?case by (cases "att_status a") (auto simp: count_if_def)
  qed (simp add: count_if_def)
  moreover have "\<forall>a\<in>set (week_attempts b u d1 d2). att_correct a \<noteq> None \<longleftrightarrow> att_status a = StGraded"
    using assms by (auto simp: attempts_ok_def week_attempts_def)
  ultimately show ?thesis by (simp add: build_weekly_recap_def Let_def)
qed

end
