(* ===== verification/Base64.thy ===== *)
theory Base64
  imports Pystring "HOL-Library.Word"
begin

text \<open>
  The URL-safe base64 of the standard library, as the token code uses it: \<open>urlsafe_b64encode\<close> with its
  padding stripped, and \<open>urlsafe_b64decode\<close>, which is not strict: characters of ASCII outside the alphabet
  are skipped and a complete group of padding ends the text.
\<close>

type_synonym byte = "8 word"

definition sextet_char :: "nat \<Rightarrow> char" where
  "sextet_char n =
     (if n < 26 then char_of (n + 65) else if n < 52 then char_of (n + 71)
      else if n < 62 then char_of (n - 4) else if n = 62 then CHR ''-'' else CHR ''_'')"

text \<open>
  The value of a character; \<open>translate\<close> maps the two URL-safe characters to plus and slash first, so
  these two are accepted as well.
\<close>

definition char_sextet :: "char \<Rightarrow> nat option" where
  "char_sextet c =
     (if is_upper c then Some (code c - 65)
      else if is_lower c then Some (code c - 71)
      else if is_digit c then Some (code c + 4)
      else if code c = 45 \<or> code c = 43 then Some 62
      else if code c = 95 \<or> code c = 47 then Some 63
      else None)"

fun b64_sextets :: "nat list \<Rightarrow> nat list" where
  "b64_sextets [] = []"
| "b64_sextets [a] = [a div 4, (a mod 4) * 16]"
| "b64_sextets [a, b] = [a div 4, (a mod 4) * 16 + b div 16, (b mod 16) * 4]"
| "b64_sextets (a # b # c # rest) =
     a div 4 # ((a mod 4) * 16 + b div 16) # ((b mod 16) * 4 + c div 64) # (c mod 64) # b64_sextets rest"

text \<open>\<open>urlsafe_b64encode(raw).rstrip("=")\<close>.\<close>

definition b64 :: "byte list \<Rightarrow> string" where
  "b64 raw = map sextet_char (b64_sextets (map unat raw))"

text \<open>
  \<open>binascii.a2b_base64\<close> without strict mode. \<open>quad\<close> is the position in the group of four, \<open>pads\<close> the
  number of padding characters seen since the last data character, \<open>left\<close> the bits left over. \<open>None\<close> is
  the error of incomplete padding or of a single left-over character.
\<close>

fun a2b :: "nat \<Rightarrow> nat \<Rightarrow> nat \<Rightarrow> string \<Rightarrow> nat list option" where
  "a2b quad pads left [] = (if quad = 0 then Some [] else None)"
| "a2b quad pads left (c # cs) =
     (if c = CHR ''='' then
        (if 2 \<le> quad \<and> 4 \<le> quad + pads + 1 then Some []
         else a2b quad (if 2 \<le> quad then pads + 1 else pads) left cs)
      else
        (case char_sextet c of
           None \<Rightarrow> a2b quad pads left cs
         | Some v \<Rightarrow>
             if quad = 0 then a2b 1 0 v cs
             else if quad = 1 then map_option ((#) (left * 4 + v div 16)) (a2b 2 0 (v mod 16) cs)
             else if quad = 2 then map_option ((#) (left * 16 + v div 4)) (a2b 3 0 (v mod 4) cs)
             else map_option ((#) (left * 64 + v)) (a2b 0 0 0 cs)))"

definition unb64 :: "string \<Rightarrow> byte list option" where
  "unb64 s =
     (if \<forall>c\<in>set s. code c < 128
      then map_option (map of_nat) (a2b 0 0 0 (s @ replicate ((4 - length s mod 4) mod 4) (CHR ''='')))
      else None)"

section \<open>Round trip\<close>

lemma code_sextet_char: "n < 64 \<Longrightarrow> code (sextet_char n) =
    (if n < 26 then n + 65 else if n < 52 then n + 71 else if n < 62 then n - 4 else if n = 62 then 45 else 95)"
  by (simp add: sextet_char_def) (auto simp: code_def)

lemma char_sextet_char [simp]: "n < 64 \<Longrightarrow> char_sextet (sextet_char n) = Some n"
  by (auto simp: char_sextet_def code_sextet_char is_upper_def is_lower_def is_digit_def)

lemma sextet_char_not_pad [simp]: "n < 64 \<Longrightarrow> sextet_char n \<noteq> CHR ''=''"
  using code_sextet_char [of n] by (auto simp: code_def split: if_splits)

lemma sextets_lt: "\<forall>b\<in>set bs. b < 256 \<Longrightarrow> v \<in> set (b64_sextets bs) \<Longrightarrow> v < 64"
  by (induction bs rule: b64_sextets.induct) (auto simp: div_less)

lemma byte_lt: "unat (b :: byte) < 256"
  using unsigned_less [of b] by simp

lemma low16: "b < 256 \<Longrightarrow> b div 16 div 16 = 0" "b < 256 \<Longrightarrow> b div 16 mod 16 = b div 16" for b :: nat
  by auto

lemma low64: "c < 256 \<Longrightarrow> c div 64 div 4 = 0" "c < 256 \<Longrightarrow> c div 64 mod 4 = c div 64" for c :: nat
  by auto

lemma pack16: "b < 256 \<Longrightarrow> (k * 16 + b div 16) div 16 = k" "b < 256 \<Longrightarrow> (k * 16 + b div 16) mod 16 = b div 16"
  for b k :: nat by auto

lemma pack4: "c < 256 \<Longrightarrow> (k * 4 + c div 64) div 4 = k" "c < 256 \<Longrightarrow> (k * 4 + c div 64) mod 4 = c div 64"
  for c k :: nat by auto

lemma join4 [simp]: "a div 4 * 4 + a mod 4 = a" for a :: nat by (rule div_mult_mod_eq)
lemma join16 [simp]: "a div 16 * 16 + a mod 16 = a" for a :: nat by (rule div_mult_mod_eq)
lemma join64 [simp]: "a div 64 * 64 + a mod 64 = a" for a :: nat by (rule div_mult_mod_eq)

lemma b64_bounds: "a < 256 \<Longrightarrow> a div 4 < 64" "(a mod 4) * 16 < 64" "(a mod 16) * 4 < 64"
    "b < 256 \<Longrightarrow> (a mod 4) * 16 + b div 16 < 64" "b < 256 \<Longrightarrow> (a mod 16) * 4 + b div 64 < 64" for a b :: nat
  by auto

lemma a2b_sextet:
  assumes "v < 64"
  shows "a2b quad pads left (sextet_char v # cs) =
    (if quad = 0 then a2b 1 0 v cs
     else if quad = 1 then map_option ((#) (left * 4 + v div 16)) (a2b 2 0 (v mod 16) cs)
     else if quad = 2 then map_option ((#) (left * 16 + v div 4)) (a2b 3 0 (v mod 4) cs)
     else map_option ((#) (left * 64 + v)) (a2b 0 0 0 cs))"
  using assms by simp

lemma a2b_encoded:
  assumes "\<forall>b\<in>set bs. b < 256"
  shows "a2b 0 0 0 (map sextet_char (b64_sextets bs) @
    replicate ((4 - length (b64_sextets bs) mod 4) mod 4) (CHR ''='')) = Some bs"
  using assms
proof (induction bs rule: b64_sextets.induct)
  case (2 a)
  then show ?case by (simp add: a2b_sextet b64_bounds numeral_2_eq_2 del: a2b.simps) simp
next
  case (3 a b)
  then show ?case by (simp add: a2b_sextet b64_bounds pack16 del: a2b.simps) (simp add: low16)
next
  case (4 a b c rest)
  have "(4 + length (b64_sextets rest)) mod 4 = length (b64_sextets rest) mod 4" by simp
  with 4 show ?case by (simp add: a2b_sextet b64_bounds pack16 pack4 del: a2b.simps) (simp add: low16 low64)
qed simp

lemma sextet_char_code: "n < 64 \<Longrightarrow> 45 \<le> code (sextet_char n) \<and> code (sextet_char n) < 123 \<and> code (sextet_char n) \<noteq> 46"
  by (auto simp: code_sextet_char)

lemma b64_code:
  assumes "c \<in> set (b64 raw)"
  shows "45 \<le> code c \<and> code c < 123 \<and> code c \<noteq> 46"
proof -
  have lt: "\<forall>b\<in>set (map unat raw). b < 256" by (simp add: byte_lt)
  obtain v where "v \<in> set (b64_sextets (map unat raw))" "c = sextet_char v"
    using assms by (auto simp: b64_def)
  with sextets_lt [OF lt] show ?thesis by (simp add: sextet_char_code)
qed

lemma unb64_b64 [simp]: "unb64 (b64 raw) = Some raw"
proof -
  have lt: "\<forall>b\<in>set (map unat raw). b < 256" by (simp add: byte_lt)
  have "\<forall>c\<in>set (b64 raw). code c < 128" using b64_code [of _ raw] by fastforce
  then show ?thesis
    using a2b_encoded [OF lt] by (simp add: unb64_def b64_def comp_def map_idI)
qed

end
