(* ===== verification/Uuid.thy ===== *)
theory Uuid
  imports Base64
begin

text \<open>
  \<open>str(uuid)\<close>, \<open>uuid.UUID(text)\<close> and \<open>int(text, base)\<close> of the standard library on ASCII texts. A UUID
  is its 128-bit number, as the ids of the model are.
\<close>

section \<open>Numbers in a base\<close>

definition digit_val :: "char \<Rightarrow> nat option" where
  "digit_val c =
     (if is_digit c then Some (code c - 48)
      else if is_lower c then Some (code c - 87)
      else if is_upper c then Some (code c - 55)
      else None)"

text \<open>Digits with single underscores between them; the flag says that a digit was just read.\<close>

fun read_digits :: "nat \<Rightarrow> bool \<Rightarrow> nat \<Rightarrow> string \<Rightarrow> nat option" where
  "read_digits b p acc [] = (if p then Some acc else None)"
| "read_digits b p acc (c # cs) =
     (if c = CHR ''_'' then (if p then read_digits b False acc cs else None)
      else (case digit_val c of
              None \<Rightarrow> None
            | Some v \<Rightarrow> if v < b then read_digits b True (acc * b + v) cs else None))"

definition skip_prefix :: "nat \<Rightarrow> string \<Rightarrow> string" where
  "skip_prefix b s =
     (if b = 16 \<and> (starts_with ''0x'' s \<or> starts_with ''0X'' s)
      then (case drop 2 s of c # cs \<Rightarrow> if c = CHR ''_'' then cs else c # cs | [] \<Rightarrow> [])
      else s)"

definition py_int :: "nat \<Rightarrow> string \<Rightarrow> int option" where
  "py_int b s =
     (case strip s of
        [] \<Rightarrow> None
      | c # cs \<Rightarrow>
          if c = CHR ''-'' then map_option (\<lambda>n. - int n) (read_digits b False 0 (skip_prefix b cs))
          else if c = CHR ''+'' then map_option int (read_digits b False 0 (skip_prefix b cs))
          else map_option int (read_digits b False 0 (skip_prefix b (c # cs))))"

text \<open>\<open>str(n)\<close> of an integer.\<close>

fun nat_str :: "nat \<Rightarrow> string" where
  "nat_str n = (if n < 10 then [char_of (n + 48)] else nat_str (n div 10) @ [char_of (n mod 10 + 48)])"

declare nat_str.simps [simp del]

definition int_str :: "int \<Rightarrow> string" where
  "int_str n = (if n < 0 then ''-'' @ nat_str (nat (- n)) else nat_str (nat n))"

section \<open>UUIDs\<close>

definition hex_char :: "nat \<Rightarrow> char" where
  "hex_char v = (if v < 10 then char_of (v + 48) else char_of (v + 87))"

fun hex_text :: "nat \<Rightarrow> nat \<Rightarrow> string" where
  "hex_text 0 u = []"
| "hex_text (Suc n) u = hex_text n (u div 16) @ [hex_char (u mod 16)]"

definition uuid_str :: "nat \<Rightarrow> string" where
  "uuid_str u =
     (let h = hex_text 32 u in
      take 8 h @ ''-'' @ take 4 (drop 8 h) @ ''-'' @ take 4 (drop 12 h) @ ''-'' @ take 4 (drop 16 h) @ ''-'' @ drop 20 h)"

text \<open>\<open>s.replace(p, "")\<close> for a text \<open>p\<close> that is not empty; \<open>k\<close> characters are still to be skipped.\<close>

fun remove_text :: "string \<Rightarrow> nat \<Rightarrow> string \<Rightarrow> string" where
  "remove_text p k [] = []"
| "remove_text p (Suc k) (c # cs) = remove_text p k cs"
| "remove_text p 0 (c # cs) =
     (if starts_with p (c # cs) then remove_text p (length p - 1) cs else c # remove_text p 0 cs)"

definition strip_braces :: "string \<Rightarrow> string" where
  "strip_braces s = (let cut = dropWhile (\<lambda>c. c = CHR ''{'' \<or> c = CHR ''}'') in rev (cut (rev (cut s))))"

definition uuid_parse :: "string \<Rightarrow> nat option" where
  "uuid_parse s =
     (let h = filter (\<lambda>c. c \<noteq> CHR ''-'') (strip_braces (remove_text ''uuid:'' 0 (remove_text ''urn:'' 0 s)))
      in if length h \<noteq> 32 then None
         else (case py_int 16 h of
                 None \<Rightarrow> None
               | Some n \<Rightarrow> if 0 \<le> n \<and> n < 2 ^ 128 then Some (nat n) else None))"

section \<open>Round trip\<close>

definition hex_digit :: "char \<Rightarrow> bool" where
  "hex_digit c \<longleftrightarrow> is_digit c \<or> 97 \<le> code c \<and> code c \<le> 102"

lemma code_hex_char: "v < 16 \<Longrightarrow> code (hex_char v) = (if v < 10 then v + 48 else v + 87)"
  by (simp add: hex_char_def)

lemma hex_digit_char: "v < 16 \<Longrightarrow> hex_digit (hex_char v)"
  by (simp add: hex_digit_def is_digit_def code_hex_char)

lemma digit_val_hex_char [simp]: "v < 16 \<Longrightarrow> digit_val (hex_char v) = Some v"
  by (simp add: digit_val_def code_hex_char is_digit_def is_lower_def)

lemma hex_text_digits: "c \<in> set (hex_text n u) \<Longrightarrow> hex_digit c"
  by (induction n arbitrary: u) (auto simp: hex_digit_char)

lemma length_hex_text [simp]: "length (hex_text n u) = n"
  by (induction n arbitrary: u) simp_all

lemma hex_digit_not: "hex_digit c \<Longrightarrow> c \<noteq> CHR ''_'' \<and> c \<noteq> CHR ''-'' \<and> c \<noteq> CHR '':'' \<and> c \<noteq> CHR ''x'' \<and> c \<noteq> CHR ''X'' \<and>
    c \<noteq> CHR ''{'' \<and> c \<noteq> CHR ''}'' \<and> c \<noteq> CHR ''+'' \<and> \<not> py_space c \<and> code c < 128"
  by (auto simp: hex_digit_def is_digit_def py_space_def code_def [symmetric] Let_def char_eq_code)
     (auto simp: code_def)

lemma read_hex_char:
  "v < 16 \<Longrightarrow> read_digits 16 p acc (hex_char v # cs) = read_digits 16 True (acc * 16 + v) cs"
  using hex_digit_not [OF hex_digit_char] by simp

lemma read_hex_text:
  "u < 16 ^ n \<Longrightarrow> read_digits 16 p acc (hex_text n u @ cs) =
    (if n = 0 then read_digits 16 p acc cs else read_digits 16 True (acc * 16 ^ n + u) cs)"
proof (induction n arbitrary: u p acc cs)
  case (Suc n)
  have lt: "u div 16 < 16 ^ n" using Suc.prems by (simp add: less_mult_imp_div_less mult.commute)
  have "u div 16 * 16 + u mod 16 = u" by simp
  then have "(acc * 16 ^ n + u div 16) * 16 + u mod 16 = acc * 16 ^ Suc n + u" by (simp add: algebra_simps)
  moreover have "n = 0 \<Longrightarrow> u div 16 = 0" using lt by simp
  moreover have "hex_text (Suc n) u @ cs = hex_text n (u div 16) @ hex_char (u mod 16) # cs" by simp
  ultimately show ?case
    using Suc.IH [OF lt, of p acc "hex_char (u mod 16) # cs"] lt
    by (cases "n = 0") (simp_all add: read_hex_char algebra_simps del: hex_text.simps read_digits.simps)
qed simp

lemma remove_text_absent: "last p \<notin> set s \<Longrightarrow> p \<noteq> [] \<Longrightarrow> remove_text p 0 s = s"
proof (induction s)
  case (Cons c s)
  have "\<not> starts_with p (c # s)"
  proof
    assume "starts_with p (c # s)"
    then have "last p \<in> set (take (length p) (c # s))" using Cons.prems by (simp add: starts_with_def)
    then show False using Cons.prems(1) by (meson in_set_takeD)
  qed
  with Cons show ?case by simp
qed simp

lemma dropWhile_hd: "s \<noteq> [] \<Longrightarrow> \<not> P (hd s) \<Longrightarrow> dropWhile P s = s"
  by (cases s) simp_all

lemma strip_ends:
  assumes "s \<noteq> []" and "\<not> py_space (hd s)" and "\<not> py_space (last s)"
  shows "strip s = s"
  using assms by (simp add: strip_def lstrip_def dropWhile_hd hd_rev)

lemma strip_braces_ends:
  assumes "s \<noteq> []" and "hd s \<noteq> CHR ''{'' \<and> hd s \<noteq> CHR ''}''" and "last s \<noteq> CHR ''{'' \<and> last s \<noteq> CHR ''}''"
  shows "strip_braces s = s"
  using assms by (simp add: strip_braces_def Let_def dropWhile_hd hd_rev)

lemma uuid_str_chars: "c \<in> set (uuid_str u) \<Longrightarrow> hex_digit c \<or> c = CHR ''-''"
  unfolding uuid_str_def Let_def
  by (auto dest!: in_set_takeD in_set_dropD intro: hex_text_digits)

lemma filter_uuid_str: "filter (\<lambda>c. c \<noteq> CHR ''-'') (uuid_str u) = hex_text 32 u"
proof -
  let ?h = "hex_text 32 u"
  have keep: "filter (\<lambda>c. c \<noteq> CHR ''-'') xs = xs" if "set xs \<subseteq> set ?h" for xs
    using that hex_text_digits hex_digit_not by (intro filter_True) blast
  have "take 8 ?h @ take 4 (drop 8 ?h) @ take 4 (drop 12 ?h) @ take 4 (drop 16 ?h) @ drop 20 ?h = ?h"
  proof -
    have "take 4 (drop 16 ?h) @ drop 20 ?h = drop 16 ?h" using append_take_drop_id [of 4 "drop 16 ?h"] by simp
    moreover have "take 4 (drop 12 ?h) @ drop 16 ?h = drop 12 ?h" using append_take_drop_id [of 4 "drop 12 ?h"] by simp
    moreover have "take 4 (drop 8 ?h) @ drop 12 ?h = drop 8 ?h" using append_take_drop_id [of 4 "drop 8 ?h"] by simp
    ultimately show ?thesis by simp
  qed
  then show ?thesis
    by (simp add: uuid_str_def Let_def keep set_take_subset set_drop_subset
        subset_trans [OF set_take_subset set_drop_subset])
qed

lemma uuid_str_ends: "uuid_str u \<noteq> [] \<and> hex_digit (hd (uuid_str u)) \<and> hex_digit (last (uuid_str u))"
proof -
  let ?h = "hex_text 32 u"
  have "length ?h = 32" by (rule length_hex_text)
  then have ne: "?h \<noteq> []" by (metis list.size(3) zero_neq_numeral)
  have "hd (uuid_str u) = hd ?h" "last (uuid_str u) = last ?h" "uuid_str u \<noteq> []"
    using ne by (simp_all add: uuid_str_def Let_def last_drop del: hex_text.simps)
  then show ?thesis using hex_text_digits hd_in_set [OF ne] last_in_set [OF ne] by metis
qed

lemma uuid_round_trip:
  assumes "u < 2 ^ 128"
  shows "uuid_parse (uuid_str u) = Some u"
proof -
  let ?h = "hex_text 32 u"
  have "CHR '':'' \<notin> set (uuid_str u)" using uuid_str_chars hex_digit_not by fastforce
  then have "remove_text ''uuid:'' 0 (remove_text ''urn:'' 0 (uuid_str u)) = uuid_str u"
    by (simp add: remove_text_absent)
  moreover have "strip_braces (uuid_str u) = uuid_str u"
    using uuid_str_ends hex_digit_not by (intro strip_braces_ends) blast+
  moreover have "py_int 16 ?h = Some (int u)"
  proof -
    obtain c cs where h: "?h = c # cs" by (metis length_hex_text list.size(3) neq_Nil_conv zero_neq_numeral)
    have hd: "hex_digit x" if "x \<in> set ?h" for x using that by (rule hex_text_digits)
    have "strip ?h = ?h" using hd hex_digit_not h by (intro strip_ends) (auto intro!: last_in_set)
    moreover have "skip_prefix 16 ?h = ?h"
    proof -
      have "\<not> starts_with ''0x'' ?h" "\<not> starts_with ''0X'' ?h"
        using hd hex_digit_not unfolding starts_with_def
        by (metis in_set_takeD list.set_intros(1) list.set_intros(2))+
      then show ?thesis by (simp add: skip_prefix_def)
    qed
    moreover have "c \<noteq> CHR ''-'' \<and> c \<noteq> CHR ''+''" using hd [of c] hex_digit_not h by auto
    moreover have "read_digits 16 False 0 ?h = Some u"
      using read_hex_text [of u 32 False 0 "[]"] assms by simp
    ultimately show ?thesis by (simp add: py_int_def h del: hex_text.simps)
  qed
  ultimately show ?thesis
    using assms by (simp add: uuid_parse_def filter_uuid_str Let_def del: hex_text.simps)
qed

end
