(* ===== verification/Tokens.thy ===== *)
theory Tokens
  imports Uuid Prelude
begin

text \<open>
  The signed tokens: access tokens (\<open>auth/tokens.py\<close>, \<open>auth/deps.py\<close>) and unsubscribe links
  (\<open>email/unsubscribe.py\<close>). The keyed hash and \<open>json\<close> are parameters; the id inside a token is printed
  and read as the standard library does.
\<close>

definition ascii_bytes :: "string \<Rightarrow> byte list" where
  "ascii_bytes s = map (\<lambda>c. of_nat (code c)) s"

text \<open>\<open>payload.decode("utf-8")\<close> of bytes below 128; others name no id and no kind.\<close>

definition ascii_text :: "byte list \<Rightarrow> string option" where
  "ascii_text bs = (if \<forall>b\<in>set bs. unat b < 128 then Some (map (\<lambda>b. char_of (unat b)) bs) else None)"

section \<open>Unsubscribe links\<close>

definition suppression_kinds :: "string list" where
  "suppression_kinds = [''reminder'', ''recap'', ''all'']"

type_synonym mac_fun = "string \<Rightarrow> byte list \<Rightarrow> byte list"

definition unsubscribe_mac :: "mac_fun \<Rightarrow> byte list \<Rightarrow> string \<Rightarrow> byte list" where
  "unsubscribe_mac hmac payload secret = hmac secret (ascii_bytes ''codereader-unsubscribe-v1'' @ 0 # payload)"

definition mint_unsubscribe_token :: "mac_fun \<Rightarrow> string list \<Rightarrow> uid \<Rightarrow> string \<Rightarrow> string result" where
  "mint_unsubscribe_token hmac secrets u kind =
     (if kind \<notin> set suppression_kinds then Inl (ValueError ''Unknown suppression kind'')
      else
        (let payload = ascii_bytes (uuid_str u @ '':'' @ kind) in
         (case secrets of
            [] \<Rightarrow> Inl IndexError
          | s # _ \<Rightarrow> Inr (b64 payload @ ''.'' @ b64 (unsubscribe_mac hmac payload s)))))"

definition bad_link :: "'a result" where
  "bad_link = Inl (ValueError ''InvalidUnsubscribeToken'')"

definition parse_unsubscribe_token :: "mac_fun \<Rightarrow> string list \<Rightarrow> string \<Rightarrow> (uid \<times> string) result" where
  "parse_unsubscribe_token hmac secrets token =
     (case split_on (CHR ''.'') token of
        [encoded_payload, encoded_mac] \<Rightarrow>
          (case (unb64 encoded_payload, unb64 encoded_mac) of
             (Some payload, Some presented) \<Rightarrow>
               if \<not> (\<exists>s\<in>set secrets. unsubscribe_mac hmac payload s = presented) then bad_link
               else
                 (case ascii_text payload of
                    None \<Rightarrow> bad_link
                  | Some t \<Rightarrow>
                      (case partition_at (CHR '':'') t of
                         (raw_user_id, _, kind) \<Rightarrow>
                           (case uuid_parse raw_user_id of
                              None \<Rightarrow> bad_link
                            | Some u \<Rightarrow> if kind \<in> set suppression_kinds then Inr (u, kind) else bad_link)))
           | _ \<Rightarrow> bad_link)
      | _ \<Rightarrow> bad_link)"

definition unsubscribe_url :: "string \<Rightarrow> string \<Rightarrow> mac_fun \<Rightarrow> string list \<Rightarrow> uid \<Rightarrow> string \<Rightarrow> string result" where
  "unsubscribe_url origin path hmac secrets u kind =
     (case mint_unsubscribe_token hmac secrets u kind of
        Inl e \<Rightarrow> Inl e | Inr t \<Rightarrow> Inr (origin @ path @ ''?token='' @ t))"

definition unsubscribe_api_url :: "string \<Rightarrow> mac_fun \<Rightarrow> string list \<Rightarrow> uid \<Rightarrow> string \<Rightarrow> string result" where
  "unsubscribe_api_url origin = unsubscribe_url origin ''/v1/unsubscribe''"

definition unsubscribe_page_url :: "string \<Rightarrow> mac_fun \<Rightarrow> string list \<Rightarrow> uid \<Rightarrow> string \<Rightarrow> string result" where
  "unsubscribe_page_url origin = unsubscribe_url origin ''/unsubscribe''"

section \<open>Access tokens\<close>

record token_env =
  te_hmac :: mac_fun
  te_dumps :: "json \<Rightarrow> string"
  te_loads :: "byte list \<Rightarrow> json option"

definition json_b64 :: "token_env \<Rightarrow> json \<Rightarrow> string" where
  "json_b64 E v = b64 (ascii_bytes (te_dumps E v))"

definition sign :: "token_env \<Rightarrow> string \<Rightarrow> string \<Rightarrow> string" where
  "sign E message secret = b64 (te_hmac E secret (ascii_bytes message))"

record access_claims =
  ac_sub :: uid
  ac_plan :: json
  ac_exp :: int
  ac_iat :: int
  ac_jti :: json

definition token_header :: json where
  "token_header = JObj [(''alg'', JStr ''HS256''), (''typ'', JStr ''JWT'')]"

definition access_payload :: "uid \<Rightarrow> int \<Rightarrow> int \<Rightarrow> string \<Rightarrow> json" where
  "access_payload u iat ttl jti =
     JObj [(''sub'', JStr (uuid_str u)), (''plan'', JStr ''free''), (''exp'', JInt (iat + ttl)),
           (''iat'', JInt iat), (''jti'', JStr jti)]"

definition issue_access_token :: "token_env \<Rightarrow> uid \<Rightarrow> string \<Rightarrow> int \<Rightarrow> instant \<Rightarrow> string \<Rightarrow> string" where
  "issue_access_token E u secret ttl now jti =
     (let signing_input = json_b64 E token_header @ ''.'' @ json_b64 E (access_payload u (now div 1000000) ttl jti)
      in signing_input @ ''.'' @ sign E signing_input secret)"

definition token_error :: exn where "token_error = ApiError 401 ''invalid_token''"
definition token_expired :: exn where "token_expired = ApiError 401 ''token_expired''"

text \<open>\<open>set(payload)\<close> compared with the claims: the keys of an object, the elements of a list, the characters
  of a text; a list or an object is not hashable and the other values cannot be iterated.\<close>

definition claims :: "string set" where
  "claims = {''sub'', ''plan'', ''exp'', ''iat'', ''jti''}"

fun payload_set :: "json \<Rightarrow> json set result" where
  "payload_set (JObj kvs) = Inr (set (map (\<lambda>(k, _). JStr k) kvs))"
| "payload_set (JArr vs) =
     (if \<exists>v\<in>set vs. (case v of JArr _ \<Rightarrow> True | JObj _ \<Rightarrow> True | _ \<Rightarrow> False) then Inl TypeError else Inr (set vs))"
| "payload_set (JStr s) = Inr ((\<lambda>c. JStr [c]) ` set s)"
| "payload_set _ = Inl TypeError"

fun json_int :: "json \<Rightarrow> int result" where
  "json_int (JInt n) = Inr n"
| "json_int (JBool b) = Inr (if b then 1 else 0)"
| "json_int (JFloat x) = Inr (if 0 \<le> x then \<lfloor>x\<rfloor> else \<lceil>x\<rceil>)"
| "json_int (JStr s) = (case py_int 10 s of None \<Rightarrow> Inl (ValueError ''int'') | Some n \<Rightarrow> Inr n)"
| "json_int _ = Inl TypeError"

text \<open>
  The signature is compared as text, which \<open>hmac.compare_digest\<close> refuses with an error when it is not
  ASCII. \<open>AttributeError\<close> is a \<open>RuntimeError\<close> here.
\<close>

definition verify_signature :: "token_env \<Rightarrow> string list \<Rightarrow> string \<Rightarrow> string \<Rightarrow> bool result" where
  "verify_signature E secrets signing_input signature =
     (if secrets = [] then Inr False
      else if \<exists>c\<in>set signature. 128 \<le> code c then Inl TypeError
      else Inr (\<exists>s\<in>set secrets. sign E signing_input s = signature))"

definition check_claims :: "instant \<Rightarrow> jobj \<Rightarrow> access_claims result" where
  "check_claims now p =
     (case json_int (get p ''exp'' JNull) of
        Inl e \<Rightarrow> Inl e
      | Inr e \<Rightarrow>
          if e \<le> now div 1000000 then Inl token_expired
          else
            (case (get p ''sub'' JNull, json_int (get p ''iat'' JNull)) of
               (JStr s, Inr i) \<Rightarrow>
                 (case uuid_parse s of
                    None \<Rightarrow> Inl token_error
                  | Some u \<Rightarrow> Inr \<lparr>ac_sub = u, ac_plan = get p ''plan'' JNull, ac_exp = e, ac_iat = i,
                                    ac_jti = get p ''jti'' JNull\<rparr>)
             | _ \<Rightarrow> Inl token_error))"

definition verify_access_token :: "token_env \<Rightarrow> string \<Rightarrow> string list \<Rightarrow> instant \<Rightarrow> access_claims result" where
  "verify_access_token E token secrets now =
     (case split_on (CHR ''.'') token of
        [header_b64, payload_b64, signature] \<Rightarrow>
          (case (Option.bind (unb64 header_b64) (te_loads E), Option.bind (unb64 payload_b64) (te_loads E)) of
             (Some header, Some payload) \<Rightarrow>
               if \<not> (case header of
                        JObj kvs \<Rightarrow> keys kvs = {''alg'', ''typ''} \<and> get kvs ''alg'' JNull = JStr ''HS256'' \<and>
                                     get kvs ''typ'' JNull = JStr ''JWT''
                      | _ \<Rightarrow> False) then Inl token_error
               else
                 (case payload_set payload of
                    Inl e \<Rightarrow> Inl e
                  | Inr ks \<Rightarrow>
                      if ks \<noteq> JStr ` claims then Inl token_error
                      else
                        (case payload of
                           JObj p \<Rightarrow>
                             if get p ''plan'' JNull \<noteq> JStr ''free'' then Inl token_error
                             else
                               (case verify_signature E secrets (header_b64 @ ''.'' @ payload_b64) signature of
                                  Inl e \<Rightarrow> Inl e
                                | Inr ok \<Rightarrow> if \<not> ok then Inl token_error else check_claims now p)
                         | _ \<Rightarrow> Inl (RuntimeError ''AttributeError'')))
           | _ \<Rightarrow> Inl token_error)
      | _ \<Rightarrow> Inl token_error)"

definition require_access_token ::
    "token_env \<Rightarrow> string list \<Rightarrow> instant \<Rightarrow> string \<Rightarrow> (uid \<times> json) result" where
  "require_access_token E secrets now authorization =
     (case partition_at (CHR '' '') authorization of
        (scheme, _, token) \<Rightarrow>
          if lower scheme \<noteq> ''bearer'' \<or> token = [] then Inl token_error
          else
            (case verify_access_token E token secrets now of
               Inl e \<Rightarrow> Inl e
             | Inr c \<Rightarrow> Inr (ac_sub c, ac_jti c)))"

section \<open>Facts\<close>

lemma ascii_round_trip: "\<forall>c\<in>set s. code c < 128 \<Longrightarrow> ascii_text (ascii_bytes s) = Some s"
proof -
  assume a: "\<forall>c\<in>set s. code c < 128"
  have u: "unat (of_nat (code c) :: byte) = code c" for c
    by (simp add: unat_of_nat)
  have "char_of (code c) = c" for c by (simp add: char_eq_code)
  with a u show ?thesis by (simp add: ascii_text_def ascii_bytes_def comp_def map_idI)
qed

lemma ascii_text_bytes: "ascii_text bs = Some t \<Longrightarrow> ascii_bytes t = bs"
proof -
  have "word_of_nat (unat b mod 256) = b" for b :: byte by (simp add: byte_lt)
  then show "ascii_text bs = Some t \<Longrightarrow> ?thesis"
    by (auto simp: ascii_text_def ascii_bytes_def comp_def map_idI split: if_splits)
qed

lemma no_dot_b64 [simp]: "CHR ''.'' \<notin> set (b64 raw)"
  using b64_code [of "CHR ''.''" raw] by (auto simp: code_def)

lemma uuid_str_plain: "c \<in> set (uuid_str u) \<Longrightarrow> code c < 128 \<and> c \<noteq> CHR '':''"
  using uuid_str_chars [of c u] hex_digit_not [of c] by (auto simp: code_def)

lemma kind_ascii: "k \<in> set suppression_kinds \<Longrightarrow> c \<in> set k \<Longrightarrow> code c < 128"
  by (auto simp: suppression_kinds_def code_def)

lemma parse_minted_link:
  assumes "mint_unsubscribe_token hmac (s # old) u kind = Inr token" and "s \<in> set secrets" and "u < 2 ^ 128"
  shows "parse_unsubscribe_token hmac secrets token = Inr (u, kind)"
proof -
  let ?text = "uuid_str u @ CHR '':'' # kind"
  have k: "kind \<in> set suppression_kinds"
    and token: "token = b64 (ascii_bytes ?text) @ CHR ''.'' # b64 (unsubscribe_mac hmac (ascii_bytes ?text) s)"
    using assms(1) by (auto simp: mint_unsubscribe_token_def Let_def split: if_splits)
  have "\<forall>c\<in>set ?text. code c < 128"
    using uuid_str_plain kind_ascii [OF k] by (auto simp: code_def)
  then have "ascii_text (ascii_bytes ?text) = Some ?text" by (rule ascii_round_trip)
  moreover have "partition_at (CHR '':'') ?text = (uuid_str u, True, kind)"
    using uuid_str_plain by (intro partition_at_append) blast
  moreover have "split_on (CHR ''.'') token =
      [b64 (ascii_bytes ?text), b64 (unsubscribe_mac hmac (ascii_bytes ?text) s)]"
    by (simp add: token split_on_cons split_on_single)
  ultimately show ?thesis
    using k assms(2) by (auto simp: parse_unsubscribe_token_def uuid_round_trip [OF assms(3)])
qed

text \<open>
  C25: A link minted for a user and a kind is read back as that user and kind, under any later set of
  secrets that still holds the one it was signed with.
\<close>

theorem unsubscribe_link_round_trip:
  assumes "mint_unsubscribe_token hmac (s # old) u kind = Inr token" and "s \<in> set secrets" and "u < 2 ^ 128"
  shows "parse_unsubscribe_token hmac secrets token = Inr (u, kind)"
  using assms by (rule parse_minted_link)

text \<open>
  Only a holder of a signing secret can name a user to opt out: an accepted link carries the keyed
  hash, under one of the secrets, of the bytes that spell the user and the kind it is accepted for.
\<close>

theorem accepted_unsubscribe_link_is_signed:
  assumes "parse_unsubscribe_token hmac secrets token = Inr (u, kind)"
  shows "kind \<in> {''reminder'', ''recap'', ''all''} \<and>
    (\<exists>p m s payload id. token = p @ CHR ''.'' # m \<and> s \<in> set secrets \<and> unb64 p = Some payload \<and>
       unb64 m = Some (hmac s (ascii_bytes ''codereader-unsubscribe-v1'' @ 0 # payload)) \<and>
       payload = ascii_bytes (id @ CHR '':'' # kind) \<and> uuid_parse id = Some u)"
proof -
  obtain p m where sp: "split_on (CHR ''.'') token = [p, m]"
    using assms by (auto simp: parse_unsubscribe_token_def bad_link_def split: list.splits)
  obtain payload mac where b: "unb64 p = Some payload" "unb64 m = Some mac"
    using assms sp by (auto simp: parse_unsubscribe_token_def bad_link_def split: option.splits)
  obtain s where s: "s \<in> set secrets" "unsubscribe_mac hmac payload s = mac"
    using assms sp b by (auto simp: parse_unsubscribe_token_def bad_link_def split: if_splits)
  obtain t where t: "ascii_text payload = Some t"
    using assms sp b s by (auto simp: parse_unsubscribe_token_def bad_link_def split: if_splits option.splits)
  obtain i x where pt: "partition_at (CHR '':'') t = (i, x, kind)" and u: "uuid_parse i = Some u"
    and k: "kind \<in> set suppression_kinds"
    using assms sp b s t by (auto simp: parse_unsubscribe_token_def bad_link_def split: if_splits option.splits prod.splits)
  have "CHR '':'' \<in> set t"
  proof (rule ccontr)
    assume "\<not> ?thesis"
    then have "dropWhile (\<lambda>x. x \<noteq> CHR '':'') t = []" unfolding dropWhile_eq_Nil_conv by blast
    then have "tl (dropWhile (\<lambda>x. x \<noteq> CHR '':'') t) = []" by (metis list.sel(2))
    moreover have "kind = tl (dropWhile (\<lambda>x. x \<noteq> CHR '':'') t)" using pt by (auto simp: partition_at_def)
    ultimately have "kind = []" by metis
    with k show False by (simp add: suppression_kinds_def)
  qed
  then have "t = i @ CHR '':'' # kind" using pt by (rule partition_at_eq)
  moreover have "token = p @ CHR ''.'' # m" using sp by (auto dest: split_on_Cons2 split_on_Cons1)
  moreover have "kind \<in> {''reminder'', ''recap'', ''all''}" using k by (auto simp: suppression_kinds_def)
  moreover have "hmac s (ascii_bytes ''codereader-unsubscribe-v1'' @ 0 # payload) = mac"
    using s(2) by (simp add: unsubscribe_mac_def)
  ultimately show ?thesis using b s(1) u ascii_text_bytes [OF t] by metis
qed

section \<open>What an access token proves\<close>

lemma verify_issued_token:
  assumes "te_loads E (ascii_bytes (te_dumps E token_header)) = Some token_header"
    and "te_loads E (ascii_bytes (te_dumps E (access_payload u (t0 div 1000000) ttl jti))) =
      Some (access_payload u (t0 div 1000000) ttl jti)"
    and "s \<in> set secrets" and "u < 2 ^ 128"
  shows "verify_access_token E (issue_access_token E u s ttl t0 jti) secrets now =
    (if t0 div 1000000 + ttl \<le> now div 1000000 then Inl token_expired
     else Inr \<lparr>ac_sub = u, ac_plan = JStr ''free'', ac_exp = t0 div 1000000 + ttl, ac_iat = t0 div 1000000,
               ac_jti = JStr jti\<rparr>)"
proof -
  let ?h = "json_b64 E token_header" and ?p = "json_b64 E (access_payload u (t0 div 1000000) ttl jti)"
  let ?sig = "sign E (?h @ ''.'' @ ?p) s"
  have dots: "CHR ''.'' \<notin> set ?h" "CHR ''.'' \<notin> set ?p" "CHR ''.'' \<notin> set ?sig"
    by (simp_all add: json_b64_def sign_def)
  then have split: "split_on (CHR ''.'') (issue_access_token E u s ttl t0 jti) = [?h, ?p, ?sig]"
    by (simp add: issue_access_token_def Let_def split_on_cons split_on_single)
  have "\<not> (\<exists>c\<in>set ?sig. 128 \<le> code c)" using b64_code unfolding sign_def by fastforce
  then have sig: "verify_signature E secrets (?h @ ''.'' @ ?p) ?sig = Inr True"
    using assms(3) by (auto simp: verify_signature_def)
  have loads: "Option.bind (unb64 ?h) (te_loads E) = Some token_header"
    "Option.bind (unb64 ?p) (te_loads E) = Some (access_payload u (t0 div 1000000) ttl jti)"
    using assms(1,2) by (simp_all add: json_b64_def)
  have "check_claims now [(''sub'', JStr (uuid_str u)), (''plan'', JStr ''free''),
      (''exp'', JInt (t0 div 1000000 + ttl)), (''iat'', JInt (t0 div 1000000)), (''jti'', JStr jti)] =
    (if t0 div 1000000 + ttl \<le> now div 1000000 then Inl token_expired
     else Inr \<lparr>ac_sub = u, ac_plan = JStr ''free'', ac_exp = t0 div 1000000 + ttl, ac_iat = t0 div 1000000,
               ac_jti = JStr jti\<rparr>)"
    by (simp add: check_claims_def get_def uuid_round_trip [OF assms(4)])
  moreover have "payload_set (access_payload u (t0 div 1000000) ttl jti) = Inr (JStr ` claims)"
    by (auto simp: access_payload_def claims_def)
  ultimately show ?thesis
    using split sig loads
    by (simp add: verify_access_token_def token_header_def keys_def get_def access_payload_def)
qed

text \<open>
  C26: An access token is accepted, as the user it was issued to, by every set of secrets that holds its
  own until the second it expires, and from then on it is refused as expired. (\<open>json.loads\<close> of what
  \<open>json.dumps\<close> wrote gives the value back.)
\<close>

theorem access_token_round_trip:
  assumes "te_loads E (ascii_bytes (te_dumps E token_header)) = Some token_header"
    and "te_loads E (ascii_bytes (te_dumps E (access_payload u (t0 div 1000000) ttl jti))) =
      Some (access_payload u (t0 div 1000000) ttl jti)"
    and "s \<in> set secrets" and "u < 2 ^ 128"
  shows "verify_access_token E (issue_access_token E u s ttl t0 jti) secrets now =
    (if t0 div 1000000 + ttl \<le> now div 1000000 then Inl token_expired
     else Inr \<lparr>ac_sub = u, ac_plan = JStr ''free'', ac_exp = t0 div 1000000 + ttl, ac_iat = t0 div 1000000,
               ac_jti = JStr jti\<rparr>)"
  using assms by (rule verify_issued_token)

text \<open>
  An accepted access token was signed: its last part is the keyed hash, under one of the secrets, of
  its first two parts, and the user and the expiry it is accepted with are those its second part spells.
\<close>

theorem accepted_access_token_is_signed:
  assumes "verify_access_token E token secrets now = Inr c"
  shows "\<exists>h p s b payload x. token = h @ CHR ''.'' # p @ CHR ''.'' # sign E (h @ ''.'' @ p) s \<and> s \<in> set secrets \<and>
    unb64 p = Some b \<and> te_loads E b = Some (JObj payload) \<and> keys payload = claims \<and>
    get payload ''sub'' JNull = JStr x \<and> uuid_parse x = Some (ac_sub c) \<and>
    json_int (get payload ''exp'' JNull) = Inr (ac_exp c) \<and> now div 1000000 < ac_exp c"
proof -
  obtain h p sig where sp: "split_on (CHR ''.'') token = [h, p, sig]"
    using assms by (auto simp: verify_access_token_def split: list.splits)
  have token: "token = h @ CHR ''.'' # p @ CHR ''.'' # sig"
    using sp by (auto dest!: split_on_Cons2 split_on_Cons1)
  obtain hb b where b: "unb64 h = Some hb" "unb64 p = Some b"
    using assms sp by (auto simp: verify_access_token_def split: option.splits bind_splits)
  obtain hv v where v: "te_loads E hb = Some hv" "te_loads E b = Some v"
    using assms sp b by (auto simp: verify_access_token_def split: option.splits)
  obtain ks where ks: "payload_set v = Inr ks" "ks = JStr ` claims"
    using assms sp b v by (auto simp: verify_access_token_def split: if_splits sum.splits)
  obtain payload where pl: "v = JObj payload"
    using assms sp b v ks by (auto simp: verify_access_token_def split: if_splits json.splits)
  have "verify_signature E secrets (h @ ''.'' @ p) sig = Inr True" and c: "check_claims now payload = Inr c"
    using assms sp b v ks pl by (auto simp: verify_access_token_def split: if_splits sum.splits)
  then obtain s where s: "s \<in> set secrets" "sign E (h @ ''.'' @ p) s = sig"
    by (auto simp: verify_signature_def split: if_splits)
  have "JStr ` keys payload = JStr ` claims"
    using ks pl by (auto simp: keys_def image_image case_prod_beta)
  then have "keys payload = claims" by (simp add: inj_image_eq_iff inj_def)
  moreover obtain x where "get payload ''sub'' JNull = JStr x" "uuid_parse x = Some (ac_sub c)"
      "json_int (get payload ''exp'' JNull) = Inr (ac_exp c)" "now div 1000000 < ac_exp c"
    using c by (auto simp: check_claims_def not_le split: sum.splits if_splits json.splits option.splits)
  ultimately show ?thesis using token s b v pl by blast
qed

text \<open>
  The checks run before the signature is verified and raise on a payload that is no object: anyone can
  send such a token, and the error is none of those the caller turns into a 401.
\<close>

lemma unsigned_token_raises:
  assumes "te_loads E hb = Some token_header" and "te_loads E pb = Some (JInt n)"
  shows "require_access_token E secrets now (''Bearer '' @ b64 hb @ ''.'' @ b64 pb @ ''.'') = Inl TypeError"
proof -
  have "split_on (CHR ''.'') (b64 hb @ ''.'' @ b64 pb @ ''.'') = [b64 hb, b64 pb, []]"
    by (simp add: split_on_cons split_on_single)
  moreover have "partition_at (CHR '' '') (''Bearer '' @ b64 hb @ ''.'' @ b64 pb @ ''.'') =
      (''Bearer'', True, b64 hb @ ''.'' @ b64 pb @ ''.'')"
    by (simp add: partition_at_def)
  moreover have "lower ''Bearer'' = ''bearer''" by code_simp
  ultimately show ?thesis
    using assms by (simp add: require_access_token_def verify_access_token_def token_header_def keys_def get_def)
qed

section \<open>Sample tokens\<close>

definition sample_hmac :: mac_fun where
  "sample_hmac secret bs = ascii_bytes secret @ rev bs"

definition sample_token_env :: token_env where
  "sample_token_env = \<lparr>te_hmac = sample_hmac,
     te_dumps = (\<lambda>v. if v = token_header then ''H'' else ''P''),
     te_loads = (\<lambda>b. Some (if b = ascii_bytes ''H'' then token_header else access_payload 7 100 900 ''j''))\<rparr>"

lemma unsubscribe_link_round_trip_witness:
  "\<exists>token. mint_unsubscribe_token sample_hmac [''new'', ''old''] 7 ''recap'' = Inr token \<and>
    parse_unsubscribe_token sample_hmac [''newer'', ''new''] token = Inr (7, ''recap'')"
proof -
  have "is_ok (mint_unsubscribe_token sample_hmac [''new'', ''old''] 7 ''recap'')"
    by (simp add: mint_unsubscribe_token_def suppression_kinds_def Let_def)
  then obtain token where t: "mint_unsubscribe_token sample_hmac [''new'', ''old''] 7 ''recap'' = Inr token"
    by (auto simp: is_ok_def split: sum.splits)
  from unsubscribe_link_round_trip [OF t, of "[''newer'', ''new'']"] t show ?thesis by simp
qed

lemma accepted_unsubscribe_link_is_signed_witness:
  "\<exists>token p m id. parse_unsubscribe_token sample_hmac [''new''] token = Inr (7, ''recap'') \<and>
    token = p @ CHR ''.'' # m \<and> uuid_parse id = Some 7"
proof -
  have "is_ok (mint_unsubscribe_token sample_hmac [''new''] 7 ''recap'')"
    by (simp add: mint_unsubscribe_token_def suppression_kinds_def Let_def)
  then obtain token where m: "mint_unsubscribe_token sample_hmac [''new''] 7 ''recap'' = Inr token"
    by (auto simp: is_ok_def split: sum.splits)
  have t: "parse_unsubscribe_token sample_hmac [''new''] token = Inr (7, ''recap'')"
    by (rule parse_minted_link [OF m]) simp_all
  from accepted_unsubscribe_link_is_signed [OF t] t show ?thesis by blast
qed

lemma verify_sample:
  "verify_access_token sample_token_env (issue_access_token sample_token_env 7 ''k'' 900 100000000 ''j'') [''k'']
    (999 * 1000000) = Inr \<lparr>ac_sub = 7, ac_plan = JStr ''free'', ac_exp = 1000, ac_iat = 100, ac_jti = JStr ''j''\<rparr>"
proof -
  have "ascii_bytes ''H'' \<noteq> ascii_bytes ''P''" by (simp add: ascii_bytes_def code_def)
  moreover have "access_payload 7 100 900 ''j'' \<noteq> token_header" by (simp add: access_payload_def token_header_def)
  ultimately show ?thesis
    using verify_issued_token [of sample_token_env 7 100000000 900 "''j''" "''k''" "[''k'']" "999 * 1000000"]
    by (simp add: sample_token_env_def)
qed

lemma access_token_round_trip_witness:
  "verify_access_token sample_token_env (issue_access_token sample_token_env 7 ''k'' 900 100000000 ''j'') [''k'']
    (999 * 1000000) = Inr \<lparr>ac_sub = 7, ac_plan = JStr ''free'', ac_exp = 1000, ac_iat = 100, ac_jti = JStr ''j''\<rparr>"
proof -
  have "ascii_bytes ''H'' \<noteq> ascii_bytes ''P''" by (simp add: ascii_bytes_def code_def)
  moreover have "access_payload 7 100 900 ''j'' \<noteq> token_header" by (simp add: access_payload_def token_header_def)
  ultimately show ?thesis
    using access_token_round_trip [of sample_token_env 7 100000000 900 "''j''" "''k''" "[''k'']" "999 * 1000000"]
    by (simp add: sample_token_env_def)
qed

lemma accepted_access_token_is_signed_witness:
  "\<exists>h p. issue_access_token sample_token_env 7 ''k'' 900 100000000 ''j'' =
    h @ CHR ''.'' # p @ CHR ''.'' # sign sample_token_env (h @ ''.'' @ p) ''k''"
proof -
  have v: "verify_access_token sample_token_env (issue_access_token sample_token_env 7 ''k'' 900 100000000 ''j'') [''k'']
    (999 * 1000000) = Inr \<lparr>ac_sub = 7, ac_plan = JStr ''free'', ac_exp = 1000, ac_iat = 100, ac_jti = JStr ''j''\<rparr>"
    by (rule verify_sample)
  from accepted_access_token_is_signed [OF v] obtain h p s where
    "issue_access_token sample_token_env 7 ''k'' 900 100000000 ''j'' =
      h @ CHR ''.'' # p @ CHR ''.'' # sign sample_token_env (h @ ''.'' @ p) s" and "s \<in> set [''k'']" by blast
  moreover have "s = ''k''" using calculation(2) by simp
  ultimately show ?thesis by blast
qed

end
