(* ===== verification/Auth.thy ===== *)
theory Auth
  imports Accounts Tokens Config
begin

text \<open>
  Signing in (\<open>auth/service.py\<close>, the handlers of \<open>auth/router.py\<close>) and the client address the rate
  limit is keyed on (\<open>core/network.py\<close>). The conversation with GitHub, the encryption of its token,
  the digest and the fresh random values of a call are parameters.
\<close>

section \<open>The client address\<close>

text \<open>\<open>hops[-n]\<close> is in range where it is read.\<close>

definition resolve_client_ip :: "string option \<Rightarrow> string option \<Rightarrow> int \<Rightarrow> string" where
  "resolve_client_ip peer forwarded_for n =
     (let direct_peer = (case peer of None \<Rightarrow> ''unknown'' | Some h \<Rightarrow> h) in
      if n \<le> 0 then direct_peer
      else
        (case forwarded_for of
           None \<Rightarrow> direct_peer
         | Some f \<Rightarrow>
             if f = [] then direct_peer
             else
               (let hops = filter (\<lambda>h. h \<noteq> []) (map strip (split_on (CHR '','') f)) in
                if int (length hops) < n then direct_peer else hops ! (length hops - nat n))))"

section \<open>Users of GitHub\<close>

record github_profile =
  gp_id :: string
  gp_login :: string
  gp_name :: "string option"
  gp_avatar :: "string option"

definition invited :: "string \<Rightarrow> identity_db \<Rightarrow> bool" where
  "invited login db \<longleftrightarrow> (\<exists>l\<in>set (beta_invites db). citext_eq l login)"

definition apply_beta_invite :: "uid \<Rightarrow> string \<Rightarrow> identity_db \<Rightarrow> identity_db" where
  "apply_beta_invite u login db =
     (case find_account u db of
        None \<Rightarrow> db
      | Some a \<Rightarrow>
          if acc_beta_allowed a then db
          else if invited login db then change_account u (\<lambda>a. a\<lparr>acc_beta_allowed := True\<rparr>) db
          else db)"

text \<open>The unique user name, compared without regard to case.\<close>

definition by_username :: "string \<Rightarrow> identity_db \<Rightarrow> account option" where
  "by_username name db = find (\<lambda>a. citext_eq (acc_username a) name) (accounts db)"

definition name_taken :: "uid \<Rightarrow> string \<Rightarrow> identity_db \<Rightarrow> bool" where
  "name_taken u name db \<longleftrightarrow> (\<exists>a\<in>set (accounts db). acc_id a \<noteq> u \<and> citext_eq (acc_username a) name)"

definition fresh_account :: "uid \<Rightarrow> string \<Rightarrow> github_profile \<Rightarrow> account" where
  "fresh_account u name p = \<lparr>acc_id = u, acc_username = name, acc_display_name = gp_name p,
     acc_avatar_url = gp_avatar p, acc_timezone = ''UTC'', acc_level = ''mid'', acc_onboarded = False,
     acc_beta_allowed = False, acc_reminder_time = None, acc_email = None, acc_email_verified_at = None,
     acc_pending_email = None, acc_deleted_at = None\<rparr>"

definition refresh_profile :: "github_profile \<Rightarrow> account \<Rightarrow> account" where
  "refresh_profile p a =
     a\<lparr>acc_username := gp_login p, acc_display_name := gp_name p, acc_avatar_url := gp_avatar p\<rparr>"

definition seal_identity :: "github_profile \<Rightarrow> string \<Rightarrow> string option \<Rightarrow> auth_identity \<Rightarrow> auth_identity" where
  "seal_identity p sealed scopes i =
     i\<lparr>ai_provider_login := gp_login p, ai_access_token_enc := sealed, ai_token_scopes := scopes\<rparr>"

definition upsert_github_user ::
    "github_profile \<Rightarrow> string \<Rightarrow> string option \<Rightarrow> uid \<Rightarrow> identity_db \<Rightarrow> (uid \<times> identity_db) result" where
  "upsert_github_user p sealed scopes new_id db =
     (case find (\<lambda>i. ai_provider_user_id i = gp_id p) (identities db) of
        Some i \<Rightarrow>
          (case find_account (ai_user i) db of
             None \<Rightarrow> Inl (ApiError 500 ''internal'')
           | Some _ \<Rightarrow>
               if name_taken (ai_user i) (gp_login p) db then Inl IntegrityError
               else Inr (ai_user i, apply_beta_invite (ai_user i) (gp_login p)
                 (change_account (ai_user i) (refresh_profile p)
                   (db\<lparr>identities := map (\<lambda>j. if ai_provider_user_id j = gp_id p
                         then seal_identity p sealed scopes j else j) (identities db)\<rparr>))))
      | None \<Rightarrow>
          (let username = (if by_username (gp_login p) db \<noteq> None then gp_login p @ ''-'' @ gp_id p
                           else gp_login p) in
           if name_taken new_id username db then Inl IntegrityError
           else Inr (new_id, apply_beta_invite new_id (gp_login p)
             (db\<lparr>accounts := accounts db @ [fresh_account new_id username p],
                 identities := identities db @ [\<lparr>ai_user = new_id, ai_provider_user_id = gp_id p,
                   ai_provider_login = gp_login p, ai_access_token_enc = sealed, ai_token_scopes = scopes\<rparr>]\<rparr>))))"

definition set_beta :: "string \<Rightarrow> bool \<Rightarrow> identity_db \<Rightarrow> bool \<times> identity_db" where
  "set_beta login v db =
     (case by_username login db of
        None \<Rightarrow> (False, db)
      | Some a \<Rightarrow>
          if acc_beta_allowed a = v then (False, db)
          else (True, change_account (acc_id a) (\<lambda>a. a\<lparr>acc_beta_allowed := v\<rparr>) db))"

text \<open>The answers are \<open>already_invited\<close> and \<open>user_flipped\<close>, and \<open>user_revoked\<close>.\<close>

definition invite_to_beta :: "string \<Rightarrow> identity_db \<Rightarrow> (bool \<times> bool) \<times> identity_db" where
  "invite_to_beta login db =
     (let already = invited login db;
          db1 = (if already then db else db\<lparr>beta_invites := beta_invites db @ [login]\<rparr>)
      in (case set_beta login True db1 of (flipped, db2) \<Rightarrow> ((already, flipped), db2)))"

definition revoke_beta_access :: "string \<Rightarrow> identity_db \<Rightarrow> bool \<times> identity_db" where
  "revoke_beta_access login db =
     set_beta login False (db\<lparr>beta_invites := filter (\<lambda>l. \<not> citext_eq l login) (beta_invites db)\<rparr>)"

section \<open>Refresh tokens\<close>

definition issue_refresh_token ::
    "settings \<Rightarrow> (string \<Rightarrow> string) \<Rightarrow> instant \<Rightarrow> uid \<Rightarrow> nat \<Rightarrow> string \<Rightarrow> identity_db \<Rightarrow> identity_db result" where
  "issue_refresh_token S digest now u family raw db =
     (if \<exists>r\<in>set (refresh_tokens db). rt_token_hash r = digest raw then Inl IntegrityError
      else Inr (db\<lparr>refresh_tokens := refresh_tokens db @
        [\<lparr>rt_id = length (refresh_tokens db), rt_user = u, rt_family = family, rt_token_hash = digest raw,
          rt_issued_at = now, rt_expires_at = now + days_us (REFRESH_TOKEN_TTL_DAYS S),
          rt_rotated_at = None, rt_revoked_at = None\<rparr>]\<rparr>))"

definition invalid_token :: "'a result" where
  "invalid_token = Inl (ApiError 401 ''invalid_token'')"

definition find_refresh :: "string \<Rightarrow> identity_db \<Rightarrow> refresh_token option" where
  "find_refresh h db = find (\<lambda>r. rt_token_hash r = h) (refresh_tokens db)"

definition live :: "refresh_token \<Rightarrow> bool" where
  "live r \<longleftrightarrow> rt_rotated_at r = None \<and> rt_revoked_at r = None"

text \<open>The reads and checks of a rotation, and its writes; nothing locks the row in between.\<close>

definition rotate_check ::
    "settings \<Rightarrow> (string \<Rightarrow> string) \<Rightarrow> instant \<Rightarrow> string \<Rightarrow> identity_db \<Rightarrow> refresh_token result" where
  "rotate_check S digest now raw db =
     (if raw = [] then invalid_token
      else
        (case find_refresh (digest raw) db of
           None \<Rightarrow> invalid_token
         | Some r \<Rightarrow>
             if \<not> live r then invalid_token
             else if rt_expires_at r \<le> now then invalid_token
             else
               (case find_account (rt_user r) db of
                  None \<Rightarrow> invalid_token
                | Some a \<Rightarrow> if BETA_GATE_ENABLED S \<and> \<not> acc_beta_allowed a then invalid_token else Inr r)))"

definition mark_rotated :: "instant \<Rightarrow> nat \<Rightarrow> refresh_token \<Rightarrow> refresh_token" where
  "mark_rotated now i r = (if rt_id r = i then r\<lparr>rt_rotated_at := Some now\<rparr> else r)"

definition rotate_write ::
    "settings \<Rightarrow> (string \<Rightarrow> string) \<Rightarrow> instant \<Rightarrow> refresh_token \<Rightarrow> string \<Rightarrow> identity_db \<Rightarrow> identity_db result" where
  "rotate_write S digest now r new_raw db =
     issue_refresh_token S digest now (rt_user r) (rt_family r) new_raw
       (db\<lparr>refresh_tokens := map (mark_rotated now (rt_id r)) (refresh_tokens db)\<rparr>)"

definition rotate_refresh_token ::
    "settings \<Rightarrow> (string \<Rightarrow> string) \<Rightarrow> instant \<Rightarrow> string \<Rightarrow> string \<Rightarrow> identity_db \<Rightarrow> (uid \<times> identity_db) result" where
  "rotate_refresh_token S digest now raw new_raw db =
     (case rotate_check S digest now raw db of
        Inl e \<Rightarrow> Inl e
      | Inr r \<Rightarrow>
          (case rotate_write S digest now r new_raw db of
             Inl e \<Rightarrow> Inl e
           | Inr db' \<Rightarrow> Inr (rt_user r, db')))"

definition revoke_row :: "instant \<Rightarrow> nat \<Rightarrow> refresh_token \<Rightarrow> refresh_token" where
  "revoke_row now f r = (if rt_family r = f \<and> rt_revoked_at r = None then r\<lparr>rt_revoked_at := Some now\<rparr> else r)"

definition revoke_refresh_family :: "(string \<Rightarrow> string) \<Rightarrow> instant \<Rightarrow> string \<Rightarrow> identity_db \<Rightarrow> identity_db" where
  "revoke_refresh_family digest now raw db =
     (if raw = [] then db
      else
        (case find_refresh (digest raw) db of
           None \<Rightarrow> db
         | Some r \<Rightarrow> db\<lparr>refresh_tokens := map (revoke_row now (rt_family r)) (refresh_tokens db)\<rparr>))"

section \<open>The handlers\<close>

text \<open>
  The end of the OAuth callback, once GitHub has answered: the user's row is kept either way, the session
  is issued only past the gate.
\<close>

definition github_callback ::
    "settings \<Rightarrow> (string \<Rightarrow> string) \<Rightarrow> instant \<Rightarrow> github_profile \<Rightarrow> string \<Rightarrow> string option \<Rightarrow> uid \<Rightarrow> nat
       \<Rightarrow> string \<Rightarrow> identity_db \<Rightarrow> uid option result \<times> identity_db" where
  "github_callback S digest now p sealed scopes new_id family raw db =
     (case upsert_github_user p sealed scopes new_id db of
        Inl e \<Rightarrow> (Inl e, db)
      | Inr (u, db1) \<Rightarrow>
          if BETA_GATE_ENABLED S \<and> \<not> (case find_account u db1 of None \<Rightarrow> False | Some a \<Rightarrow> acc_beta_allowed a)
          then (Inr None, db1)
          else
            (case issue_refresh_token S digest now u family raw db1 of
               Inl e \<Rightarrow> (Inl e, db)
             | Inr db2 \<Rightarrow> (Inr (Some u), db2)))"

end
