(* ===== verification/Auth_Props.thy ===== *)
theory Auth_Props
  imports Auth
begin

text \<open>
  What refresh tokens promise over any sequence of sign-ins, rotations and sign-outs, what the client
  address promises, and how a user whose GitHub name is already taken fares.
\<close>

section \<open>Steps\<close>

inductive auth_step :: "settings \<Rightarrow> (string \<Rightarrow> string) \<Rightarrow> identity_db \<Rightarrow> identity_db \<Rightarrow> bool"
  for S digest where
  sign_in: "fam \<notin> rt_family ` set (refresh_tokens db) \<Longrightarrow> issue_refresh_token S digest now u fam raw db = Inr db' \<Longrightarrow>
    auth_step S digest db db'"
| refresh: "rotate_refresh_token S digest now raw new_raw db = Inr (u, db') \<Longrightarrow> auth_step S digest db db'"
| sign_out: "auth_step S digest db (revoke_refresh_family digest now raw db)"
| other: "refresh_tokens db' = refresh_tokens db \<Longrightarrow> auth_step S digest db db'"

definition ids_ok :: "refresh_token list \<Rightarrow> bool" where
  "ids_ok rs \<longleftrightarrow> map rt_id rs = [0..<length rs]"

definition families_ok :: "identity_db \<Rightarrow> bool" where
  "families_ok db \<longleftrightarrow> ids_ok (refresh_tokens db) \<and>
     distinct (map rt_token_hash (refresh_tokens db)) \<and>
     (\<forall>r\<in>set (refresh_tokens db). \<forall>r'\<in>set (refresh_tokens db). rt_family r = rt_family r' \<longrightarrow>
        rt_user r = rt_user r' \<and> (live r \<longrightarrow> live r' \<longrightarrow> r = r'))"

text \<open>What every step does to the rows: it only adds, and a row that is not live stays so.\<close>

definition rows_grow :: "identity_db \<Rightarrow> identity_db \<Rightarrow> bool" where
  "rows_grow db db' \<longleftrightarrow> (\<forall>r\<in>set (refresh_tokens db). \<exists>r'\<in>set (refresh_tokens db').
     rt_token_hash r' = rt_token_hash r \<and> rt_family r' = rt_family r \<and> (live r' \<longrightarrow> live r)) \<and>
   (\<forall>r'\<in>set (refresh_tokens db'). live r' \<longrightarrow>
      (\<exists>r\<in>set (refresh_tokens db). rt_family r = rt_family r' \<and> live r) \<or>
      rt_family r' \<notin> rt_family ` set (refresh_tokens db))"

lemma ids_ok_append: "ids_ok rs \<Longrightarrow> rt_id row = length rs \<Longrightarrow> ids_ok (rs @ [row])"
  unfolding ids_ok_def by simp

lemma ids_ok_map: "(\<And>r. rt_id (f r) = rt_id r) \<Longrightarrow> ids_ok (map f rs) \<longleftrightarrow> ids_ok rs"
  unfolding ids_ok_def by (simp add: comp_def)

lemma ids_ok_distinct: "ids_ok rs \<Longrightarrow> distinct (map rt_id rs)"
  unfolding ids_ok_def by (metis distinct_upt)

lemma rows_growD1:
  "rows_grow db db' \<Longrightarrow> r \<in> set (refresh_tokens db) \<Longrightarrow> \<exists>r'\<in>set (refresh_tokens db').
     rt_token_hash r' = rt_token_hash r \<and> rt_family r' = rt_family r \<and> (live r' \<longrightarrow> live r)"
  unfolding rows_grow_def by blast

lemma rows_growD2:
  "rows_grow db db' \<Longrightarrow> r' \<in> set (refresh_tokens db') \<Longrightarrow> live r' \<Longrightarrow>
    (\<exists>r\<in>set (refresh_tokens db). rt_family r = rt_family r' \<and> live r) \<or>
    rt_family r' \<notin> rt_family ` set (refresh_tokens db)"
  unfolding rows_grow_def by blast

lemma issueE:
  assumes "issue_refresh_token S digest now u fam raw db = Inr db'"
  obtains row where "refresh_tokens db' = refresh_tokens db @ [row]" and "rt_user row = u" and "rt_family row = fam"
    and "rt_token_hash row = digest raw" and "live row" and "rt_id row = length (refresh_tokens db)"
    and "\<forall>r\<in>set (refresh_tokens db). rt_token_hash r \<noteq> digest raw"
  using assms by (auto simp: issue_refresh_token_def live_def split: if_splits)

lemma mark_rotated_keeps [simp]:
  "rt_id (mark_rotated now i r) = rt_id r" "rt_user (mark_rotated now i r) = rt_user r"
  "rt_family (mark_rotated now i r) = rt_family r" "rt_token_hash (mark_rotated now i r) = rt_token_hash r"
  "live (mark_rotated now i r) \<longleftrightarrow> live r \<and> rt_id r \<noteq> i"
  by (simp_all add: mark_rotated_def live_def)

lemma revoke_row_keeps [simp]:
  "rt_id (revoke_row now f r) = rt_id r" "rt_user (revoke_row now f r) = rt_user r"
  "rt_family (revoke_row now f r) = rt_family r" "rt_token_hash (revoke_row now f r) = rt_token_hash r"
  "live (revoke_row now f r) \<longleftrightarrow> live r \<and> rt_family r \<noteq> f"
  by (auto simp: revoke_row_def live_def)

lemma stamped_comp [simp]:
  "rt_id \<circ> mark_rotated now i = rt_id" "rt_token_hash \<circ> mark_rotated now i = rt_token_hash"
  "rt_id \<circ> revoke_row now f = rt_id" "rt_token_hash \<circ> revoke_row now f = rt_token_hash"
  by auto

lemma rotateE:
  assumes "rotate_refresh_token S digest now raw new_raw db = Inr (u, db')"
  obtains r row where "r \<in> set (refresh_tokens db)" and "rt_token_hash r = digest raw" and "live r"
    and "refresh_tokens db' = map (mark_rotated now (rt_id r)) (refresh_tokens db) @ [row]"
    and "rt_user row = rt_user r" and "rt_family row = rt_family r" and "live row"
    and "rt_id row = length (refresh_tokens db)" and "rt_token_hash row = digest new_raw"
    and "\<forall>x\<in>set (refresh_tokens db). rt_token_hash x \<noteq> digest new_raw"
proof -
  obtain r where r: "rotate_check S digest now raw db = Inr r"
    and w: "rotate_write S digest now r new_raw db = Inr db'"
    using assms by (auto simp: rotate_refresh_token_def split: sum.splits)
  have "r \<in> set (refresh_tokens db) \<and> rt_token_hash r = digest raw \<and> live r"
    using r by (auto simp: rotate_check_def invalid_token_def find_refresh_def dest: find_SomeD
        split: if_splits option.splits)
  with issueE [OF w [unfolded rotate_write_def]] that show ?thesis by auto
qed

lemma same_id:
  assumes "families_ok db" and "r \<in> set (refresh_tokens db)" and "r' \<in> set (refresh_tokens db)" and "rt_id r = rt_id r'"
  shows "r = r'"
proof -
  have "distinct (map rt_id (refresh_tokens db))" using assms(1) by (simp add: families_ok_def ids_ok_distinct)
  then show ?thesis using assms(2-4) by (rule distinct_map_filter_eq)
qed

lemma families_ok_append:
  assumes ids: "ids_ok rs" and hashes: "distinct (map rt_token_hash rs)"
    and fam: "\<And>r r'. r \<in> set rs \<Longrightarrow> r' \<in> set rs \<Longrightarrow> rt_family r = rt_family r' \<Longrightarrow>
      rt_user r = rt_user r' \<and> (live r \<longrightarrow> live r' \<longrightarrow> r = r')"
    and row: "rt_id row = length rs" "rt_token_hash row \<notin> rt_token_hash ` set rs"
      "\<And>r. r \<in> set rs \<Longrightarrow> rt_family r = rt_family row \<Longrightarrow> rt_user r = rt_user row \<and> \<not> live r"
    and db': "refresh_tokens db' = rs @ [row]"
  shows "families_ok db'"
proof -
  have "rt_user r = rt_user r' \<and> (live r \<longrightarrow> live r' \<longrightarrow> r = r')"
    if mem: "r \<in> set (rs @ [row])" "r' \<in> set (rs @ [row])" and eq: "rt_family r = rt_family r'" for r r'
  proof -
    consider "r \<in> set rs" "r' \<in> set rs" | "r \<in> set rs" "r' = row" | "r = row" "r' \<in> set rs" | "r = row" "r' = row"
      using mem by auto
    then show ?thesis
    proof cases
      case 1
      then show ?thesis using fam eq by blast
    next
      case 2
      then show ?thesis using row(3) eq by blast
    next
      case 3
      then have "rt_user r' = rt_user row \<and> \<not> live r'" using row(3) eq by simp
      then show ?thesis using 3 by simp
    qed simp
  qed
  moreover have "distinct (map rt_token_hash (rs @ [row]))" using hashes row(2) by simp
  ultimately show ?thesis
    using ids_ok_append [OF ids row(1)] unfolding families_ok_def db' by blast
qed

lemma same_rows_keep:
  "refresh_tokens db' = refresh_tokens db \<Longrightarrow> families_ok db \<Longrightarrow> families_ok db' \<and> rows_grow db db'"
  unfolding families_ok_def rows_grow_def by (simp only:) blast

lemma step_keeps:
  assumes "auth_step S digest db db'" and ok: "families_ok db"
  shows "families_ok db' \<and> rows_grow db db'"
  using assms(1)
proof cases
  case (sign_in fam now u raw)
  obtain row where row: "refresh_tokens db' = refresh_tokens db @ [row]" "rt_family row = fam"
      "rt_token_hash row = digest raw" "rt_id row = length (refresh_tokens db)"
      "\<forall>r\<in>set (refresh_tokens db). rt_token_hash r \<noteq> digest raw"
    using issueE [OF sign_in(2)] by metis
  have new: "rt_family r \<noteq> fam" if "r \<in> set (refresh_tokens db)" for r using sign_in(1) that by blast
  have "families_ok db'"
  proof (rule families_ok_append [OF _ _ _ row(4) _ _ row(1)])
    show "ids_ok (refresh_tokens db)" "distinct (map rt_token_hash (refresh_tokens db))"
      using ok by (simp_all add: families_ok_def)
    show "rt_token_hash row \<notin> rt_token_hash ` set (refresh_tokens db)" using row(3,5) by auto
    fix r r' assume r: "r \<in> set (refresh_tokens db)"
    {
      assume "rt_family r = rt_family row"
      with new [OF r] row(2) show "rt_user r = rt_user row \<and> \<not> live r" by simp
    next
      assume "r' \<in> set (refresh_tokens db)" "rt_family r = rt_family r'"
      with ok r show "rt_user r = rt_user r' \<and> (live r \<longrightarrow> live r' \<longrightarrow> r = r')"
        unfolding families_ok_def by blast
    }
  qed
  moreover have "rows_grow db db'"
    unfolding rows_grow_def row(1) set_append
  proof (intro conjI ballI impI)
    fix r' assume "r' \<in> set (refresh_tokens db) \<union> set [row]" "live r'"
    then show "(\<exists>r\<in>set (refresh_tokens db). rt_family r = rt_family r' \<and> live r) \<or>
      rt_family r' \<notin> rt_family ` set (refresh_tokens db)" using sign_in(1) row(2) by auto
  qed blast
  ultimately show ?thesis ..
next
  case (refresh now raw new_raw u)
  then obtain r row where r: "r \<in> set (refresh_tokens db)" "live r"
    and db': "refresh_tokens db' = map (mark_rotated now (rt_id r)) (refresh_tokens db) @ [row]"
    and row: "rt_user row = rt_user r" "rt_family row = rt_family r" "rt_id row = length (refresh_tokens db)"
      "rt_token_hash row = digest new_raw" "\<forall>x\<in>set (refresh_tokens db). rt_token_hash x \<noteq> digest new_raw"
    by (elim rotateE) blast
  have others: "rt_user x = rt_user r \<and> (live x \<longrightarrow> x = r)" if "x \<in> set (refresh_tokens db)" "rt_family x = rt_family r" for x
    using ok r that unfolding families_ok_def by metis
  have "families_ok db'"
  proof (rule families_ok_append [OF _ _ _ _ _ _ db'])
    show "ids_ok (map (mark_rotated now (rt_id r)) (refresh_tokens db))"
      using ok by (simp add: families_ok_def ids_ok_map)
    show "distinct (map rt_token_hash (map (mark_rotated now (rt_id r)) (refresh_tokens db)))"
      using ok by (simp add: families_ok_def)
    fix x x'
    assume x: "x \<in> set (map (mark_rotated now (rt_id r)) (refresh_tokens db))"
    then obtain x0 where x0: "x0 \<in> set (refresh_tokens db)" "x = mark_rotated now (rt_id r) x0" by auto
    {
      assume "rt_family x = rt_family row"
      then show "rt_user x = rt_user row \<and> \<not> live x" using others [OF x0(1)] x0 row by auto
    next
      assume x': "x' \<in> set (map (mark_rotated now (rt_id r)) (refresh_tokens db))" "rt_family x = rt_family x'"
      then obtain y0 where y0: "y0 \<in> set (refresh_tokens db)" "x' = mark_rotated now (rt_id r) y0" by auto
      have "rt_family x0 = rt_family y0" using x'(2) x0(2) y0(2) by simp
      then have "rt_user x0 = rt_user y0 \<and> (live x0 \<longrightarrow> live y0 \<longrightarrow> x0 = y0)"
        using ok x0(1) y0(1) unfolding families_ok_def by blast
      then show "rt_user x = rt_user x' \<and> (live x \<longrightarrow> live x' \<longrightarrow> x = x')" by (auto simp: x0(2) y0(2))
    }
  qed (use row in auto)
  moreover have "rows_grow db db'"
    unfolding rows_grow_def db' set_append set_map
  proof (intro conjI ballI impI)
    fix x' assume "x' \<in> mark_rotated now (rt_id r) ` set (refresh_tokens db) \<union> set [row]" "live x'"
    then show "(\<exists>x\<in>set (refresh_tokens db). rt_family x = rt_family x' \<and> live x) \<or>
      rt_family x' \<notin> rt_family ` set (refresh_tokens db)" using r row by auto
  next
    fix x assume "x \<in> set (refresh_tokens db)"
    then show "\<exists>x'\<in>mark_rotated now (rt_id r) ` set (refresh_tokens db) \<union> set [row].
      rt_token_hash x' = rt_token_hash x \<and> rt_family x' = rt_family x \<and> (live x' \<longrightarrow> live x)"
      by (intro bexI [of _ "mark_rotated now (rt_id r) x"]) auto
  qed
  ultimately show ?thesis ..
next
  case (sign_out now raw)
  show ?thesis
  proof (cases "refresh_tokens db' = refresh_tokens db")
    case True
    then show ?thesis using ok by (rule same_rows_keep)
  next
    case False
    then obtain f where db': "refresh_tokens db' = map (revoke_row now f) (refresh_tokens db)"
      by (auto simp: sign_out revoke_refresh_family_def split: if_splits option.splits)
    have fam: "rt_user x = rt_user y \<and> (live x \<longrightarrow> live y \<longrightarrow> x = y)"
      if "x \<in> set (refresh_tokens db)" "y \<in> set (refresh_tokens db)" "rt_family x = rt_family y" for x y
      using ok that unfolding families_ok_def by blast
    have "rt_user x' = rt_user y' \<and> (live x' \<longrightarrow> live y' \<longrightarrow> x' = y')"
      if mem: "x' \<in> revoke_row now f ` set (refresh_tokens db)" "y' \<in> revoke_row now f ` set (refresh_tokens db)"
        and eq: "rt_family x' = rt_family y'" for x' y'
    proof -
      obtain x y where x: "x \<in> set (refresh_tokens db)" "x' = revoke_row now f x"
        and y: "y \<in> set (refresh_tokens db)" "y' = revoke_row now f y" using mem by blast
      have "rt_family x = rt_family y" using eq x(2) y(2) by simp
      from fam [OF x(1) y(1) this] show ?thesis unfolding x(2) y(2) by auto
    qed
    moreover have "ids_ok (refresh_tokens db')" "distinct (map rt_token_hash (refresh_tokens db'))"
      using ok by (simp_all add: db' ids_ok_map families_ok_def)
    ultimately have "families_ok db'" unfolding families_ok_def by (simp only: db' set_map) blast
    moreover have "rows_grow db db'" unfolding rows_grow_def db' set_map by auto
    ultimately show ?thesis ..
  qed
next
  case other
  then show ?thesis using ok by (rule same_rows_keep)
qed

section \<open>One live token per session\<close>

lemma steps_keep:
  assumes "(auth_step S digest)\<^sup>*\<^sup>* db db'" and "families_ok db"
  shows "families_ok db'"
  using assms by (induction rule: rtranclp_induct) (auto dest: step_keeps)

text \<open>A family none of whose rows is live stays so.\<close>

definition dead_family :: "nat \<Rightarrow> identity_db \<Rightarrow> bool" where
  "dead_family f db \<longleftrightarrow> f \<in> rt_family ` set (refresh_tokens db) \<and>
     (\<forall>r\<in>set (refresh_tokens db). rt_family r = f \<longrightarrow> \<not> live r)"

lemma dead_family_step:
  assumes "rows_grow db db'" and "dead_family f db"
  shows "dead_family f db'"
proof -
  obtain r where r: "r \<in> set (refresh_tokens db)" "rt_family r = f" using assms(2) by (auto simp: dead_family_def)
  then obtain r' where "r' \<in> set (refresh_tokens db')" "rt_family r' = f" using rows_growD1 [OF assms(1)] by blast
  moreover have "\<not> live x" if x: "x \<in> set (refresh_tokens db')" "rt_family x = f" for x
  proof
    assume "live x"
    from rows_growD2 [OF assms(1) x(1) this] show False using assms(2) r x(2) by (auto simp: dead_family_def)
  qed
  ultimately show ?thesis unfolding dead_family_def by blast
qed

lemma dead_family_steps:
  assumes "(auth_step S digest)\<^sup>*\<^sup>* db db'" and "families_ok db" and "dead_family f db"
  shows "dead_family f db'"
proof -
  have "families_ok db' \<and> dead_family f db'"
    using assms by (induction rule: rtranclp_induct) (auto dest: step_keeps dead_family_step)
  then show ?thesis by simp
qed

definition spent :: "string \<Rightarrow> identity_db \<Rightarrow> bool" where
  "spent h db \<longleftrightarrow> (\<exists>r\<in>set (refresh_tokens db). rt_token_hash r = h \<and> \<not> live r)"

lemma spent_steps:
  assumes "(auth_step S digest)\<^sup>*\<^sup>* db db'" and "families_ok db" and "spent h db"
  shows "spent h db'"
proof -
  have step: "spent h db2" if grow: "rows_grow db1 db2" "spent h db1" for db1 db2
  proof -
    obtain r where "r \<in> set (refresh_tokens db1)" "rt_token_hash r = h" "\<not> live r"
      using grow(2) unfolding spent_def by blast
    then show ?thesis using rows_growD1 [OF grow(1)] unfolding spent_def by blast
  qed
  have "families_ok db' \<and> spent h db'"
    using assms by (induction rule: rtranclp_induct) (auto dest: step_keeps step)
  then show ?thesis by simp
qed

lemma find_refresh_eq:
  assumes "families_ok db" and "r \<in> set (refresh_tokens db)" and "rt_token_hash r = h"
  shows "find_refresh h db = Some r"
proof -
  have "\<exists>x. find_refresh h db = Some x"
    unfolding find_refresh_def find_Some_iff_set using assms(2,3) by blast
  then obtain r' where r': "find_refresh h db = Some r'" by blast
  have d: "distinct (map rt_token_hash (refresh_tokens db))" using assms(1) by (simp add: families_ok_def)
  have "r' \<in> set (refresh_tokens db)" "rt_token_hash r' = h"
    using find_SomeD [OF r' [unfolded find_refresh_def]] by simp_all
  then have "r' = r" using distinct_map_filter_eq [OF d, of r' r] assms(2,3) by simp
  with r' show ?thesis by simp
qed

lemma not_live_refused:
  "find_refresh (digest raw) db = Some r \<Longrightarrow> \<not> live r \<Longrightarrow> rotate_check S digest now raw db = invalid_token"
  by (simp add: rotate_check_def)

text \<open>
  C27: Through any sequence of sign-ins, rotations, sign-outs and changes to other tables, a session has
  at most one token that can still be used, and all its tokens belong to one user.
\<close>

theorem session_has_one_live_token:
  assumes "(auth_step S digest)\<^sup>*\<^sup>* db0 db" and "refresh_tokens db0 = []"
  shows "length (filter (\<lambda>r. rt_family r = f \<and> live r) (refresh_tokens db)) \<le> 1 \<and>
    (\<exists>u. rt_user ` {r. r \<in> set (refresh_tokens db) \<and> rt_family r = f} \<subseteq> {u})"
proof -
  have "families_ok db0" by (simp add: families_ok_def ids_ok_def assms(2))
  with assms(1) have ok: "families_ok db" by (rule steps_keep)
  have "distinct (refresh_tokens db)" using ok by (simp add: families_ok_def ids_ok_distinct distinct_map)
  then have "length (filter (\<lambda>r. rt_family r = f \<and> live r) (refresh_tokens db)) \<le> 1"
  proof (intro length_le_1 distinct_filter)
    fix x y
    assume "x \<in> set (filter (\<lambda>r. rt_family r = f \<and> live r) (refresh_tokens db))"
      "y \<in> set (filter (\<lambda>r. rt_family r = f \<and> live r) (refresh_tokens db))"
    then show "x = y" using ok unfolding families_ok_def by simp
  qed
  moreover have "\<exists>u. rt_user ` {r. r \<in> set (refresh_tokens db) \<and> rt_family r = f} \<subseteq> {u}"
  proof (cases "\<exists>r\<in>set (refresh_tokens db). rt_family r = f")
    case True
    then obtain r where r: "r \<in> set (refresh_tokens db)" "rt_family r = f" by blast
    then have "rt_user x = rt_user r" if "x \<in> set (refresh_tokens db)" "rt_family x = f" for x
      using ok that unfolding families_ok_def by blast
    then show ?thesis by blast
  qed blast
  ultimately show ?thesis by blast
qed


section \<open>A sign-in, a rotation, a sign-out\<close>

definition empty_identity :: identity_db where
  "empty_identity = \<lparr>accounts = [fresh_account 1 ''ann'' \<lparr>gp_id = ''9'', gp_login = ''ann'', gp_name = None, gp_avatar = None\<rparr>],
     identities = [], refresh_tokens = [], verification_tokens = [], beta_invites = []\<rparr>"

definition ok_or_empty :: "identity_db result \<Rightarrow> identity_db" where
  "ok_or_empty r = (case r of Inl _ \<Rightarrow> empty_identity | Inr db \<Rightarrow> db)"

definition signed_in :: identity_db where
  "signed_in = ok_or_empty (issue_refresh_token default_settings id 0 1 7 ''a'' empty_identity)"

definition rotated :: identity_db where
  "rotated = ok_or_empty (map_sum id snd (rotate_refresh_token default_settings id 5 ''a'' ''b'' signed_in))"

lemma run_signed_in: "(auth_step default_settings id)\<^sup>*\<^sup>* empty_identity signed_in"
proof (rule r_into_rtranclp, rule auth_step.sign_in)
  show "7 \<notin> rt_family ` set (refresh_tokens empty_identity)" by (simp add: empty_identity_def)
  show "issue_refresh_token default_settings id 0 1 7 ''a'' empty_identity = Inr signed_in"
    by (simp add: signed_in_def issue_refresh_token_def empty_identity_def ok_or_empty_def)
qed

lemma session_has_one_live_token_witness:
  "length (filter (\<lambda>r. rt_family r = 7 \<and> live r) (refresh_tokens signed_in)) \<le> 1"
  using session_has_one_live_token [OF run_signed_in] by (simp add: empty_identity_def)


text \<open>
  The rotation reads the row and writes it later without a lock: two rotations of one token that overlap
  both succeed and leave two live tokens.
\<close>

lemma overlapping_rotations_fork_the_session:
  "\<exists>r db1 db2. rotate_check default_settings id 5 ''a'' signed_in = Inr r \<and>
    rotate_write default_settings id 5 r ''b'' signed_in = Inr db1 \<and>
    rotate_write default_settings id 5 r ''c'' db1 = Inr db2 \<and>
    length (filter (\<lambda>r. rt_family r = 7 \<and> live r) (refresh_tokens db2)) = 2"
  by (simp add: rotate_check_def rotate_write_def issue_refresh_token_def find_refresh_def signed_in_def
      ok_or_empty_def empty_identity_def live_def find_account_def fresh_account_def mark_rotated_def
      default_settings_def days_us_def us_per_day_def)

section \<open>The client address\<close>

fun joined :: "string list \<Rightarrow> string" where
  "joined [] = []"
| "joined [h] = h"
| "joined (h # hs) = h @ CHR '','' # joined hs"

definition proper_hop :: "string \<Rightarrow> bool" where
  "proper_hop h \<longleftrightarrow> h \<noteq> [] \<and> CHR '','' \<notin> set h \<and> strip h = h"

lemma split_joined:
  assumes "\<forall>h\<in>set hs. proper_hop h" and "hs \<noteq> []"
  shows "split_on (CHR '','') (joined hs) = hs"
  using assms by (induction hs rule: joined.induct) (auto simp: proper_hop_def split_on_cons split_on_single)

lemma split_on_append_sep: "split_on c (s @ c # t) = split_on c s @ split_on c t"
  by (induction s) (auto split: list.splits)

text \<open>
  A client cannot choose the address it is rate limited by: whatever header it sends, behind n
  proxies that append the address they were called from the service reads the first of the n entries,
  the address the outermost proxy saw.
\<close>

theorem client_cannot_choose_its_address:
  assumes "\<forall>h\<in>set hops. proper_hop h" and "hops \<noteq> []"
  shows "resolve_client_ip peer (Some (header @ CHR '','' # joined hops)) (int (length hops)) = hd hops"
proof -
  define sent where "sent = filter (\<lambda>h. h \<noteq> []) (map strip (split_on (CHR '','') header))"
  have "map strip hops = hops" "filter (\<lambda>h. h \<noteq> []) hops = hops"
    using assms(1) by (auto simp: proper_hop_def intro!: map_idI filter_True)
  then have "filter (\<lambda>h. h \<noteq> []) (map strip (split_on (CHR '','') (header @ CHR '','' # joined hops))) = sent @ hops"
    using split_joined [OF assms] by (simp add: split_on_append_sep sent_def)
  moreover have "(sent @ hops) ! (length (sent @ hops) - length hops) = hd hops"
    using assms(2) by (simp add: nth_append hd_conv_nth)
  moreover have "0 < length hops" using assms(2) by simp
  ultimately show ?thesis by (simp add: resolve_client_ip_def Let_def)
qed

lemma client_cannot_choose_its_address_witness:
  "resolve_client_ip (Some ''10.0.0.1'') (Some (''1.2.3.4, 5.6.7.8'' @ CHR '','' # joined [''203.0.113.9''])) 1 = ''203.0.113.9''"
proof -
  have h: "\<forall>h\<in>set [''203.0.113.9'']. proper_hop h" by code_simp
  from client_cannot_choose_its_address [OF h, of "Some ''10.0.0.1''" "''1.2.3.4, 5.6.7.8''"] show ?thesis by simp
qed

section \<open>A taken user name\<close>

text \<open>
  A new GitHub user whose login is already someone's user name is admitted once, under the login
  with the id appended; from then on every sign-in fails, because it writes the plain login into the
  unique column.
\<close>

theorem colliding_user_signs_in_only_once:
  assumes "upsert_github_user p sealed scopes u db = Inr (v, db')"
    and "find (\<lambda>i. ai_provider_user_id i = gp_id p) (identities db) = None"
    and "by_username (gp_login p) db = Some a" and "acc_id a \<noteq> u" and "find_account u db = None"
  shows "v = u \<and> map_option acc_username (find_account u db') = Some (gp_login p @ ''-'' @ gp_id p) \<and>
    upsert_github_user p sealed' scopes' w db' = Inl IntegrityError"
proof -
  let ?name = "gp_login p @ ''-'' @ gp_id p" and ?row = "\<lparr>ai_user = u, ai_provider_user_id = gp_id p,
    ai_provider_login = gp_login p, ai_access_token_enc = sealed, ai_token_scopes = scopes\<rparr>"
  let ?db1 = "db\<lparr>accounts := accounts db @ [fresh_account u ?name p], identities := identities db @ [?row]\<rparr>"
  have v: "v = u" and db': "db' = apply_beta_invite u (gp_login p) ?db1"
    using assms(1-3) by (auto simp: upsert_github_user_def Let_def split: if_splits)
  have a: "a \<in> set (accounts db)" "citext_eq (acc_username a) (gp_login p)"
    using find_SomeD [OF assms(3) [unfolded by_username_def]] by simp_all
  have new: "find_account u ?db1 = Some (fresh_account u ?name p)"
    using assms(5) by (simp add: find_account_def find_append fresh_account_def)
  have cases: "db' = ?db1 \<or> db' = change_account u (\<lambda>a. a\<lparr>acc_beta_allowed := True\<rparr>) ?db1"
    by (auto simp: db' apply_beta_invite_def split: option.splits)
  then have acc: "map_option acc_username (find_account u db') = Some ?name"
    using new by (auto simp: find_account_change fresh_account_def)
  have ident: "find (\<lambda>i. ai_provider_user_id i = gp_id p) (identities db') = Some ?row"
    using cases assms(2) by (auto simp: find_append)
  have "a \<in> set (accounts db')"
    using cases a(1) assms(4) by (auto simp: accounts_change image_iff)
  then have "name_taken u (gp_login p) db'" using a(2) assms(4) by (auto simp: name_taken_def)
  with ident acc have "upsert_github_user p sealed' scopes' w db' = Inl IntegrityError"
    by (auto simp: upsert_github_user_def)
  with v acc show ?thesis by simp
qed

definition ann_2 :: github_profile where
  "ann_2 = \<lparr>gp_id = ''77'', gp_login = ''Ann'', gp_name = None, gp_avatar = None\<rparr>"

lemma colliding_user_signs_in_only_once_witness:
  "\<exists>db'. upsert_github_user ann_2 ''x'' None 2 empty_identity = Inr (2, db') \<and>
    upsert_github_user ann_2 ''y'' None 3 db' = Inl IntegrityError"
proof -
  have "map_sum id fst (upsert_github_user ann_2 ''x'' None 2 empty_identity) = Inr 2" by code_simp
  then obtain db' where db': "upsert_github_user ann_2 ''x'' None 2 empty_identity = Inr (2, db')"
    by (cases "upsert_github_user ann_2 ''x'' None 2 empty_identity") auto
  have taken: "by_username (gp_login ann_2) empty_identity = Some (hd (accounts empty_identity))" by code_simp
  have "upsert_github_user ann_2 ''y'' None 3 db' = Inl IntegrityError"
    using colliding_user_signs_in_only_once [OF db' _ taken] by (simp add: empty_identity_def fresh_account_def find_account_def)
  with db' show ?thesis by blast
qed

end
