(* ===== verification/Grading_Jobs_Props.thy ===== *)
theory Grading_Jobs_Props
  imports Submit_Props
begin

text \<open>
  What the jobs over the attempts achieve: three runs of the retry job leave nothing pending, and the
  statistics of an exercise are the counts of its graded attempts.
\<close>

section \<open>No grade stays pending\<close>

definition row_status :: "nat \<Rightarrow> backend \<Rightarrow> attempt_status option" where
  "row_status i b = map_option att_status (find (\<lambda>a. att_id a = i) (attempts_tbl b))"

lemma find_settled:
  assumes "settles f v"
  shows "map_option att_status (find (\<lambda>a. att_id a = i) (map (\<lambda>x. if att_id x = j then f x else x) xs)) =
    (if i = j then map_option (\<lambda>_. if v = None then StFailed else StGraded) (find (\<lambda>a. att_id a = i) xs)
     else map_option att_status (find (\<lambda>a. att_id a = i) xs))"
  using assms by (induction xs) (auto simp: settles_def)

lemma retry_count_filter [simp]:
  "map_of (filter (\<lambda>(j, _). j \<noteq> k) ts) i = (if i = k then None else map_of ts i)"
  by (induction ts) auto

lemma retry_one_progress:
  assumes "retry_one E known now a rep b = (Inr rep', b')"
  shows "i \<noteq> att_id a \<Longrightarrow> row_status i b' = row_status i b \<and> retry_count i b' = retry_count i b"
    "known (att_user a) \<Longrightarrow> find_exercise (att_exercise a) (att_version a) (exercises_tbl b) \<noteq> None \<Longrightarrow>
      row_status (att_id a) b' \<noteq> Some StPending \<or>
      retry_count (att_id a) b' = retry_count (att_id a) b + 1 \<and> retry_count (att_id a) b' < max_retry_attempts"
proof -
  show "row_status i b' = row_status i b \<and> retry_count i b' = retry_count i b" if "i \<noteq> att_id a"
    using assms that
    by (cases rule: retry_one_cases)
      (simp_all add: row_status_def retry_count_def find_settled [OF settles_simps(1)]
        find_settled [OF settles_simps(2)] mark_failed_grade_def apply_verdict_def)
  assume known: "known (att_user a)" "find_exercise (att_exercise a) (att_version a) (exercises_tbl b) \<noteq> None"
  show "row_status (att_id a) b' \<noteq> Some StPending \<or>
      retry_count (att_id a) b' = retry_count (att_id a) b + 1 \<and> retry_count (att_id a) b' < max_retry_attempts"
    using assms
  proof (cases rule: retry_one_cases)
    case unknown
    with known show ?thesis by simp
  next
    case failed
    then show ?thesis by (simp add: row_status_def find_settled [OF settles_simps(1)])
  next
    case (timed_out n)
    then show ?thesis by (simp add: retry_count_def mark_failed_grade_def)
  next
    case (graded ex res)
    then show ?thesis by (simp add: row_status_def find_settled [OF settles_simps(2)])
  qed simp
qed

lemma retry_all_progress:
  assumes "retry_all E known clk as rep b = (Inr rep', b')" and "distinct (map att_id as)"
    and "\<forall>a\<in>set as. known (att_user a) \<and> find_exercise (att_exercise a) (att_version a) (exercises_tbl b) \<noteq> None"
  shows "i \<notin> att_id ` set as \<Longrightarrow> row_status i b' = row_status i b \<and> retry_count i b' = retry_count i b"
    "i \<in> att_id ` set as \<Longrightarrow> row_status i b' \<noteq> Some StPending \<or>
      retry_count i b' = retry_count i b + 1 \<and> retry_count i b' < max_retry_attempts"
  using assms
proof (atomize (full), induction E known clk as rep b rule: retry_all.induct)
  case (2 E known clk a as rep b)
  obtain q b1 where q: "retry_one E known (clk (att_id a)) a rep b = (q, b1)" by fastforce
  then obtain rep1 where rep1: "q = Inr rep1" using 2(2) by (cases q) auto
  note one = retry_one_progress [OF q [unfolded rep1]] and tbl = retry_one_tables(1) [OF q]
  have rest: "retry_all E known clk as rep1 b1 = (Inr rep', b')" using 2(2) q rep1 by simp
  note IH = 2(1) [OF q [symmetric] rep1 rest]
  show ?case
  proof (cases "i = att_id a")
    case True
    then have "i \<notin> att_id ` set as" using 2(3) by auto
    then show ?thesis using IH one(2) True 2(3,4) tbl by (auto simp: row_status_def)
  next
    case False
    then show ?thesis using IH one(1) [OF False] 2(3,4) tbl by auto
  qed
qed simp

text \<open>Runs of the job one after the other; the last argument but one counts those to come.\<close>

fun retry_runs ::
    "request_env \<Rightarrow> (uid \<Rightarrow> bool) \<Rightarrow> (nat \<Rightarrow> nat \<Rightarrow> instant) \<Rightarrow> (attempt list \<Rightarrow> attempt list) \<Rightarrow> nat \<Rightarrow> nat
       \<Rightarrow> backend \<Rightarrow> backend result" where
  "retry_runs E known clks order limit 0 b = Inr b"
| "retry_runs E known clks order limit (Suc n) b =
     (case resolve_pending_summarize_grades E known (clks n) order limit b of
        (Inl e, _) \<Rightarrow> Inl e
      | (Inr _, b') \<Rightarrow> retry_runs E known clks order limit n b')"

definition refs_ok :: "(uid \<Rightarrow> bool) \<Rightarrow> backend \<Rightarrow> bool" where
  "refs_ok known b \<longleftrightarrow> distinct (map att_id (attempts_tbl b)) \<and>
     (\<forall>a\<in>set (attempts_tbl b). known (att_user a) \<and>
        find_exercise (att_exercise a) (att_version a) (exercises_tbl b) \<noteq> None)"

lemma settled_refs:
  assumes "settles f v"
  shows "map att_id (map (\<lambda>x. if att_id x = i then f x else x) xs) = map att_id xs"
    "map (\<lambda>a. (att_user a, att_exercise a, att_version a)) (map (\<lambda>x. if att_id x = i then f x else x) xs) =
     map (\<lambda>a. (att_user a, att_exercise a, att_version a)) xs"
  using assms by (auto simp: settles_def attempt_key_def)

lemma refs_ok_iff:
  "refs_ok known b \<longleftrightarrow> distinct (map att_id (attempts_tbl b)) \<and>
     (\<forall>(u, e, v)\<in>set (map (\<lambda>a. (att_user a, att_exercise a, att_version a)) (attempts_tbl b)).
        known u \<and> find_exercise e v (exercises_tbl b) \<noteq> None)"
  by (auto simp: refs_ok_def)

lemma refs_settled:
  assumes "settles f v" and "refs_ok known b" and "exercises_tbl b' = exercises_tbl b"
    and "attempts_tbl b' = map (\<lambda>x. if att_id x = i then f x else x) (attempts_tbl b)"
  shows "refs_ok known b' \<and> length (attempts_tbl b') = length (attempts_tbl b)"
  using assms(2) unfolding refs_ok_iff assms(3,4) settled_refs [OF assms(1)] by simp

lemma retry_all_refs:
  assumes "retry_all E known clk as rep b = (r, b')" and "refs_ok known b"
  shows "refs_ok known b' \<and> length (attempts_tbl b') = length (attempts_tbl b)"
  using assms
proof (induction E known clk as rep b rule: retry_all.induct)
  case (2 E known clk a as rep b)
  obtain q b1 where q: "retry_one E known (clk (att_id a)) a rep b = (q, b1)" by fastforce
  have b1: "refs_ok known b1 \<and> length (attempts_tbl b1) = length (attempts_tbl b)"
    using retry_one_tables(2) [OF q]
  proof (elim disjE exE conjE)
    assume "attempts_tbl b1 = attempts_tbl b"
    then show ?thesis using 2(3) retry_one_tables(1) [OF q] by (simp add: refs_ok_def)
  next
    fix f v assume "settles f v" "attempts_tbl b1 = map (\<lambda>x. if att_id x = att_id a then f x else x) (attempts_tbl b)"
    from refs_settled [OF this(1) 2(3) retry_one_tables(1) [OF q] this(2)] show ?thesis .
  qed
  show ?case
  proof (cases q)
    case (Inr rep1)
    then show ?thesis using 2(1) [OF q [symmetric] Inr] 2(2) q b1 by auto
  qed (use 2(2) q b1 in auto)
qed simp

lemma row_status_pending:
  assumes "distinct (map att_id (attempts_tbl b))"
  shows "i \<in> att_id ` set (filter (\<lambda>a. att_status a = StPending) (attempts_tbl b)) \<longleftrightarrow> row_status i b = Some StPending"
  using assms unfolding row_status_def
proof (induction "attempts_tbl b" arbitrary: b)
  case (Cons a as)
  from Cons(1) [of "b\<lparr>attempts_tbl := as\<rparr>"] Cons(2,3) show ?case by (auto simp flip: Cons(2))
qed simp

lemma retry_run_progress:
  assumes "resolve_pending_summarize_grades E known clk order limit b = (Inr rep, b')"
    and order: "\<forall>xs. mset (order xs) = mset xs" and "length (attempts_tbl b) \<le> limit" and refs: "refs_ok known b"
  shows "refs_ok known b' \<and> length (attempts_tbl b') = length (attempts_tbl b) \<and>
    (row_status i b \<noteq> Some StPending \<longrightarrow> row_status i b' \<noteq> Some StPending) \<and>
    (row_status i b' \<noteq> Some StPending \<or> retry_count i b' = retry_count i b + 1 \<and> retry_count i b' < max_retry_attempts)"
proof -
  let ?p = "filter (\<lambda>a. att_status a = StPending) (attempts_tbl b)"
  have run: "retry_all E known clk (pending_attempts order limit b) no_report b = (Inr rep, b')"
    using assms(1) by (auto simp: resolve_pending_summarize_grades_def split: prod.splits sum.splits)
  have ids: "distinct (map att_id (attempts_tbl b))" using refs by (simp add: refs_ok_def)
  note picks = pending_picks [OF order ids, of limit]
  have "\<forall>a\<in>set (pending_attempts order limit b). known (att_user a) \<and>
      find_exercise (att_exercise a) (att_version a) (exercises_tbl b) \<noteq> None"
    using picks(1) refs by (auto simp: refs_ok_def)
  note progress = retry_all_progress [OF run picks(2) this]
  have "mset (order ?p) = mset ?p" using order by blast
  then have "length (order ?p) = length ?p" "set (order ?p) = set ?p" by (metis size_mset, metis set_mset_mset)
  moreover have "length ?p \<le> limit" using assms(3) length_filter_le le_trans by blast
  ultimately have all: "set (pending_attempts order limit b) = set ?p" by (simp add: pending_attempts_def)
  have "(row_status i b \<noteq> Some StPending \<longrightarrow> row_status i b' \<noteq> Some StPending) \<and>
      (row_status i b' \<noteq> Some StPending \<or>
       retry_count i b' = retry_count i b + 1 \<and> retry_count i b' < max_retry_attempts)"
  proof (cases "row_status i b = Some StPending")
    case True
    then show ?thesis using progress(2) all row_status_pending [OF ids, of i] by metis
  next
    case False
    then show ?thesis using progress(1) all row_status_pending [OF ids, of i] by metis
  qed
  then show ?thesis using retry_all_refs [OF run refs] by blast
qed

lemma retry_runs_progress:
  assumes "retry_runs E known clks order limit n b = Inr b'"
    and "\<forall>xs. mset (order xs) = mset xs" and "length (attempts_tbl b) \<le> limit" and "refs_ok known b"
  shows "(row_status i b \<noteq> Some StPending \<longrightarrow> row_status i b' \<noteq> Some StPending) \<and> refs_ok known b' \<and>
    (row_status i b' \<noteq> Some StPending \<or> retry_count i b' = retry_count i b + int n \<and>
      (n = 0 \<or> retry_count i b' < max_retry_attempts))"
  using assms
proof (induction E known clks order limit n b rule: retry_runs.induct)
  case (2 E known clks order limit n b)
  obtain rep b1 where run: "resolve_pending_summarize_grades E known (clks n) order limit b = (Inr rep, b1)"
    and rest: "retry_runs E known clks order limit n b1 = Inr b'"
    using 2(2) by (auto split: prod.splits sum.splits)
  note one = retry_run_progress [OF run 2(3-5), of i]
  have "length (attempts_tbl b1) \<le> limit" "refs_ok known b1" using one 2(4) by simp_all
  note IH = 2(1) [OF run [symmetric] refl rest 2(3) this]
  show ?case
  proof (cases "row_status i b1 = Some StPending")
    case True
    then have "retry_count i b1 = retry_count i b + 1" "retry_count i b1 < max_retry_attempts" using one by auto
    then show ?thesis using IH one True by (cases n) auto
  next
    case False
    then show ?thesis using IH by blast
  qed
qed simp


definition sample_summary :: exercise where
  "sample_summary = sample_exercise\<lparr>ex_type := ''summarize'',
     ex_grading := [(''rubric'', JObj [(''must_mention'', JArr []), (''must_not_claim'', JArr []),
       (''pass_threshold'', JInt 1)]), (''reference_answer'', JStr ''r'')]\<rparr>"

definition sample_pending :: backend where
  "sample_pending = (empty_backend [sample_summary])\<lparr>attempts_tbl :=
     [\<lparr>att_id = 1, att_user = 7, att_exercise = 1, att_version = 1, session_date = 0,
       att_answer = [(''text'', JStr ''t'')], att_mode = ''rubric'', att_status = StPending, att_correct = None,
       att_score = None, grader_output = None, time_taken_ms = None, att_created_at = 0, graded_at = None\<rparr>],
     next_attempt_id := 2\<rparr>"

lemma sample_pending_refs: "refs_ok (\<lambda>u. u = 7) sample_pending"
  by (simp add: refs_ok_def sample_pending_def empty_backend_def find_exercise_def sample_summary_def
      sample_exercise_def sample_row_def)

lemma sample_pending_count: "\<forall>i. 0 \<le> retry_count i sample_pending"
  by (simp add: retry_count_def sample_pending_def empty_backend_def)

lemma sample_pending_runs:
  "is_ok (retry_runs sample_request_env (\<lambda>u. u = 7) (\<lambda>_ _. 0) id 100 3 sample_pending)"
  by code_simp


text \<open>
  The job reads the statistics row of a user, adds the verdict and commits at the end of the run. A
  submit that read the row before the commit writes back its own sum: of two correct answers one is counted.
\<close>

lemma stale_submit_loses_a_correct_answer:
  defines "db \<equiv> put_stats 7 (stats_or_new default_settings empty_streak_db 7) empty_streak_db"
  defines "job \<equiv> update_correctness_stats default_settings 7 ''summarize'' True db"
  defines "stale \<equiv> update_correctness_stats default_settings 7 ''trace'' True db"
  shows "cor_total (put_stats 7 (stats_or_new default_settings stale 7) job) 7 = cor_total db 7 + 1"
  by (simp add: stale_def correctness_totals) (simp add: db_def update_correctness_stats_def Let_def stats_or_new_def
      get_stats_row_def put_stats_def update_conv' empty_streak_db_def new_user_stats_def cor_total_def)

section \<open>Statistics\<close>

lemma map_of_upserts:
  "map_of (foldl (\<lambda>t (k, x). AList.update k x t) t0 new) = map_of t0 ++ map_of (rev new)"
  by (induction new arbitrary: t0) (auto simp: update_conv' map_add_def fun_eq_iff split: option.splits)

lemma map_of_graph: "map_of (map (\<lambda>k. (k, f k)) ks) k = (if k \<in> set ks then Some (f k) else None)"
  by (induction ks) auto

lemma deduped_all:
  assumes "distinct (map attempt_key as)"
  shows "deduped as = filter (\<lambda>a. att_status a = StGraded) as"
proof -
  let ?g = "filter (\<lambda>a. att_status a = StGraded) as"
  have d: "distinct (map attempt_key ?g)" using assms by (simp add: distinct_map_filter)
  have "earliest ?g a" if "a \<in> set ?g" for a
  proof -
    have "find (\<lambda>x. stat_key x = stat_key a) (sort_key att_created_at ?g) \<noteq> None"
      using that by (auto simp: find_None_iff)
    then obtain x where x: "find (\<lambda>x. stat_key x = stat_key a) (sort_key att_created_at ?g) = Some x" by blast
    then have "x \<in> set (sort_key att_created_at ?g) \<and> stat_key x = stat_key a"
      unfolding find_Some_iff by (metis nth_mem)
    then have "x \<in> set ?g" "stat_key x = stat_key a" by simp_all
    then have "attempt_key x = attempt_key a" by (simp add: stat_key_def attempt_key_def)
    then have "x = a" using d that \<open>x \<in> set ?g\<close> by (simp add: distinct_map inj_on_def)
    then show ?thesis using x by (simp add: earliest_def)
  qed
  then have "filter (earliest ?g) ?g = ?g" by (intro filter_True) blast
  then show ?thesis by (simp only: deduped_def Let_def)
qed

lemma rate3_bounds:
  assumes "0 \<le> c" "c \<le> n" "0 < n"
  shows "0 \<le> rate3 c n" "rate3 c n \<le> 1000"
proof -
  show "0 \<le> rate3 c n" using assms by (simp add: rate3_def pos_imp_zdiv_nonneg_iff)
  have "2000 * c + n < 1001 * (2 * n)" using assms by simp
  then have "rate3 c n < 1001" using assms by (simp add: rate3_def int_div_less_iff)
  then show "rate3 c n \<le> 1000" by simp
qed

text \<open>
  The statistics shown with an exercise are its graded attempts. In every state the system reaches,
  once the statistics job has run, a version with graded attempts has a row whose counts are the numbers
  of its graded and of its correct attempts, whose rate lies between 0 and 1; and no difficulty that the
  job derives from a rate leaves the scale from 1 to 10 (in hundredths).
\<close>

theorem exercise_stats_count_graded_attempts:
  assumes "sys_reachable E reqs (empty_backend tbl) (ph, now, b)"
    and "freeze_settings_ok (settings_of (base_env E))"
    and "compute_exercise_stats b = (n, b')"
    and "graded = filter (\<lambda>a. att_status a = StGraded \<and> att_exercise a = i \<and> att_version a = v) (attempts_tbl b)"
    and "graded \<noteq> []"
  shows "\<exists>st r. map_of (exercise_stats b') (i, v) = Some st \<and> attempts_count st = int (length graded) \<and>
    correct_count st = int (length (filter (\<lambda>a. att_correct a = Some True) graded)) \<and>
    solve_rate st = Some r \<and> 0 \<le> r \<and> r \<le> 1 \<and>
    100 \<le> empirical_difficulty r \<and> empirical_difficulty r \<le> 1000"
proof -
  have "attempts_ok b" using sys_reachable_inv [OF assms(1,2) empty_backend_inv] by (simp add: learner_inv_def)
  then have ds: "deduped (attempts_tbl b) = filter (\<lambda>a. att_status a = StGraded) (attempts_tbl b)"
    using deduped_all by (simp add: attempts_ok_def)
  let ?ks = "remdups (map (\<lambda>a. (att_exercise a, att_version a)) (deduped (attempts_tbl b)))"
  let ?f = "\<lambda>k. exercise_stat_of (filter (\<lambda>a. (att_exercise a, att_version a) = k) (deduped (attempts_tbl b)))"
  have "(i, v) \<in> set ?ks" using assms(4,5) by (force simp: ds filter_empty_conv)
  moreover have "exercise_stats b' = foldl (\<lambda>t (k, x). AList.update k x t) (exercise_stats b) (map (\<lambda>k. (k, ?f k)) ?ks)"
    using assms(3) by (auto simp: compute_exercise_stats_def stat_rows_def Let_def)
  ultimately have "map_of (exercise_stats b') (i, v) = Some (?f (i, v))"
    by (simp add: map_of_upserts rev_map map_of_graph map_add_def)
  moreover have "filter (\<lambda>a. (att_exercise a, att_version a) = (i, v)) (deduped (attempts_tbl b)) = graded"
    by (simp add: ds assms(4) conj_ac)
  ultimately have st: "map_of (exercise_stats b') (i, v) = Some (exercise_stat_of graded)" by simp
  let ?n = "int (length graded)" and ?c = "int (length (filter (\<lambda>a. att_correct a = Some True) graded))"
  have "0 \<le> ?c" "?c \<le> ?n" "0 < ?n" using assms(5) by (simp_all add: length_filter_le)
  note rate3_bounds [OF this]
  then have r: "0 \<le> (of_int (rate3 ?c ?n) / 1000 :: rat)" "(of_int (rate3 ?c ?n) / 1000 :: rat) \<le> 1"
    by simp_all
  have d: "100 \<le> empirical_difficulty x" "empirical_difficulty x \<le> 1000" for x
    by (simp_all add: empirical_difficulty_def)
  show ?thesis
    using st assms(5) r d by (intro exI [of _ "exercise_stat_of graded"] exI [of _ "of_int (rate3 ?c ?n) / 1000"])
      (simp add: exercise_stat_of_def Let_def)
qed

lemma sample_graded:
  "filter (\<lambda>a. att_status a = StGraded \<and> att_exercise a = 1 \<and> att_version a = 1) (attempts_tbl sample_after) \<noteq> []"
  by code_simp

lemma exercise_stats_count_graded_attempts_witness:
  "\<exists>(st :: exercise_stat) r. map_of (exercise_stats (snd (compute_exercise_stats sample_after))) (1, 1) = Some st \<and>
     solve_rate st = Some r \<and> 0 \<le> r \<and> r \<le> 1"
proof -
  have run: "compute_exercise_stats sample_after =
      (fst (compute_exercise_stats sample_after), snd (compute_exercise_stats sample_after))" by simp
  show ?thesis
    using sample_reachable exercise_stats_count_graded_attempts [OF _ sample_freeze_settings run refl sample_graded]
    unfolding sample_start_def by blast
qed

end
