(* ===== verification/Partitions.thy ===== *)
theory Partitions
  imports Clock "HOL-Library.Multiset"
begin

text \<open>
  The monthly partitions of the attempts (\<open>jobs/partitions.py\<close>): a partition holds the rows of its
  month, \<open>attempts_default\<close> those of the months without one, and the job creates the partitions up
  to the next month, moving rows out of the default first. The statements are modelled as the database
  executes them: a partition cannot be created while the default holds rows of its month, and a table
  that is a partition already cannot be attached. The month of a row, which is the month of its
  \<open>created_at\<close>, is an argument; all statements of a run are one transaction.
\<close>

section \<open>Storing rows\<close>

record 'r attempt_store =
  parts :: "(month \<times> 'r list) list"
  default_rows :: "'r list"

definition months_of :: "'r attempt_store \<Rightarrow> month set" where
  "months_of s = fst ` set (parts s)"

definition all_rows :: "'r attempt_store \<Rightarrow> 'r list" where
  "all_rows s = concat (map snd (parts s)) @ default_rows s"

text \<open>The database routes a row to the partition of its month.\<close>

definition insert_row :: "('r \<Rightarrow> month) \<Rightarrow> 'r \<Rightarrow> 'r attempt_store \<Rightarrow> 'r attempt_store" where
  "insert_row mo r s =
     (if mo r \<in> months_of s
      then s\<lparr>parts := map (\<lambda>(m, rs). if m = mo r then (m, rs @ [r]) else (m, rs)) (parts s)\<rparr>
      else s\<lparr>default_rows := default_rows s @ [r]\<rparr>)"

section \<open>The job\<close>

definition first_day_after_month :: "month \<Rightarrow> month" where
  "first_day_after_month m = (if snd m = 12 then (fst m + 1, 1) else (fst m, snd m + 1))"

definition existing_partition_months :: "'r attempt_store \<Rightarrow> month list" where
  "existing_partition_months s = sort (map fst (parts s))"

text \<open>The rows of \<open>attempts_default\<close> from the start of a month to the start of the next.\<close>

definition default_rows_in_range :: "('r \<Rightarrow> month) \<Rightarrow> month \<Rightarrow> month \<Rightarrow> 'r attempt_store \<Rightarrow> 'r list" where
  "default_rows_in_range mo a b s = filter (\<lambda>r. a \<le> mo r \<and> mo r < b) (default_rows s)"

definition attach_failed :: exn where
  "attach_failed = RuntimeError ''is already a partition''"

definition create_partition_for_month ::
    "('r \<Rightarrow> month) \<Rightarrow> month \<Rightarrow> 'r attempt_store \<Rightarrow> (month \<times> 'r attempt_store) result" where
  "create_partition_for_month mo m s =
     (let overlapping = default_rows_in_range mo m (first_day_after_month m) s in
      if overlapping = []
      then Inr (m, if m \<in> months_of s then s else s\<lparr>parts := parts s @ [(m, [])]\<rparr>)
      else if m \<in> months_of s then Inl attach_failed
      else Inr (m, s\<lparr>parts := parts s @ [(m, overlapping)],
                     default_rows := filter (\<lambda>r. r \<notin> set overlapping) (default_rows s)\<rparr>))"

definition max_months_per_run :: nat where "max_months_per_run = 72"

fun months_to_create :: "nat \<Rightarrow> month \<Rightarrow> month \<Rightarrow> month list" where
  "months_to_create 0 m next_month = []"
| "months_to_create (Suc k) m next_month =
     (if m \<le> next_month then m # months_to_create k (first_day_of_next_month m) next_month else [])"

fun create_partitions ::
    "('r \<Rightarrow> month) \<Rightarrow> month list \<Rightarrow> month \<times> 'r attempt_store \<Rightarrow> (month \<times> 'r attempt_store) result" where
  "create_partitions mo [] (n, s) = Inr (n, s)"
| "create_partitions mo (m # ms) (n, s) =
     (case create_partition_for_month mo m s of Inl e \<Rightarrow> Inl e | Inr r \<Rightarrow> create_partitions mo ms r)"

text \<open>The month stands for the name of its partition.\<close>

definition start_month :: "month \<Rightarrow> 'r attempt_store \<Rightarrow> month" where
  "start_month today s =
     (case existing_partition_months s of [] \<Rightarrow> today | ms \<Rightarrow> first_day_of_next_month (last ms))"

definition ensure_next_month_attempts_partition ::
    "('r \<Rightarrow> month) \<Rightarrow> month \<Rightarrow> 'r attempt_store \<Rightarrow> (month \<times> 'r attempt_store) result" where
  "ensure_next_month_attempts_partition mo today s =
     (let next_month = first_day_of_next_month today in
      create_partitions mo (months_to_create max_months_per_run (start_month today s) next_month) (next_month, s))"

section \<open>The invariant\<close>

definition store_ok :: "('r \<Rightarrow> month) \<Rightarrow> 'r attempt_store \<Rightarrow> bool" where
  "store_ok mo s \<longleftrightarrow>
     distinct (map fst (parts s)) \<and> (\<forall>m\<in>months_of s. valid_month m) \<and>
     (\<forall>(m, rs)\<in>set (parts s). \<forall>r\<in>set rs. mo r = m) \<and>
     (\<forall>r\<in>set (default_rows s). valid_month (mo r) \<and> mo r \<notin> months_of s)"

lemma empty_store_ok: "store_ok mo \<lparr>parts = [], default_rows = []\<rparr>"
  by (simp add: store_ok_def months_of_def)

definition put_row :: "('r \<Rightarrow> month) \<Rightarrow> 'r \<Rightarrow> (month \<times> 'r list) list \<Rightarrow> (month \<times> 'r list) list" where
  "put_row mo r = map (\<lambda>(m, rs). if m = mo r then (m, rs @ [r]) else (m, rs))"

lemma put_row_fst [simp]: "map fst (put_row mo r ps) = map fst ps" "fst ` set (put_row mo r ps) = fst ` set ps"
proof -
  show "map fst (put_row mo r ps) = map fst ps" by (auto simp: put_row_def case_prod_beta)
  then show "fst ` set (put_row mo r ps) = fst ` set ps" by (metis list.set_map)
qed

lemma put_row_rows:
  "\<forall>(m, rs)\<in>set ps. \<forall>x\<in>set rs. mo x = m \<Longrightarrow> \<forall>(m, rs)\<in>set (put_row mo r ps). \<forall>x\<in>set rs. mo x = m"
  by (induction ps) (auto simp: put_row_def split: if_splits)

lemma put_row_months [simp]: "(\<forall>x\<in>set (put_row mo r ps). P (fst x)) \<longleftrightarrow> (\<forall>x\<in>set ps. P (fst x))"
  by (induction ps) (auto simp: put_row_def split: if_splits)

lemma put_row_absent: "mo r \<notin> fst ` set ps \<Longrightarrow> put_row mo r ps = ps"
  by (induction ps) (auto simp: put_row_def)

lemma put_row_mset:
  "distinct (map fst ps) \<Longrightarrow> mo r \<in> fst ` set ps \<Longrightarrow>
     mset (concat (map snd (put_row mo r ps))) = add_mset r (mset (concat (map snd ps)))"
proof (induction ps)
  case (Cons p ps)
  show ?case
  proof (cases "fst p = mo r")
    case True
    then have "mo r \<notin> fst ` set ps" using Cons(2) by (metis distinct.simps(2) list.set_map list.simps(9))
    from put_row_absent [where mo = mo and r = r, OF this] True show ?thesis by (simp add: put_row_def case_prod_beta)
  next
    case False
    then have "mo r \<in> fst ` set ps" using Cons(3) by auto
    from Cons(1) [OF _ this] Cons(2) False show ?thesis by (simp add: put_row_def case_prod_beta)
  qed
qed simp

lemma insert_row_ok [preserve]:
  assumes "store_ok mo s" and "valid_month (mo r)"
  shows "store_ok mo (insert_row mo r s)" "mset (all_rows (insert_row mo r s)) = add_mset r (mset (all_rows s))"
proof -
  have eq: "insert_row mo r s =
      (if mo r \<in> months_of s then s\<lparr>parts := put_row mo r (parts s)\<rparr> else s\<lparr>default_rows := default_rows s @ [r]\<rparr>)"
    by (simp add: insert_row_def put_row_def)
  have ok: "distinct (map fst (parts s))" "\<forall>(m, rs)\<in>set (parts s). \<forall>x\<in>set rs. mo x = m"
    "\<forall>m\<in>months_of s. valid_month m" "\<forall>r\<in>set (default_rows s). valid_month (mo r) \<and> mo r \<notin> months_of s"
    using assms(1) by (auto simp: store_ok_def)
  show "store_ok mo (insert_row mo r s)"
    using ok assms(2) put_row_rows [OF ok(2), of r] by (simp add: eq store_ok_def months_of_def)
  show "mset (all_rows (insert_row mo r s)) = add_mset r (mset (all_rows s))"
    using put_row_mset [OF ok(1), of mo r] by (simp add: eq all_rows_def months_of_def)
qed

lemma in_month_range:
  assumes "valid_month m" and "valid_month k"
  shows "m \<le> k \<and> k < first_day_after_month m \<longleftrightarrow> k = m"
  using assms by (cases m; cases k) (auto simp: first_day_after_month_def valid_month_def less_eq_prod_def less_prod_def)

lemma month_index_inj: "valid_month m \<Longrightarrow> valid_month k \<Longrightarrow> month_index m = month_index k \<Longrightarrow> m = k"
  using month_index_le [of m k] month_index_le [of k m] by simp

lemma create_partition_ok:
  assumes ok: "store_ok mo s" and m: "valid_month m" "m \<notin> months_of s"
  shows "\<exists>s'. create_partition_for_month mo m s = Inr (m, s') \<and> store_ok mo s' \<and>
    months_of s' = insert m (months_of s) \<and> mset (all_rows s') = mset (all_rows s)"
proof -
  let ?o = "filter (\<lambda>r. mo r = m) (default_rows s)"
  have o: "default_rows_in_range mo m (first_day_after_month m) s = ?o"
    using ok in_month_range [OF m(1)] unfolding default_rows_in_range_def store_ok_def by (intro filter_cong) auto
  let ?s = "s\<lparr>parts := parts s @ [(m, ?o)], default_rows := filter (\<lambda>r. mo r \<noteq> m) (default_rows s)\<rparr>"
  have rest: "filter (\<lambda>r. r \<notin> set ?o) (default_rows s) = filter (\<lambda>r. mo r \<noteq> m) (default_rows s)"
    by (auto intro!: filter_cong)
  have "create_partition_for_month mo m s = Inr (m, ?s)"
  proof (cases "?o = []")
    case True
    then have "filter (\<lambda>r. mo r \<noteq> m) (default_rows s) = default_rows s" by (simp add: filter_empty_conv filter_id_conv)
    then show ?thesis using True m(2) by (simp add: create_partition_for_month_def o Let_def)
  next
    case False
    then show ?thesis using m(2) rest by (simp add: create_partition_for_month_def o Let_def)
  qed
  moreover have "store_ok mo ?s" using ok m by (auto simp: store_ok_def months_of_def)
  moreover have "mset (all_rows ?s) = mset (all_rows s)"
    using multiset_partition [of "mset (default_rows s)" "\<lambda>r. mo r = m"] by (simp add: all_rows_def)
  ultimately show ?thesis by (auto simp: months_of_def)
qed

lemma create_partitions_ok:
  assumes "store_ok mo s" and "distinct ms" and "\<forall>m\<in>set ms. valid_month m \<and> m \<notin> months_of s"
  shows "\<exists>s'. create_partitions mo ms (n, s) = Inr (last (n # ms), s') \<and> store_ok mo s' \<and>
    months_of s' = set ms \<union> months_of s \<and> mset (all_rows s') = mset (all_rows s)"
  using assms
proof (induction ms arbitrary: n s)
  case (Cons m ms)
  obtain s1 where s1: "create_partition_for_month mo m s = Inr (m, s1)" "store_ok mo s1"
      "months_of s1 = insert m (months_of s)" "mset (all_rows s1) = mset (all_rows s)"
    using create_partition_ok [OF Cons(2), of m] Cons(4) by (meson list.set_intros(1))
  have "\<forall>k\<in>set ms. valid_month k \<and> k \<notin> months_of s1" using Cons(3,4) s1(3) by auto
  from Cons(1) [OF s1(2) _ this, of m] Cons(3) s1 show ?case by auto
qed simp

section \<open>The months of a run\<close>

lemma months_to_create_set:
  assumes "valid_month m" and "valid_month k"
  shows "set (months_to_create n m k) =
    {x. valid_month x \<and> month_index m \<le> month_index x \<and> month_index x \<le> month_index k \<and>
        month_index x < month_index m + int n}"
  using assms(1)
proof (induction n arbitrary: m)
  case (Suc n)
  have idx: "x = m" if "valid_month x" "month_index x = month_index m" for x
    using that Suc(2) month_index_inj by blast
  show ?case
    using Suc(1) [OF next_month_valid [OF Suc(2)]] Suc(2) idx
    by (auto simp: next_month_index month_index_le [OF Suc(2) assms(2)])
qed simp

lemma months_to_create_distinct:
  assumes "valid_month m" and "valid_month k"
  shows "distinct (months_to_create n m k)"
  using assms(1)
proof (induction n arbitrary: m)
  case (Suc n)
  then show ?case
    using months_to_create_set [OF next_month_valid [OF Suc(2)] assms(2), of n]
    by (auto simp: next_month_valid next_month_index)
qed simp

lemma months_to_create_last:
  assumes "valid_month m" "valid_month k" "m \<le> k" "month_index k < month_index m + int n"
  shows "last (months_to_create n m k) = k"
  using assms(1,3,4)
proof (induction n arbitrary: m)
  case (Suc n)
  show ?case
  proof (cases "month_index m = month_index k")
    case True
    then have "m = k" using Suc(2) assms(2) month_index_inj by blast
    moreover have "\<not> first_day_of_next_month k \<le> k"
      using assms(2) next_month_valid [OF assms(2)] by (simp add: month_index_le next_month_index)
    ultimately show ?thesis by (cases n) auto
  next
    case False
    then have "first_day_of_next_month m \<le> k" "month_index k < month_index (first_day_of_next_month m) + int n"
      using Suc(2-4) assms(2) next_month_valid [OF Suc(2)] by (simp_all add: month_index_le next_month_index)
    note IH = Suc(1) [OF next_month_valid [OF Suc(2)] this]
    have "n \<noteq> 0" using False Suc(2-4) assms(2) by (auto simp: month_index_le)
    then have "months_to_create n (first_day_of_next_month m) k \<noteq> []"
      using \<open>first_day_of_next_month m \<le> k\<close> by (cases n) auto
    then show ?thesis using IH Suc(3) by simp
  qed
qed (use assms in \<open>simp add: month_index_le\<close>)

lemma sorted_le_last: "sorted xs \<Longrightarrow> x \<in> set xs \<Longrightarrow> x \<le> last xs"
  by (induction xs) auto

lemma existing_last:
  assumes "parts s \<noteq> []"
  shows "existing_partition_months s \<noteq> []" "last (existing_partition_months s) \<in> months_of s"
    "m \<in> months_of s \<Longrightarrow> m \<le> last (existing_partition_months s)"
proof -
  let ?xs = "existing_partition_months s"
  have set: "set ?xs = months_of s" by (simp add: existing_partition_months_def months_of_def)
  show ne: "?xs \<noteq> []" using assms set by (auto simp: months_of_def)
  then show "last ?xs \<in> months_of s" using set last_in_set by blast
  have "sorted ?xs" by (simp add: existing_partition_months_def)
  from sorted_le_last [OF this] show "m \<le> last ?xs" if "m \<in> months_of s" using that set by blast
qed

text \<open>
  C40: The partition job recovers from any gap of up to six years, whatever has piled up in the default
  partition. From a store whose rows lie where the database routes them, it succeeds, answers the next
  month, loses and invents no row, leaves every row in the partition of its month, and has created every
  month from the first missing one to the next month.
\<close>

theorem partition_job_recovers:
  assumes "store_ok mo s" and "valid_month today"
    and "month_index (first_day_of_next_month today) < month_index (start_month today s) + 72"
  shows "\<exists>s'. ensure_next_month_attempts_partition mo today s = Inr (first_day_of_next_month today, s') \<and>
    store_ok mo s' \<and> mset (all_rows s') = mset (all_rows s) \<and>
    months_of s' = months_of s \<union>
      {m. valid_month m \<and> start_month today s \<le> m \<and> m \<le> first_day_of_next_month today}"
proof -
  let ?next = "first_day_of_next_month today" and ?start = "start_month today s"
  let ?ms = "months_to_create max_months_per_run ?start ?next"
  have nxt: "valid_month ?next" by (rule next_month_valid [OF assms(2)])
  have start: "valid_month ?start \<and> (\<forall>m\<in>months_of s. month_index m < month_index ?start)"
  proof (cases "parts s = []")
    case True
    then show ?thesis using assms(2) by (simp add: start_month_def existing_partition_months_def months_of_def)
  next
    case False
    note last = existing_last [OF False]
    have valid: "\<forall>m\<in>months_of s. valid_month m" using assms(1) by (simp add: store_ok_def)
    have "?start = first_day_of_next_month (last (existing_partition_months s))"
      using last(1) by (simp add: start_month_def split: list.split)
    moreover have "month_index m \<le> month_index (last (existing_partition_months s))" if "m \<in> months_of s" for m
      using last(2,3) valid that month_index_le by blast
    ultimately show ?thesis using last(2) valid next_month_valid by (auto simp: next_month_index)
  qed
  note set = months_to_create_set [OF conjunct1 [OF start] nxt, of max_months_per_run]
  have "\<forall>m\<in>set ?ms. valid_month m \<and> m \<notin> months_of s" using set start by auto
  from create_partitions_ok [OF assms(1) months_to_create_distinct [OF conjunct1 [OF start] nxt] this]
  obtain s' where s': "create_partitions mo ?ms (?next, s) = Inr (last (?next # ?ms), s')" "store_ok mo s'"
    "months_of s' = set ?ms \<union> months_of s" "mset (all_rows s') = mset (all_rows s)" by blast
  have "last (?next # ?ms) = ?next"
  proof (cases "?start \<le> ?next")
    case True
    then have "last ?ms = ?next"
      using months_to_create_last [OF conjunct1 [OF start] nxt True, of max_months_per_run] assms(3)
      by (simp add: max_months_per_run_def)
    then show ?thesis by simp
  next
    case False
    then show ?thesis by (simp add: max_months_per_run_def numeral_eq_Suc)
  qed
  moreover have "set ?ms = {m. valid_month m \<and> ?start \<le> m \<and> m \<le> ?next}"
    using set assms(3) start nxt by (auto simp: month_index_le max_months_per_run_def)
  ultimately show ?thesis using s' by (auto simp: ensure_next_month_attempts_partition_def Let_def)
qed

definition sample_store :: "month attempt_store" where
  "sample_store = \<lparr>parts = [((2026, 8), [(2026, 8)])], default_rows = [(2026, 9), (2026, 11), (2026, 9)]\<rparr>"

lemma partition_job_recovers_witness:
  "\<exists>s :: month attempt_store. ensure_next_month_attempts_partition id (2026, 12) sample_store = Inr ((2027, 1), s) \<and>
     mset (all_rows s) = mset (all_rows sample_store)"
proof -
  have "store_ok id sample_store" "valid_month (2026, 12)"
    by (simp_all add: store_ok_def sample_store_def months_of_def valid_month_def)
  moreover have "month_index (first_day_of_next_month (2026, 12)) < month_index (start_month (2026, 12) sample_store) + 72"
    "first_day_of_next_month (2026, 12) = (2027, 1)"
    by (simp_all add: start_month_def existing_partition_months_def sample_store_def month_index_def
        first_day_of_next_month_def)
  ultimately show ?thesis using partition_job_recovers [of id sample_store "(2026, 12)"] by auto
qed

end
