(* ===== verification/Jobs_Runner.thy ===== *)
theory Jobs_Runner
  imports Store "HOL-Library.AList"
begin

text \<open>
  How the periodic jobs are run: the scheduler of the process (\<open>jobs/runner.py\<close>), the health it
  reports (\<open>admin/service.py\<close>), and the trigger of an external clock with its lock in Redis
  (\<open>jobs/trigger.py\<close>). What a job does is an argument; here only whether it raises matters.
\<close>

section \<open>The scheduler\<close>

record scheduler =
  run_counts :: "(string \<times> nat) list"
  error_counts :: "(string \<times> nat) list"
  last_run_at :: "(string \<times> instant option) list"
  last_error_at :: "(string \<times> instant option) list"

record periodic_job =
  job_name :: string
  job_interval :: int
  run_at_startup :: bool

definition new_scheduler :: "periodic_job list \<Rightarrow> scheduler" where
  "new_scheduler jobs =
     \<lparr>run_counts = map (\<lambda>j. (job_name j, 0)) jobs, error_counts = map (\<lambda>j. (job_name j, 0)) jobs,
      last_run_at = map (\<lambda>j. (job_name j, None)) jobs, last_error_at = map (\<lambda>j. (job_name j, None)) jobs\<rparr>"

definition count_in :: "string \<Rightarrow> (string \<times> nat) list \<Rightarrow> nat" where
  "count_in k t = (case map_of t k of None \<Rightarrow> 0 | Some n \<Rightarrow> n)"

text \<open>\<open>raised\<close> says whether the run ends in an exception, which is swallowed.\<close>

definition run_once :: "string \<Rightarrow> instant \<Rightarrow> bool \<Rightarrow> scheduler \<Rightarrow> scheduler" where
  "run_once name now raised s =
     (if raised
      then s\<lparr>error_counts := AList.update name (count_in name (error_counts s) + 1) (error_counts s),
             last_error_at := AList.update name (Some now) (last_error_at s)\<rparr>
      else s\<lparr>run_counts := AList.update name (count_in name (run_counts s) + 1) (run_counts s),
             last_run_at := AList.update name (Some now) (last_run_at s)\<rparr>)"

text \<open>
  The instants at which the loop of a job runs it, when it starts at \<open>t\<close> and the stop event is set at
  \<open>stop\<close>; \<open>took i\<close> is how long run \<open>i\<close> takes, and the interval starts after a run has ended.
\<close>

fun job_ticks :: "nat \<Rightarrow> int \<Rightarrow> (nat \<Rightarrow> int) \<Rightarrow> nat \<Rightarrow> instant \<Rightarrow> instant \<Rightarrow> instant list" where
  "job_ticks 0 interval took i t stop = []"
| "job_ticks (Suc fuel) interval took i t stop =
     (if stop \<le> t + interval then []
      else (t + interval) # job_ticks fuel interval took (i + 1) (t + interval + took i) stop)"

definition job_loop :: "nat \<Rightarrow> periodic_job \<Rightarrow> (nat \<Rightarrow> int) \<Rightarrow> instant \<Rightarrow> instant \<Rightarrow> instant list" where
  "job_loop fuel j took t stop =
     (if run_at_startup j then t # job_ticks fuel (job_interval j) took 1 (t + took 0) stop
      else job_ticks fuel (job_interval j) took 0 t stop)"

text \<open>Runs of any jobs in the order in which they end.\<close>

fun run_events :: "(string \<times> instant \<times> bool) list \<Rightarrow> scheduler \<Rightarrow> scheduler" where
  "run_events [] s = s"
| "run_events ((name, now, raised) # es) s = run_events es (run_once name now raised s)"

definition runs_of :: "string \<Rightarrow> bool \<Rightarrow> (string \<times> instant \<times> bool) list \<Rightarrow> nat" where
  "runs_of name raised es = length (filter (\<lambda>(n, _, r). n = name \<and> r = raised) es)"

lemma count_in_update [simp]:
  "count_in k (AList.update name n t) = (if k = name then n else count_in k t)"
  by (simp add: count_in_def update_conv')

text \<open>No job counts, or hides, the failures of another.\<close>

lemma run_events_counts:
  "count_in name (run_counts (run_events es s)) = count_in name (run_counts s) + runs_of name False es"
  "count_in name (error_counts (run_events es s)) = count_in name (error_counts s) + runs_of name True es"
  by (induction es s rule: run_events.induct) (auto simp: run_once_def runs_of_def)

text \<open>Enough fuel for every tick before the stop, when the interval is positive and runs take time.\<close>

lemma job_ticks_fuel:
  assumes "0 < interval" and "\<forall>i. 0 \<le> took i" and "nat (stop - t) \<le> fuel"
  shows "job_ticks fuel interval took i t stop = job_ticks (fuel + k) interval took i t stop"
  using assms(3)
proof (induction fuel arbitrary: i t)
  case 0
  then have "stop \<le> t" by simp
  then show ?case using assms(1) by (cases k) auto
next
  case (Suc fuel)
  have "nat (stop - (t + interval + took i)) \<le> fuel" using Suc(2) assms(1) spec [OF assms(2), of i] by linarith
  from Suc(1) [OF this] show ?case by simp
qed

section \<open>Health\<close>

record job_status =
  js_run_count :: nat
  js_error_count :: nat
  js_last_run_at :: "instant option"
  js_last_error_at :: "instant option"

definition job_health :: "scheduler option \<Rightarrow> (string \<times> job_status) list option" where
  "job_health sch =
     map_option (\<lambda>s. map (\<lambda>(name, n).
       (name, \<lparr>js_run_count = n, js_error_count = count_in name (error_counts s),
               js_last_run_at = Option.bind (map_of (last_run_at s) name) id,
               js_last_error_at = Option.bind (map_of (last_error_at s) name) id\<rparr>)) (run_counts s)) sch"

section \<open>The trigger\<close>

datatype 'r trigger_result = AlreadyRunning | JobFailed exn | JobRan 'r

definition triggerable :: "string list" where
  "triggerable = [''reminders'', ''weekly_recap'']"

definition unknown_jobs :: exn where
  "unknown_jobs = ValueError ''Unknown job(s)''"

definition trigger_report :: "'r result \<Rightarrow> 'r trigger_result" where
  "trigger_report r = (case r of Inl e \<Rightarrow> JobFailed e | Inr x \<Rightarrow> JobRan x)"

text \<open>
  A job claimed at \<open>now\<close> that ends at \<open>done\<close>: \<open>meanwhile\<close> is what others do to Redis while it
  runs. \<open>reachable\<close> says whether Redis answers the claim, and the release.
\<close>

definition trigger_one ::
    "(string \<Rightarrow> 'r result) \<Rightarrow> bool \<Rightarrow> bool \<Rightarrow> (rstore \<Rightarrow> rstore) \<Rightarrow> instant \<Rightarrow> string \<Rightarrow> rstore
       \<Rightarrow> 'r trigger_result \<times> rstore" where
  "trigger_one job reachable releases meanwhile now name s =
     (if \<not> reachable then (trigger_report (job name), meanwhile s)
      else
        (case rset_nx s now (JobLock name) Flag (seconds 600) of
           (False, s1) \<Rightarrow> (AlreadyRunning, s1)
         | (True, s1) \<Rightarrow>
             (trigger_report (job name),
              if releases then rdel (meanwhile s1) (JobLock name) else meanwhile s1)))"

fun trigger_each ::
    "(string \<Rightarrow> 'r result) \<Rightarrow> (string \<Rightarrow> bool) \<Rightarrow> (string \<Rightarrow> bool) \<Rightarrow> (string \<Rightarrow> rstore \<Rightarrow> rstore)
       \<Rightarrow> (string \<Rightarrow> instant) \<Rightarrow> string list \<Rightarrow> rstore \<Rightarrow> (string \<times> 'r trigger_result) list \<times> rstore" where
  "trigger_each job up rel meanwhile clk [] s = ([], s)"
| "trigger_each job up rel meanwhile clk (n # ns) s =
     (case trigger_one job (up n) (rel n) (meanwhile n) (clk n) n s of
        (r, s1) \<Rightarrow> (case trigger_each job up rel meanwhile clk ns s1 of (rs, s2) \<Rightarrow> ((n, r) # rs, s2)))"

definition run_jobs ::
    "(string \<Rightarrow> 'r result) \<Rightarrow> (string \<Rightarrow> bool) \<Rightarrow> (string \<Rightarrow> bool) \<Rightarrow> (string \<Rightarrow> rstore \<Rightarrow> rstore)
       \<Rightarrow> (string \<Rightarrow> instant) \<Rightarrow> string list option \<Rightarrow> rstore
       \<Rightarrow> ((string \<times> 'r trigger_result) list \<times> rstore) result" where
  "run_jobs job up rel meanwhile clk names s =
     (let selected = (case names of None \<Rightarrow> triggerable | Some [] \<Rightarrow> triggerable | Some ns \<Rightarrow> ns) in
      if set selected \<subseteq> set triggerable
      then Inr (trigger_each job up rel meanwhile clk selected s) else Inl unknown_jobs)"

text \<open>
  Each selected job is reported, in order; it is skipped only for a lock that is held, and a failing job
  or an unreachable Redis stops no other.
\<close>

lemma trigger_each_reports: "map fst (fst (trigger_each job up rel meanwhile clk ns s)) = ns"
  by (induction job up rel meanwhile clk ns s rule: trigger_each.induct) (auto split: prod.split)

lemma trigger_runs_unless_locked:
  "fst (trigger_one job u r m now name s) =
     (if u \<and> rget s now (JobLock name) \<noteq> None then AlreadyRunning else trigger_report (job name))"
  by (simp add: trigger_one_def rset_nx_def)

text \<open>
  The release deletes whatever lock is there: a run that outlives its ten minutes deletes the lock of the
  run that started after the deadline.
\<close>

lemma late_release_frees_another_run:
  "\<exists>s :: rstore. rget s 700000000 (JobLock ''reminders'') = Some Flag \<and>
     rget (snd (trigger_one (\<lambda>_. Inr ()) True True (\<lambda>_. s) 0 ''reminders'' Map.empty)) 700000000
       (JobLock ''reminders'') = None"
proof
  let ?s = "[JobLock ''reminders'' \<mapsto> (Flag, Some 1000000000)] :: rstore"
  show "rget ?s 700000000 (JobLock ''reminders'') = Some Flag \<and>
      rget (snd (trigger_one (\<lambda>_. Inr ()) True True (\<lambda>_. ?s) 0 ''reminders'' Map.empty)) 700000000
        (JobLock ''reminders'') = None"
    by (simp add: trigger_one_def rset_nx_def rget_def rset_def rdel_def alive_def seconds_def)
qed

end
