(* ===== verification/Users.thy ===== *)
theory Users
  imports Notify
begin

text \<open>
  The profile and the progress of a user, \<open>users/service.py\<close> and \<open>users/router.py\<close>: the user object, the
  patch of the profile, and the five reads over the tables the other components write. Dates are kept as
  day numbers where the code prints them in ISO form. The zone database and \<open>time.fromisoformat\<close> are
  parameters, as they are in the reminder job.
\<close>

section \<open>The user object\<close>

record user_view =
  uv_id :: uid
  uv_username :: string
  uv_display_name :: "string option"
  uv_avatar_url :: "string option"
  uv_level :: string
  uv_timezone :: string
  uv_onboarded :: bool
  uv_email :: "string option"
  uv_email_verified :: bool
  uv_pending_email :: "string option"
  uv_reminder_local_time :: "string option"
  uv_email_prefs :: "bool \<times> bool"

definition two_digits :: "int \<Rightarrow> string" where
  "two_digits n = [char_of (48 + n div 10), char_of (48 + n mod 10)]"

text \<open>\<open>strftime("%H:%M")\<close> of a time of day in microseconds.\<close>

definition hh_mm :: "int \<Rightarrow> string" where
  "hh_mm t = two_digits (t div 3600000000) @ '':'' @ two_digits (t div 60000000 mod 60)"

definition user_response :: "account \<Rightarrow> bool \<times> bool \<Rightarrow> user_view" where
  "user_response a prefs =
     \<lparr>uv_id = acc_id a, uv_username = acc_username a, uv_display_name = acc_display_name a,
      uv_avatar_url = acc_avatar_url a, uv_level = acc_level a, uv_timezone = acc_timezone a,
      uv_onboarded = acc_onboarded a, uv_email = acc_email a,
      uv_email_verified = (acc_email_verified_at a \<noteq> None), uv_pending_email = acc_pending_email a,
      uv_reminder_local_time = map_option hh_mm (acc_reminder_time a), uv_email_prefs = prefs\<rparr>"

definition unknown_user :: exn where
  "unknown_user = ApiError 401 ''invalid_token''"

definition me :: "suppressions \<Rightarrow> uid \<Rightarrow> identity_db \<Rightarrow> user_view result" where
  "me tbl u db =
     (case find_account u db of
        None \<Rightarrow> Inl unknown_user
      | Some a \<Rightarrow> Inr (user_response a (email_preferences tbl u)))"

section \<open>The patch\<close>

text \<open>
  A field of the request is absent (\<open>None\<close>), null (\<open>Some None\<close>) or a value. The validators accept a null
  in every field.
\<close>

record profile_patch =
  pp_display_name :: "string option option"
  pp_timezone :: "string option option"
  pp_level :: "string option option"
  pp_reminder_local_time :: "string option option"

record profile_env =
  pe_zone_off :: "string \<Rightarrow> instant \<Rightarrow> int"
  pe_known_zone :: "string \<Rightarrow> bool"
  pe_parse_time :: "string \<Rightarrow> int option"

definition sent_value_ok :: "('a \<Rightarrow> bool) \<Rightarrow> 'a option option \<Rightarrow> bool" where
  "sent_value_ok P f = (case f of Some (Some x) \<Rightarrow> P x | _ \<Rightarrow> True)"

definition valid_patch :: "profile_env \<Rightarrow> profile_patch \<Rightarrow> bool" where
  "valid_patch P p \<longleftrightarrow>
     sent_value_ok (pe_known_zone P) (pp_timezone p) \<and>
     sent_value_ok (\<lambda>l. l \<in> {''junior'', ''mid'', ''senior''}) (pp_level p) \<and>
     sent_value_ok (\<lambda>v. pe_parse_time P v \<noteq> None) (pp_reminder_local_time p)"

text \<open>
  A null timezone reaches \<open>ZoneInfo\<close> (a \<open>TypeError\<close>) when there is an active day to compare it with; in
  every other case it reaches the \<open>NOT NULL\<close> column, as a null level does. Nothing is committed then.
\<close>

definition has_active_day :: "uid \<Rightarrow> streak_db \<Rightarrow> bool" where
  "has_active_day u db =
     (case get_stats_row db u of None \<Rightarrow> False | Some s \<Rightarrow> last_active_local_date s \<noteq> None)"

definition patch_streaks ::
    "profile_env \<Rightarrow> instant \<Rightarrow> profile_patch \<Rightarrow> account \<Rightarrow> streak_db \<Rightarrow> streak_db result" where
  "patch_streaks P now p a db =
     (case pp_timezone p of
        None \<Rightarrow> Inr db
      | Some None \<Rightarrow> if has_active_day (acc_id a) db then Inl TypeError else Inr db
      | Some (Some tz) \<Rightarrow>
          Inr (reconcile_streak_for_timezone_change (pe_zone_off P) now (acc_id a) (acc_timezone a) tz db))"

text \<open>
  \<open>if value\<close>: the empty text is no time. The validator refuses a text that is no time, so that the
  \<open>ValueError\<close> cannot be reached behind it.
\<close>

definition reminder_value :: "profile_env \<Rightarrow> string option \<Rightarrow> int option result" where
  "reminder_value P v =
     (case v of
        None \<Rightarrow> Inr None
      | Some s \<Rightarrow>
          if s = [] then Inr None
          else (case pe_parse_time P s of None \<Rightarrow> Inl (ValueError ''time'') | Some t \<Rightarrow> Inr (Some t)))"

definition sent :: "'a option \<Rightarrow> ('a \<Rightarrow> 'b) \<Rightarrow> 'b \<Rightarrow> 'b" where
  "sent f g old = (case f of None \<Rightarrow> old | Some x \<Rightarrow> g x)"

definition patched :: "profile_patch \<Rightarrow> int option \<Rightarrow> account \<Rightarrow> account" where
  "patched p reminder a =
     a\<lparr>acc_display_name := sent (pp_display_name p) id (acc_display_name a),
       acc_timezone := sent (pp_timezone p) the (acc_timezone a),
       acc_level := sent (pp_level p) the (acc_level a),
       acc_onboarded := sent (pp_level p) (\<lambda>_. True) (acc_onboarded a),
       acc_reminder_time := sent (pp_reminder_local_time p) (\<lambda>_. reminder) (acc_reminder_time a)\<rparr>"

definition update_me ::
    "profile_env \<Rightarrow> instant \<Rightarrow> uid \<Rightarrow> profile_patch \<Rightarrow> streak_db \<times> identity_db
       \<Rightarrow> (account \<times> streak_db \<times> identity_db) result" where
  "update_me P now u p st =
     (case find_account u (snd st) of
        None \<Rightarrow> Inl unknown_user
      | Some a \<Rightarrow>
          (case patch_streaks P now p a (fst st) of
             Inl e \<Rightarrow> Inl e
           | Inr db \<Rightarrow>
               (case reminder_value P (case pp_reminder_local_time p of None \<Rightarrow> None | Some v \<Rightarrow> v) of
                  Inl e \<Rightarrow> Inl e
                | Inr r \<Rightarrow>
                    if pp_timezone p = Some None \<or> pp_level p = Some None then Inl IntegrityError
                    else Inr (patched p r a, db, change_account u (patched p r) (snd st)))))"

definition patch_me ::
    "profile_env \<Rightarrow> instant \<Rightarrow> uid \<Rightarrow> profile_patch \<Rightarrow> suppressions \<Rightarrow> streak_db \<times> identity_db
       \<Rightarrow> (user_view \<times> streak_db \<times> identity_db) result" where
  "patch_me P now u p tbl st =
     (if \<not> valid_patch P p then Inl (ApiError 400 ''validation_error'')
      else (case update_me P now u p st of
              Inl e \<Rightarrow> Inl e
            | Inr (a, st') \<Rightarrow> Inr (user_response a (email_preferences tbl (acc_id a)), st')))"

section \<open>Reads of the precomputed tables\<close>

text \<open>The projection of a pair of counters: \<open>round(correct / attempts, 4)\<close>.\<close>

definition project :: "(string \<rightharpoonup> int \<times> int) \<Rightarrow> (string \<rightharpoonup> rat)" where
  "project acc t =
     map_option (\<lambda>(a, c). if a = 0 then 0 else round_digits 4 (fl (of_int c / of_int a))) (acc t)"

record stats_view =
  sv_current_streak :: int
  sv_longest_streak :: int
  sv_streak_freezes :: int
  sv_total_attempts :: int
  sv_total_correct :: int
  sv_accuracy_by_type :: "string \<rightharpoonup> rat"
  sv_last_active :: "date option"
  sv_total_sessions :: nat
  sv_repair_available :: bool
  sv_repair_restores_to :: "int option"

definition total_sessions :: "uid \<Rightarrow> backend \<Rightarrow> nat" where
  "total_sessions u b = count_if (\<lambda>((v, d), row). v = u \<and> completed_at row \<noteq> None) (daily_sessions b)"

definition get_stats :: "settings \<Rightarrow> instant \<Rightarrow> uid \<Rightarrow> backend \<Rightarrow> stats_view" where
  "get_stats S now u b =
     (let back = restorable_value S now u (streaks b) in
      case get_stats_row (streaks b) u of
        None \<Rightarrow>
          \<lparr>sv_current_streak = 0, sv_longest_streak = 0, sv_streak_freezes = 0, sv_total_attempts = 0,
           sv_total_correct = 0, sv_accuracy_by_type = Map.empty, sv_last_active = None,
           sv_total_sessions = total_sessions u b, sv_repair_available = False,
           sv_repair_restores_to = None\<rparr>
      | Some s \<Rightarrow>
          \<lparr>sv_current_streak = current_streak s, sv_longest_streak = longest_streak s,
           sv_streak_freezes = streak_freezes s, sv_total_attempts = total_attempts s,
           sv_total_correct = total_correct s, sv_accuracy_by_type = project (accuracy_by_type s),
           sv_last_active = last_active_local_date s, sv_total_sessions = total_sessions u b,
           sv_repair_available = (back \<noteq> None), sv_repair_restores_to = back\<rparr>)"

text \<open>Weakest first; the order of equal masteries is the table's.\<close>

record concept_view =
  cv_concept :: string
  cv_mastery :: rat
  cv_attempts :: int
  cv_next_review_at :: "instant option"

definition get_concepts :: "uid \<Rightarrow> backend \<Rightarrow> concept_view list" where
  "get_concepts u b =
     map (\<lambda>((v, c), r). \<lparr>cv_concept = c, cv_mastery = fl (of_int (mastery r) / 1000),
                        cv_attempts = attempts r, cv_next_review_at = next_review_at r\<rparr>)
       (sort_key (\<lambda>((v, c), r). mastery r) (filter (\<lambda>((v, c), r). v = u) (concept_states b)))"

section \<open>Reads that aggregate\<close>

definition ACTIVITY_DEFAULT_WINDOW_DAYS :: int where "ACTIVITY_DEFAULT_WINDOW_DAYS = 365"
definition ACCURACY_HISTORY_DEFAULT_WINDOW_DAYS :: int where "ACCURACY_HISTORY_DEFAULT_WINDOW_DAYS = 90"

definition window_of ::
    "int \<Rightarrow> (string \<Rightarrow> instant \<Rightarrow> int) \<Rightarrow> instant \<Rightarrow> account \<Rightarrow> date option \<Rightarrow> date option \<Rightarrow> date \<times> date" where
  "window_of days off now a date_from date_to =
     (let d2 = (case date_to of None \<Rightarrow> local_date_for off (acc_timezone a) now | Some d \<Rightarrow> d);
          d1 = (case date_from of None \<Rightarrow> d2 - (days - 1) | Some d \<Rightarrow> d)
      in (d1, d2))"

definition session_rows :: "uid \<Rightarrow> backend \<Rightarrow> (date \<times> daily_session) list" where
  "session_rows u b = map (\<lambda>((v, d), row). (d, row)) (filter (\<lambda>((v, d), row). v = u) (daily_sessions b))"

definition get_activity ::
    "(string \<Rightarrow> instant \<Rightarrow> int) \<Rightarrow> instant \<Rightarrow> account \<Rightarrow> date option \<Rightarrow> date option \<Rightarrow> backend \<Rightarrow> (date \<times> bool) list" where
  "get_activity off now a date_from date_to b =
     (let (d1, d2) = window_of ACTIVITY_DEFAULT_WINDOW_DAYS off now a date_from date_to in
      map (\<lambda>(d, row). (d, completed_at row \<noteq> None))
        (sort_key fst (filter (\<lambda>(d, row). d1 \<le> d \<and> d \<le> d2) (session_rows (acc_id a) b))))"

record session_summary =
  ss_session_date :: date
  ss_completed :: bool
  ss_exercise_count :: nat
  ss_correct_count :: nat
  ss_skipped_count :: nat
  ss_concepts :: "string list"

definition concepts_by_key :: "backend \<Rightarrow> nat \<times> nat \<Rightarrow> string list" where
  "concepts_by_key b k =
     (case find_exercise (fst k) (snd k) (exercises_tbl b) of None \<Rightarrow> [] | Some ex \<Rightarrow> ex_concepts ex)"

definition bump_date :: "date \<Rightarrow> (date \<times> nat) list \<Rightarrow> (date \<times> nat) list" where
  "bump_date d m = AList.update d (Suc (case map_of m d of None \<Rightarrow> 0 | Some n \<Rightarrow> n)) m"

fun count_outcomes :: "attempt list \<Rightarrow> (date \<times> nat) list \<times> (date \<times> nat) list \<Rightarrow> (date \<times> nat) list \<times> (date \<times> nat) list" where
  "count_outcomes [] (hits, skips) = (hits, skips)"
| "count_outcomes (a # as) (hits, skips) =
     count_outcomes as
       (if att_status a = StSkipped then (hits, bump_date (session_date a) skips)
        else if att_correct a = Some True then (bump_date (session_date a) hits, skips)
        else (hits, skips))"

definition count_on :: "(date \<times> nat) list \<Rightarrow> date \<Rightarrow> nat" where
  "count_on m d = (case map_of m d of None \<Rightarrow> 0 | Some n \<Rightarrow> n)"

definition get_sessions :: "uid \<Rightarrow> nat \<Rightarrow> backend \<Rightarrow> session_summary list" where
  "get_sessions u limit b =
     (let sessions = take limit (rev (sort_key fst (session_rows u b)));
          dates = map fst sessions;
          (hits, skips) =
            count_outcomes (filter (\<lambda>a. att_user a = u \<and> session_date a \<in> set dates) (attempts_tbl b)) ([], [])
      in map (\<lambda>(d, row).
            \<lparr>ss_session_date = d, ss_completed = (completed_at row \<noteq> None),
             ss_exercise_count = length (exercise_list row),
             ss_correct_count = count_on hits d, ss_skipped_count = count_on skips d,
             ss_concepts = sort (remdups (concat (map
               (\<lambda>s. concepts_by_key b (slot_exercise_id s, slot_version s)) (exercise_list row))))\<rparr>) sessions)"

record accuracy_day =
  ad_date :: date
  ad_accuracy :: rat
  ad_attempts :: nat

definition add_resolved :: "attempt \<Rightarrow> (date \<times> nat \<times> nat) list \<Rightarrow> (date \<times> nat \<times> nat) list" where
  "add_resolved a totals =
     (let (hits, total) = (case map_of totals (session_date a) of None \<Rightarrow> (0, 0) | Some p \<Rightarrow> p)
      in AList.update (session_date a)
           (if att_correct a = Some True then Suc hits else hits, Suc total) totals)"

definition resolved_attempts :: "uid \<Rightarrow> date \<times> date \<Rightarrow> backend \<Rightarrow> attempt list" where
  "resolved_attempts u w b =
     filter (\<lambda>a. att_user a = u \<and> fst w \<le> session_date a \<and> session_date a \<le> snd w \<and> att_correct a \<noteq> None)
       (attempts_tbl b)"

definition get_accuracy_history ::
    "(string \<Rightarrow> instant \<Rightarrow> int) \<Rightarrow> instant \<Rightarrow> account \<Rightarrow> date option \<Rightarrow> date option \<Rightarrow> backend \<Rightarrow> accuracy_day list" where
  "get_accuracy_history off now a date_from date_to b =
     (let w = window_of ACCURACY_HISTORY_DEFAULT_WINDOW_DAYS off now a date_from date_to;
          totals = fold add_resolved (sort_key session_date (resolved_attempts (acc_id a) w b)) []
      in map (\<lambda>(d, hits, total).
               \<lparr>ad_date = d, ad_accuracy = fl (of_nat hits / of_nat total), ad_attempts = total\<rparr>)
           (sort_key fst totals))"

section \<open>The handlers of the reads\<close>

text \<open>A token of a deleted row is refused; a limit outside 1 to 50 fails the validation.\<close>

definition me_activity ::
    "(string \<Rightarrow> instant \<Rightarrow> int) \<Rightarrow> instant \<Rightarrow> uid \<Rightarrow> date option \<Rightarrow> date option \<Rightarrow> identity_db \<Rightarrow> backend
       \<Rightarrow> (date \<times> bool) list result" where
  "me_activity off now u date_from date_to db b =
     (case find_account u db of
        None \<Rightarrow> Inl unknown_user
      | Some a \<Rightarrow> Inr (get_activity off now a date_from date_to b))"

definition me_accuracy_history ::
    "(string \<Rightarrow> instant \<Rightarrow> int) \<Rightarrow> instant \<Rightarrow> uid \<Rightarrow> date option \<Rightarrow> date option \<Rightarrow> identity_db \<Rightarrow> backend
       \<Rightarrow> accuracy_day list result" where
  "me_accuracy_history off now u date_from date_to db b =
     (case find_account u db of
        None \<Rightarrow> Inl unknown_user
      | Some a \<Rightarrow> Inr (get_accuracy_history off now a date_from date_to b))"

definition me_sessions :: "uid \<Rightarrow> int \<Rightarrow> backend \<Rightarrow> session_summary list result" where
  "me_sessions u limit b =
     (if 1 \<le> limit \<and> limit \<le> 50 then Inr (get_sessions u (nat limit) b)
      else Inl (ApiError 400 ''validation_error''))"

end
