(* ===== verification/Users_Props.thy ===== *)
theory Users_Props
  imports Users Submit_Props
begin

text \<open>
  The reads of a user's progress agree with the tables and with each other, and a patch of the profile
  changes what it names and nothing else.
\<close>

section \<open>Tables of counts\<close>

definition on_day :: "date \<Rightarrow> attempt \<Rightarrow> bool" where
  "on_day d a \<longleftrightarrow> session_date a = d"

lemma count_if_snoc [simp]: "count_if P (xs @ [a]) = count_if P xs + (if P a then 1 else 0)"
  by (simp add: count_if_def)

lemma count_if_le: "(\<And>x. P x \<Longrightarrow> Q x) \<Longrightarrow> count_if P xs \<le> count_if Q xs"
  unfolding count_if_def by (induction xs) (auto simp: le_SucI)

lemma sum_update:
  fixes g :: "'b \<Rightarrow> nat"
  assumes "distinct (map fst m)"
  shows "sum_list (map (g \<circ> snd) (AList.update k v m)) + (case map_of m k of None \<Rightarrow> 0 | Some w \<Rightarrow> g w) =
     sum_list (map (g \<circ> snd) m) + g v"
  using assms by (induction m) (auto split: option.splits)

lemma add_resolved_eq:
  "add_resolved a m = AList.update (session_date a)
     (case map_of m (session_date a) of
        None \<Rightarrow> (if att_correct a = Some True then 1 else 0, 1)
      | Some (h, t) \<Rightarrow> (if att_correct a = Some True then Suc h else h, Suc t)) m"
  by (auto simp: add_resolved_def Let_def split: option.split)

lemma sum_add_resolved:
  assumes "distinct (map fst m)"
  shows "sum_list (map (snd \<circ> snd) (add_resolved a m)) = Suc (sum_list (map (snd \<circ> snd) m))"
proof (cases "map_of m (session_date a)")
  case None
  then show ?thesis
    using sum_update [OF assms, of snd "session_date a" "(if att_correct a = Some True then 1 else 0, 1)"]
    by (simp add: add_resolved_eq)
next
  case (Some p)
  then show ?thesis
    using sum_update [OF assms, of snd "session_date a"
        "(if att_correct a = Some True then Suc (fst p) else fst p, Suc (snd p))"]
    by (cases p) (simp add: add_resolved_eq split: if_splits)
qed

lemma resolved_totals:
  defines "m xs \<equiv> fold add_resolved xs []"
  shows "distinct (map fst (m xs))"
    and "map_of (m xs) d = (if count_if (on_day d) xs = 0 then None
           else Some (count_if (\<lambda>a. on_day d a \<and> att_correct a = Some True) xs, count_if (on_day d) xs))"
    and "sum_list (map (snd \<circ> snd) (m xs)) = length xs"
proof -
  have "distinct (map fst (m xs)) \<and>
      (\<forall>d. map_of (m xs) d = (if count_if (on_day d) xs = 0 then None
           else Some (count_if (\<lambda>a. on_day d a \<and> att_correct a = Some True) xs, count_if (on_day d) xs))) \<and>
      sum_list (map (snd \<circ> snd) (m xs)) = length xs"
  proof (induction xs rule: rev_induct)
    case Nil
    then show ?case by (simp add: m_def count_if_def)
  next
    case (snoc a xs)
    have step: "m (xs @ [a]) = add_resolved a (m xs)" by (simp add: m_def)
    have dist: "distinct (map fst (m xs))" using snoc by simp
    then have "distinct (map fst (m (xs @ [a])))" by (simp add: step add_resolved_eq distinct_update)
    moreover have "map_of (m (xs @ [a])) d = (if count_if (on_day d) (xs @ [a]) = 0 then None
        else Some (count_if (\<lambda>b. on_day d b \<and> att_correct b = Some True) (xs @ [a]),
                   count_if (on_day d) (xs @ [a])))" for d
      using snoc count_if_le [of "\<lambda>b. on_day d b \<and> att_correct b = Some True" "on_day d" xs]
      by (auto simp: step add_resolved_eq update_conv' on_day_def [of _ a] split: if_splits)
    moreover have "sum_list (map (snd \<circ> snd) (m (xs @ [a]))) = length (xs @ [a])"
      using sum_add_resolved [OF dist] snoc by (simp add: step)
    ultimately show ?case by blast
  qed
  then show "distinct (map fst (m xs))" and "map_of (m xs) d = (if count_if (on_day d) xs = 0 then None
           else Some (count_if (\<lambda>a. on_day d a \<and> att_correct a = Some True) xs, count_if (on_day d) xs))"
    and "sum_list (map (snd \<circ> snd) (m xs)) = length xs" by blast+
qed

lemma count_on_Nil [simp]: "count_on [] d = 0"
  by (simp add: count_on_def)

lemma count_on_bump [simp]: "count_on (bump_date d m) e = count_on m e + (if e = d then 1 else 0)"
  by (auto simp: count_on_def bump_date_def update_conv')

lemma count_outcomes_counts:
  "count_on (fst (count_outcomes as p)) d = count_on (fst p) d +
     count_if (\<lambda>a. on_day d a \<and> att_status a \<noteq> StSkipped \<and> att_correct a = Some True) as"
  "count_on (snd (count_outcomes as p)) d = count_on (snd p) d +
     count_if (\<lambda>a. on_day d a \<and> att_status a = StSkipped) as"
  by (induction as arbitrary: p) (auto simp: count_if_def on_day_def)

section \<open>Progress\<close>

lemma count_if_filter: "count_if P (filter Q xs) = count_if (\<lambda>x. Q x \<and> P x) xs"
  by (simp add: count_if_def conj_commute)

lemma count_if_cong: "(\<And>x. x \<in> set xs \<Longrightarrow> P x = Q x) \<Longrightarrow> count_if P xs = count_if Q xs"
  unfolding count_if_def by (metis (mono_tags, lifting) filter_cong)

lemma count_if_sort_key [simp]: "count_if P (sort_key f xs) = count_if P xs"
proof -
  have "mset (filter P (sort_key f xs)) = mset (filter P xs)" by simp
  then show ?thesis unfolding count_if_def by (metis size_mset)
qed

lemma history_day:
  assumes "h \<in> set (get_accuracy_history off now a date_from date_to b)"
    and "w = window_of ACCURACY_HISTORY_DEFAULT_WINDOW_DAYS off now a date_from date_to"
  shows "0 < ad_attempts h"
    and "ad_attempts h = count_if (on_day (ad_date h)) (resolved_attempts (acc_id a) w b)"
    and "ad_accuracy h = fl (of_nat (count_if (\<lambda>x. on_day (ad_date h) x \<and> att_correct x = Some True)
           (resolved_attempts (acc_id a) w b)) / of_nat (ad_attempts h))"
proof -
  let ?xs = "sort_key session_date (resolved_attempts (acc_id a) w b)"
  obtain d c t where "(d, c, t) \<in> set (fold add_resolved ?xs [])"
    and h: "h = \<lparr>ad_date = d, ad_accuracy = fl (of_nat c / of_nat t), ad_attempts = t\<rparr>"
    using assms by (auto simp: get_accuracy_history_def Let_def)
  then have "map_of (fold add_resolved ?xs []) d = Some (c, t)"
    using resolved_totals(1) by (simp add: map_of_eq_Some_iff)
  then have "t \<noteq> 0" "c = count_if (\<lambda>x. on_day d x \<and> att_correct x = Some True) ?xs" "t = count_if (on_day d) ?xs"
    unfolding resolved_totals(2) by (auto split: if_splits)
  then show "0 < ad_attempts h"
    and "ad_attempts h = count_if (on_day (ad_date h)) (resolved_attempts (acc_id a) w b)"
    and "ad_accuracy h = fl (of_nat (count_if (\<lambda>x. on_day (ad_date h) x \<and> att_correct x = Some True)
           (resolved_attempts (acc_id a) w b)) / of_nat (ad_attempts h))"
    unfolding h by simp_all
qed

lemma history_sum:
  "sum_list (map ad_attempts (get_accuracy_history off now a date_from date_to b)) =
     length (resolved_attempts (acc_id a)
       (window_of ACCURACY_HISTORY_DEFAULT_WINDOW_DAYS off now a date_from date_to) b)"
proof -
  have "sum_list (map (snd \<circ> snd) (sort_key fst m)) = sum_list (map (snd \<circ> snd) m)"
    for m :: "(date \<times> nat \<times> nat) list"
  proof -
    have "mset (map (snd \<circ> snd) (sort_key fst m)) = mset (map (snd \<circ> snd) m)" by simp
    then show ?thesis by (metis sum_mset_sum_list)
  qed
  then show ?thesis
    using resolved_totals(3) by (simp add: get_accuracy_history_def Let_def o_def case_prod_beta)
qed

lemma history_sorted:
  "sorted_wrt (<) (map ad_date (get_accuracy_history off now a date_from date_to b))"
proof -
  let ?m = "fold add_resolved (sort_key session_date (resolved_attempts (acc_id a)
    (window_of ACCURACY_HISTORY_DEFAULT_WINDOW_DAYS off now a date_from date_to) b)) []"
  have "map ad_date (get_accuracy_history off now a date_from date_to b) = map fst (sort_key fst ?m)"
    by (simp add: get_accuracy_history_def Let_def o_def case_prod_beta)
  moreover have "sorted (map fst (sort_key fst ?m))" by simp
  moreover have "distinct (map fst (sort_key fst ?m))"
    using resolved_totals(1) by (metis distinct_map distinct_sort set_sort)
  ultimately show ?thesis by (simp add: strict_sorted_iff)
qed

lemma session_summary_counts:
  assumes "s \<in> set (get_sessions u limit b)"
  shows "ss_correct_count s = count_if (\<lambda>x. att_user x = u \<and> on_day (ss_session_date s) x \<and>
      att_status x \<noteq> StSkipped \<and> att_correct x = Some True) (attempts_tbl b)"
    and "ss_skipped_count s = count_if (\<lambda>x. att_user x = u \<and> on_day (ss_session_date s) x \<and>
      att_status x = StSkipped) (attempts_tbl b)"
proof -
  let ?rows = "take limit (rev (sort_key fst (session_rows u b)))"
  let ?as = "filter (\<lambda>a. att_user a = u \<and> session_date a \<in> set (map fst ?rows)) (attempts_tbl b)"
  obtain d row where d: "(d, row) \<in> set ?rows" and s: "ss_session_date s = d"
      "ss_correct_count s = count_on (fst (count_outcomes ?as ([], []))) d"
      "ss_skipped_count s = count_on (snd (count_outcomes ?as ([], []))) d"
    using assms by (auto simp: get_sessions_def Let_def case_prod_beta)
  have d: "d \<in> set (map fst ?rows)" using d by force
  show "ss_correct_count s = count_if (\<lambda>x. att_user x = u \<and> on_day (ss_session_date s) x \<and>
      att_status x \<noteq> StSkipped \<and> att_correct x = Some True) (attempts_tbl b)"
    using d by (auto simp: s count_outcomes_counts count_if_filter on_day_def intro!: count_if_cong)
  show "ss_skipped_count s = count_if (\<lambda>x. att_user x = u \<and> on_day (ss_session_date s) x \<and>
      att_status x = StSkipped) (attempts_tbl b)"
    using d by (auto simp: s count_outcomes_counts count_if_filter on_day_def intro!: count_if_cong)
qed

lemma history_range:
  assumes "h \<in> set (get_accuracy_history off now a date_from date_to b)"
    and "window_of ACCURACY_HISTORY_DEFAULT_WINDOW_DAYS off now a date_from date_to = (d1, d2)"
  shows "d1 \<le> ad_date h \<and> ad_date h \<le> d2 \<and> 0 < ad_attempts h \<and> 0 \<le> ad_accuracy h \<and> ad_accuracy h \<le> 1"
proof -
  let ?res = "resolved_attempts (acc_id a) (d1, d2) b"
  note day = history_day [OF assms(1) assms(2) [symmetric]]
  obtain x where "x \<in> set ?res" "session_date x = ad_date h"
    using day(1,2) by (auto simp: count_if_def on_day_def filter_empty_conv)
  moreover have "count_if (\<lambda>x. on_day (ad_date h) x \<and> att_correct x = Some True) ?res \<le> ad_attempts h"
    unfolding day(2) by (rule count_if_le) simp
  then have "fl (of_nat (count_if (\<lambda>x. on_day (ad_date h) x \<and> att_correct x = Some True) ?res) /
      of_nat (ad_attempts h)) \<le> fl 1" using day(1) by (intro fl_mono) simp
  then have "0 \<le> ad_accuracy h" "ad_accuracy h \<le> 1" using day(3) by (simp_all add: fl_nonneg)
  ultimately show ?thesis using day(1) by (auto simp: resolved_attempts_def)
qed

lemma session_matches_history:
  assumes "h \<in> set (get_accuracy_history off now a date_from date_to b)"
    and "s \<in> set (get_sessions (acc_id a) limit b)" and "ad_date h = ss_session_date s"
    and "\<And>x. x \<in> set (attempts_tbl b) \<Longrightarrow> att_correct x \<noteq> None \<longleftrightarrow> att_status x = StGraded"
  shows "ss_correct_count s \<le> ad_attempts h \<and>
    ad_accuracy h = fl (of_nat (ss_correct_count s) / of_nat (ad_attempts h))"
proof -
  obtain d1 d2 where w: "window_of ACCURACY_HISTORY_DEFAULT_WINDOW_DAYS off now a date_from date_to = (d1, d2)"
    by fastforce
  let ?res = "resolved_attempts (acc_id a) (d1, d2) b"
  note day = history_day [OF assms(1) w [symmetric]]
  have "on_day (ad_date h) x \<Longrightarrow> d1 \<le> session_date x \<and> session_date x \<le> d2" for x
    using history_range [OF assms(1) w] by (simp add: on_day_def)
  then have "ss_correct_count s = count_if (\<lambda>x. on_day (ad_date h) x \<and> att_correct x = Some True) ?res"
    unfolding session_summary_counts(1) [OF assms(2)] resolved_attempts_def count_if_filter assms(3) [symmetric]
    using assms(4) by (intro count_if_cong) auto
  moreover have "count_if (\<lambda>x. on_day (ad_date h) x \<and> att_correct x = Some True) ?res \<le> ad_attempts h"
    unfolding day(2) by (rule count_if_le) simp
  ultimately show ?thesis using day(3) by simp
qed

text \<open>
  C23: What a user is shown of their progress agrees with the attempts and with itself. In every reachable
  state: the days of the accuracy history are strictly increasing and lie in the window asked for, each
  has at least one resolved attempt and a ratio between 0 and 1, and their attempts add up to the graded
  attempts of the window, the number the weekly mail reports for the same days; and for a day that the list
  of sessions shows too, the ratio is the correct count of that session over the attempts of the day.
\<close>

theorem progress_reads_agree:
  assumes "sys_reachable E reqs (empty_backend tbl) (ph, now, b)"
    and "freeze_settings_ok (settings_of (base_env E))"
    and "window_of ACCURACY_HISTORY_DEFAULT_WINDOW_DAYS off now a date_from date_to = (d1, d2)"
    and "days = get_accuracy_history off now a date_from date_to b"
  shows "sorted_wrt (<) (map ad_date days) \<and>
    (\<forall>h\<in>set days. d1 \<le> ad_date h \<and> ad_date h \<le> d2 \<and> 0 < ad_attempts h \<and>
       0 \<le> ad_accuracy h \<and> ad_accuracy h \<le> 1) \<and>
    sum_list (map ad_attempts days) = wr_graded (build_weekly_recap b (acc_id a) d1 d2) \<and>
    (\<forall>h\<in>set days. \<forall>s\<in>set (get_sessions (acc_id a) limit b). ad_date h = ss_session_date s \<longrightarrow>
       ss_correct_count s \<le> ad_attempts h \<and>
       ad_accuracy h = fl (of_nat (ss_correct_count s) / of_nat (ad_attempts h)))"
proof -
  have ok: "x \<in> set (attempts_tbl b) \<Longrightarrow> att_correct x \<noteq> None \<longleftrightarrow> att_status x = StGraded" for x
    using sys_reachable_inv [OF assms(1,2) empty_backend_inv] by (simp add: learner_inv_def attempts_ok_def)
  have "sum_list (map ad_attempts days) = wr_graded (build_weekly_recap b (acc_id a) d1 d2)"
    unfolding assms(4) history_sum assms(3)
    by (simp add: resolved_attempts_def build_weekly_recap_def week_attempts_def count_if_def Let_def conj_assoc)
  moreover have "sorted_wrt (<) (map ad_date days)" unfolding assms(4) by (rule history_sorted)
  moreover have "\<forall>h\<in>set days. d1 \<le> ad_date h \<and> ad_date h \<le> d2 \<and> 0 < ad_attempts h \<and>
      0 \<le> ad_accuracy h \<and> ad_accuracy h \<le> 1"
    unfolding assms(4) using history_range [OF _ assms(3)] by blast
  moreover have "\<forall>h\<in>set days. \<forall>s\<in>set (get_sessions (acc_id a) limit b). ad_date h = ss_session_date s \<longrightarrow>
      ss_correct_count s \<le> ad_attempts h \<and>
      ad_accuracy h = fl (of_nat (ss_correct_count s) / of_nat (ad_attempts h))"
    unfolding assms(4) using session_matches_history [OF _ _ _ ok] by blast
  ultimately show ?thesis by blast
qed

definition learner_account :: account where
  "learner_account = (new_account 7 ''ann'')"

lemma progress_reads_agree_witness:
  "sum_list (map ad_attempts (get_accuracy_history (\<lambda>_ _. 0) 0 learner_account None None sample_after)) =
     wr_graded (build_weekly_recap sample_after 7 (- 89) 0)"
proof -
  obtain ph where ph: "sys_reachable sample_request_env (\<lambda>_. sample_request)
      (empty_backend [sample_exercise, sample_exercise\<lparr>ex_id := 2\<rparr>]) (ph, 0, sample_after)"
    using sample_reachable unfolding sample_start_def by blast
  have "window_of ACCURACY_HISTORY_DEFAULT_WINDOW_DAYS (\<lambda>_ _. 0) 0 learner_account None None = (- 89, 0)"
    by code_simp
  from progress_reads_agree [OF ph sample_freeze_settings this refl]
  show ?thesis by (simp add: learner_account_def new_account_def)
qed

section \<open>The patch\<close>

lemma patched_keeps [simp]:
  "acc_id (patched p r a) = acc_id a" "acc_username (patched p r a) = acc_username a"
  "acc_email (patched p r a) = acc_email a" "acc_email_verified_at (patched p r a) = acc_email_verified_at a"
  "acc_pending_email (patched p r a) = acc_pending_email a" "acc_beta_allowed (patched p r a) = acc_beta_allowed a"
  "acc_deleted_at (patched p r a) = acc_deleted_at a"
  by (simp_all add: patched_def)

lemma patched_idem [simp]: "patched p r (patched p r a) = patched p r a"
  by (simp add: patched_def sent_def split: option.split)

lemma change_account_idem:
  assumes "\<And>a. acc_id (f a) = acc_id a" and "\<And>a. f (f a) = f a"
  shows "change_account u f (change_account u f db) = change_account u f db"
  using assms by (simp add: change_account_def)

lemma reconcile_only_moves_day:
  "map_option (\<lambda>s. s\<lparr>last_active_local_date := None\<rparr>)
     (get_stats_row (reconcile_streak_for_timezone_change off now u tz tz' db) w) =
   map_option (\<lambda>s. s\<lparr>last_active_local_date := None\<rparr>) (get_stats_row db w)"
  by (cases rule: reconcile_cases [of off now u tz tz' db]) auto

lemma reconcile_day_reached:
  assumes "get_stats_row (reconcile_streak_for_timezone_change off now u tz tz' db) u = Some s"
    and "last_active_local_date s = Some l" and "tz' \<noteq> tz"
  shows "l \<le> local_date_for off tz' now"
  using assms by (auto simp: reconcile_streak_for_timezone_change_def Let_def split: option.splits if_splits)

lemma update_meE:
  assumes "update_me P now u p (sdb, idb) = Inr (a', sdb', idb')"
  obtains a r where "find_account u idb = Some a" and "a' = patched p r a"
    and "reminder_value P (case pp_reminder_local_time p of None \<Rightarrow> None | Some v \<Rightarrow> v) = Inr r"
    and "patch_streaks P now p a sdb = Inr sdb'" and "idb' = change_account u (patched p r) idb"
    and "pp_timezone p \<noteq> Some None" and "pp_level p \<noteq> Some None"
  using assms by (auto simp: update_me_def split: option.splits sum.splits if_splits)

lemma patch_streaks_again:
  assumes "patch_streaks P now p a sdb = Inr sdb'" and "pp_timezone p \<noteq> Some None"
  shows "patch_streaks P now p (patched p r a) sdb' = Inr sdb'"
  using assms
  by (auto simp: patch_streaks_def patched_def sent_def reconcile_streak_for_timezone_change_def split: option.splits)

lemma update_me_again:
  assumes "update_me P now u p (sdb, idb) = Inr (a', sdb', idb')"
  shows "update_me P now u p (sdb', idb') = Inr (a', sdb', idb')"
  using assms
proof (cases rule: update_meE)
  case (1 a r)
  have "find_account u idb' = Some (patched p r a)"
    using 1(1,5) find_account_change [of "patched p r" u u idb] by simp
  then show ?thesis
    using 1(2,3,5-7) patch_streaks_again [OF 1(4,6)] change_account_idem [of "patched p r" u idb]
    by (simp add: update_me_def)
qed


definition sample_profile_env :: profile_env where
  "sample_profile_env = \<lparr>pe_zone_off = (\<lambda>_ _. 0), pe_known_zone = (\<lambda>_. True), pe_parse_time = (\<lambda>_. None)\<rparr>"

definition level_patch :: profile_patch where
  "level_patch = \<lparr>pp_display_name = None, pp_timezone = None, pp_level = Some (Some ''senior''),
     pp_reminder_local_time = None\<rparr>"

definition sample_identities :: identity_db where
  "sample_identities = \<lparr>accounts = [new_account 7 ''ann'', new_account 8 ''bob''], identities = [],
     refresh_tokens = [], verification_tokens = [], beta_invites = []\<rparr>"


end
