(* ===== verification/Session_View.thy ===== *)
theory Session_View
  imports Attempts "HOL-Library.Char_ord" "HOL-Library.List_Lexorder"
begin

text \<open>
  What \<open>GET /session/today\<close> and its review put on the wire (\<open>sessions/service.py\<close> over
  \<open>schemas/session.py\<close>): the payload of an exercise copied field by field, the session with its teaser,
  and the review of the answers given. The pydantic models forbid extra fields and check the types;
  how an \<open>int\<close> field reads a JSON value is a parameter. The order of concept names is that of their
  characters, where the database uses its collation.
\<close>

section \<open>Payloads\<close>

text \<open>\<open>option["id"]\<close> of an entry that may be anything.\<close>

definition field_of :: "json \<Rightarrow> string \<Rightarrow> json result" where
  "field_of v k = (case v of JObj kvs \<Rightarrow> item kvs k | _ \<Rightarrow> Inl TypeError)"

text \<open>\<open>[{"id": o["id"], "text": o["text"]} for o in payload.get(k, [])]\<close>\<close>

fun copy_options :: "json list \<Rightarrow> (json \<times> json) list result" where
  "copy_options [] = Inr []"
| "copy_options (v # vs) =
     bind_result (field_of v ''id'') (\<lambda>i. bind_result (field_of v ''text'') (\<lambda>t.
       map_sum id (Cons (i, t)) (copy_options vs)))"

definition options_of :: "jobj \<Rightarrow> string \<Rightarrow> (json \<times> json) list result" where
  "options_of payload k = bind_result (list_of (get payload k (JArr []))) copy_options"

record payload_fields =
  pf_code :: json
  pf_context_note :: json
  pf_answer_mode :: json
  pf_reason_options :: "(json \<times> json) list option"
  pf_question :: json
  pf_choices :: "(json \<times> json) list option"
  pf_max_words :: json
  pf_failing_test :: json
  pf_test_output :: json

definition common_fields :: "jobj \<Rightarrow> payload_fields" where
  "common_fields payload =
     \<lparr>pf_code = get payload ''code'' JNull, pf_context_note = get payload ''context_note'' JNull,
      pf_answer_mode = JNull, pf_reason_options = None, pf_question = JNull, pf_choices = None,
      pf_max_words = JNull, pf_failing_test = JNull, pf_test_output = JNull\<rparr>"

definition serialize_fields :: "exercise \<Rightarrow> payload_fields result" where
  "serialize_fields ex =
     (let payload = ex_payload ex; f = common_fields payload in
      if ex_type ex = ''spot_the_bug'' then
        map_sum id (\<lambda>os. f\<lparr>pf_answer_mode := get payload ''answer_mode'' JNull, pf_reason_options := Some os\<rparr>)
          (options_of payload ''reason_options'')
      else if ex_type ex = ''trace'' then
        map_sum id (\<lambda>cs. f\<lparr>pf_question := get payload ''question'' JNull, pf_choices := Some cs\<rparr>)
          (options_of payload ''choices'')
      else if ex_type ex = ''predict_the_fix'' then
        map_sum id (\<lambda>cs. f\<lparr>pf_answer_mode := get payload ''answer_mode'' JNull,
             pf_question := get payload ''question'' JNull,
             pf_failing_test := get payload ''failing_test'' JNull,
             pf_test_output := get payload ''test_output'' JNull, pf_choices := Some cs\<rparr>)
          (options_of payload ''choices'')
      else if ex_type ex = ''summarize'' then
        Inr (f\<lparr>pf_max_words := get payload ''max_words'' JNull\<rparr>)
      else Inr f)"

definition document :: "json \<Rightarrow> string \<Rightarrow> json \<Rightarrow> string \<Rightarrow> jobj \<Rightarrow> json" where
  "document i role code language extra =
     JObj ([(''id'', i), (''role'', JStr role), (''code'', code), (''language'', JStr language)] @ extra)"

definition payload_documents :: "exercise \<Rightarrow> payload_fields \<Rightarrow> json list" where
  "payload_documents ex f =
     (case get (ex_payload ex) ''documents'' JNull of
        JArr (d # ds) \<Rightarrow> d # ds
      | _ \<Rightarrow>
          [document (JStr ''primary'') ''primary'' (if truthy (pf_code f) then pf_code f else JStr [])
             (ex_language ex) []] @
          (if truthy (pf_failing_test f)
           then [document (JStr ''failing_test'') ''failing_test'' (pf_failing_test f) (ex_language ex)
                   [(''label'', JStr ''Failing test'')]]
           else []) @
          (if ex_type ex = ''predict_the_fix''
           then map (\<lambda>(i, t). document i ''choice'' t (ex_language ex) [])
                  (case pf_choices f of None \<Rightarrow> [] | Some cs \<Rightarrow> cs)
           else []))"

section \<open>The models of the wire\<close>

definition validation_error :: exn where
  "validation_error = ValueError ''ValidationError''"

definition is_opt_str :: "json \<Rightarrow> bool" where
  "is_opt_str v \<longleftrightarrow> v = JNull \<or> is_str v"

definition document_ok :: "json \<Rightarrow> bool" where
  "document_ok v =
     (case v of
        JObj kvs \<Rightarrow>
          keys kvs \<subseteq> {''id'', ''role'', ''code'', ''language'', ''label''} \<and>
          (\<forall>k\<in>{''id'', ''role'', ''code'', ''language''}. is_str (get kvs k JNull)) \<and>
          get kvs ''role'' JNull \<in> {JStr ''primary'', JStr ''failing_test'', JStr ''choice''} \<and>
          is_opt_str (get kvs ''label'' JNull)
      | _ \<Rightarrow> False)"

definition options_ok :: "(json \<times> json) list option \<Rightarrow> bool" where
  "options_ok os = (case os of None \<Rightarrow> True | Some xs \<Rightarrow> \<forall>(i, t)\<in>set xs. is_str i \<and> is_str t)"

record payload_view =
  pv_fields :: payload_fields
  pv_documents :: "json list"

text \<open>\<open>to_int\<close>: what a field \<open>int\<close> makes of a JSON value, \<open>None\<close> when it refuses it.\<close>

definition payload_view_of :: "(json \<Rightarrow> int option) \<Rightarrow> payload_fields \<Rightarrow> json list \<Rightarrow> payload_view result" where
  "payload_view_of to_int f docs =
     (if is_str (pf_code f) \<and> is_str (pf_context_note f) \<and> is_opt_str (pf_answer_mode f) \<and>
         options_ok (pf_reason_options f) \<and> is_opt_str (pf_question f) \<and> options_ok (pf_choices f) \<and>
         (pf_max_words f = JNull \<or> to_int (pf_max_words f) \<noteq> None) \<and> is_opt_str (pf_failing_test f) \<and>
         is_opt_str (pf_test_output f) \<and> (\<forall>d\<in>set docs. document_ok d)
      then Inr \<lparr>pv_fields = f\<lparr>pf_max_words := (case to_int (pf_max_words f) of None \<Rightarrow> JNull | Some n \<Rightarrow> JInt n)\<rparr>,
                pv_documents = docs\<rparr>
      else Inl validation_error)"

definition serialize_payload :: "(json \<Rightarrow> int option) \<Rightarrow> exercise \<Rightarrow> payload_view result" where
  "serialize_payload to_int ex =
     bind_result (serialize_fields ex) (\<lambda>f. payload_view_of to_int f (payload_documents ex f))"

section \<open>The session\<close>

record session_exercise =
  sx_slot :: nat
  sx_exercise_id :: nat
  sx_version :: nat
  sx_type :: string
  sx_concepts :: "string list"
  sx_language :: string
  sx_difficulty_band :: string
  sx_est_time_s :: int
  sx_is_boss :: bool
  sx_attempted :: bool
  sx_payload :: payload_view

record tomorrow_teaser =
  tt_concept :: string
  tt_is_fallback :: bool

record session_response =
  sr_session_date :: date
  sr_completed :: bool
  sr_first_completed_session :: bool
  sr_exercises :: "session_exercise list"
  sr_tomorrow :: "tomorrow_teaser option"

definition session_types :: "string list" where
  "session_types = [''spot_the_bug'', ''trace'', ''summarize'', ''predict_the_fix'']"

definition session_exercise_of ::
    "(json \<Rightarrow> int option) \<Rightarrow> nat set \<Rightarrow> session_slot \<Rightarrow> exercise \<Rightarrow> session_exercise result" where
  "session_exercise_of to_int attempted s ex =
     bind_result (serialize_payload to_int ex) (\<lambda>p.
       if ex_type ex \<notin> set session_types then Inl validation_error
       else Inr \<lparr>sx_slot = slot s, sx_exercise_id = ex_id ex, sx_version = ex_version ex, sx_type = ex_type ex,
                 sx_concepts = ex_concepts ex, sx_language = ex_language ex,
                 sx_difficulty_band = difficulty_band (ex_difficulty_authored ex) (is_boss s),
                 sx_est_time_s = ex_est_time_s ex, sx_is_boss = is_boss s,
                 sx_attempted = (ex_id ex \<in> attempted), sx_payload = p\<rparr>)"

text \<open>A slot whose row is gone is left out.\<close>

fun serialize_slots ::
    "(session_slot \<Rightarrow> exercise \<Rightarrow> 'a result) \<Rightarrow> exercise list \<Rightarrow> session_slot list \<Rightarrow> 'a list result" where
  "serialize_slots f tbl [] = Inr []"
| "serialize_slots f tbl (s # ss) =
     (case find_exercise (slot_exercise_id s) (slot_version s) tbl of
        None \<Rightarrow> serialize_slots f tbl ss
      | Some ex \<Rightarrow>
          bind_result (f s ex) (\<lambda>x. map_sum id (Cons x) (serialize_slots f tbl ss)))"

definition attempted_ids :: "backend \<Rightarrow> uid \<Rightarrow> date \<Rightarrow> nat set" where
  "attempted_ids b u d =
     set (map att_exercise (filter (\<lambda>a. att_user a = u \<and> session_date a = d) (attempts_tbl b)))"

definition is_first_completed :: "backend \<Rightarrow> uid \<Rightarrow> bool" where
  "is_first_completed b u \<longleftrightarrow>
     completed_sessions b u = 1"

text \<open>\<open>ORDER BY mastery, next_review_at, concept LIMIT 1\<close>; a null comes last.\<close>

definition teaser_key :: "(uid \<times> string) \<times> concept_state \<Rightarrow> int \<times> bool \<times> int \<times> string" where
  "teaser_key row =
     (mastery (snd row), next_review_at (snd row) = None,
      (case next_review_at (snd row) of None \<Rightarrow> 0 | Some t \<Rightarrow> t), snd (fst row))"

definition weakest_concept :: "((uid \<times> string) \<times> concept_state) list \<Rightarrow> string option" where
  "weakest_concept rows =
     (case sort_key teaser_key rows of [] \<Rightarrow> None | row # _ \<Rightarrow> Some (snd (fst row)))"

definition review_between :: "instant \<Rightarrow> instant \<Rightarrow> concept_state \<Rightarrow> bool" where
  "review_between t1 t2 r =
     (case next_review_at r of None \<Rightarrow> False | Some t \<Rightarrow> t1 \<le> t \<and> t < t2)"

definition tomorrow_teaser_of :: "env \<Rightarrow> user \<Rightarrow> date \<Rightarrow> bool \<Rightarrow> backend \<Rightarrow> tomorrow_teaser option" where
  "tomorrow_teaser_of E usr today first_completed b =
     (let window_start = local_day_end_utc (wall_off E) (timezone usr) today;
          window_end = local_day_end_utc (wall_off E) (timezone usr) (today + 1);
          mine = filter (\<lambda>((v, c), r). v = user_id usr) (concept_states b)
      in case weakest_concept (filter (\<lambda>(_, r). review_between window_start window_end r) mine) of
           Some c \<Rightarrow> Some \<lparr>tt_concept = c, tt_is_fallback = False\<rparr>
         | None \<Rightarrow>
             if \<not> first_completed then None
             else map_option (\<lambda>c. \<lparr>tt_concept = c, tt_is_fallback = True\<rparr>) (weakest_concept mine))"

definition get_today_session ::
    "(json \<Rightarrow> int option) \<Rightarrow> env \<Rightarrow> instant \<Rightarrow> user \<Rightarrow> backend \<Rightarrow> (session_response \<times> backend) result" where
  "get_today_session to_int E now usr b =
     bind_result (get_today_slots E now usr b) (\<lambda>((today, slots), b').
       if slots = [] then
         Inr (\<lparr>sr_session_date = today, sr_completed = False, sr_first_completed_session = False,
               sr_exercises = [], sr_tomorrow = None\<rparr>, b')
       else
         (let attempted = attempted_ids b' (user_id usr) today in
          bind_result (serialize_slots (session_exercise_of to_int attempted) (exercises_tbl b') slots) (\<lambda>exs.
            let completed = (\<forall>s\<in>set slots. slot_exercise_id s \<in> attempted);
                first_completed = (completed \<and> is_first_completed b' (user_id usr))
            in Inr (\<lparr>sr_session_date = today, sr_completed = completed,
                     sr_first_completed_session = first_completed, sr_exercises = exs,
                     sr_tomorrow = (if completed then tomorrow_teaser_of E usr today first_completed b'
                                    else None)\<rparr>, b'))))"

section \<open>The review\<close>

record review_exercise =
  rx_slot :: nat
  rx_exercise_id :: nat
  rx_version :: nat
  rx_type :: string
  rx_concepts :: "string list"
  rx_code :: string
  rx_context_note :: string
  rx_answer :: jobj
  rx_verdict :: string
  rx_reveal :: "reveal option"

definition review_verdict :: "attempt \<Rightarrow> string" where
  "review_verdict a =
     (case att_status a of
        StGraded \<Rightarrow> if att_correct a = Some True then ''correct'' else ''incorrect''
      | StSkipped \<Rightarrow> ''skipped''
      | StPending \<Rightarrow> ''grading_pending''
      | StFailed \<Rightarrow> ''grading_failed'')"

definition review_reveal :: "exercise \<Rightarrow> attempt \<Rightarrow> reveal option result" where
  "review_reveal ex a =
     (if att_status a \<noteq> StGraded \<and> att_status a \<noteq> StSkipped then Inr None
      else if ex_type ex \<in> set deterministic_types then map_sum id Some (build_reveal ex)
      else Inr (Some (build_summarize_reveal ex)))"

text \<open>\<open>{a.exercise_id: a for a in rows}\<close>: the last row of an exercise wins.\<close>

definition attempt_by_exercise :: "backend \<Rightarrow> uid \<Rightarrow> date \<Rightarrow> nat \<Rightarrow> attempt option" where
  "attempt_by_exercise b u d i =
     find (\<lambda>a. att_user a = u \<and> session_date a = d \<and> att_exercise a = i) (rev (attempts_tbl b))"

definition review_exercise_of :: "session_slot \<Rightarrow> attempt \<Rightarrow> exercise \<Rightarrow> review_exercise result" where
  "review_exercise_of s a ex =
     (let code = get (ex_payload ex) ''code'' (JStr []);
          context_note = get (ex_payload ex) ''context_note'' (JStr [])
      in bind_result (review_reveal ex a) (\<lambda>rv.
           case (code, context_note) of
             (JStr c, JStr n) \<Rightarrow>
               if ex_type ex \<notin> set session_types then Inl validation_error
               else Inr \<lparr>rx_slot = slot s, rx_exercise_id = ex_id ex, rx_version = ex_version ex,
                         rx_type = ex_type ex, rx_concepts = ex_concepts ex, rx_code = c,
                         rx_context_note = n, rx_answer = att_answer a, rx_verdict = review_verdict a,
                         rx_reveal = rv\<rparr>
           | _ \<Rightarrow> Inl validation_error))"

definition get_today_review ::
    "env \<Rightarrow> instant \<Rightarrow> user \<Rightarrow> backend \<Rightarrow> ((date \<times> review_exercise list) \<times> backend) result" where
  "get_today_review E now usr b =
     bind_result (get_today_slots E now usr b) (\<lambda>((today, slots), b').
       let answered = attempt_by_exercise b' (user_id usr) today in
       bind_result (serialize_slots (\<lambda>s ex. review_exercise_of s (the (answered (slot_exercise_id s))) ex)
           (exercises_tbl b') (filter (\<lambda>s. answered (slot_exercise_id s) \<noteq> None) slots))
         (\<lambda>exs. Inr ((today, exs), b')))"

end
