(* ===== verification/Session_View_Props.thy ===== *)
theory Session_View_Props
  imports Session_View Submit_Props
begin

text \<open>
  What leaves with a session: nothing of the answer key, and the same exercises as the review.
\<close>

section \<open>What of an exercise may be shown\<close>

definition shown_keys :: "string set" where
  "shown_keys = {''code'', ''context_note'', ''answer_mode'', ''reason_options'', ''question'', ''choices'',
     ''max_words'', ''failing_test'', ''test_output'', ''documents''}"

definition public_option :: "json \<Rightarrow> json" where
  "public_option v = (case v of JObj kvs \<Rightarrow> JObj (filter (\<lambda>(k, _). k \<in> {''id'', ''text''}) kvs) | _ \<Rightarrow> v)"

definition public_value :: "string \<Rightarrow> json \<Rightarrow> json" where
  "public_value k v =
     (if k = ''reason_options'' \<or> k = ''choices''
      then (case v of JArr xs \<Rightarrow> JArr (map public_option xs) | _ \<Rightarrow> v) else v)"

definition public_payload :: "jobj \<Rightarrow> jobj" where
  "public_payload p = map (\<lambda>(k, v). (k, public_value k v)) (filter (\<lambda>(k, _). k \<in> shown_keys) p)"

text \<open>An exercise without its key, its explanation, its provenance and the tags of its options.\<close>

definition visible :: "exercise \<Rightarrow> exercise" where
  "visible ex = ex\<lparr>ex_payload := public_payload (ex_payload ex), ex_grading := [], ex_explanation := [],
     ex_source := [], ex_tags := [], validation_report_url := None\<rparr>"

lemma visible_simps [simp]:
  "ex_id (visible ex) = ex_id ex" "ex_version (visible ex) = ex_version ex" "ex_type (visible ex) = ex_type ex"
  "ex_language (visible ex) = ex_language ex" "ex_concepts (visible ex) = ex_concepts ex"
  "ex_difficulty_authored (visible ex) = ex_difficulty_authored ex"
  "ex_difficulty_empirical (visible ex) = ex_difficulty_empirical ex"
  "ex_est_time_s (visible ex) = ex_est_time_s ex" "ex_status (visible ex) = ex_status ex"
  "ex_payload (visible ex) = public_payload (ex_payload ex)"
  by (simp_all add: visible_def)

lemma map_of_filter_key: "map_of (filter (\<lambda>(k, _). k \<in> S) xs) k = (if k \<in> S then map_of xs k else None)"
  by (induction xs) auto

lemma map_of_map_value: "map_of (map (\<lambda>(k, v). (k, f k v)) xs) k = map_option (f k) (map_of xs k)"
  by (induction xs) auto

lemma get_public:
  assumes "k \<in> shown_keys" and "public_value k d = d"
  shows "get (public_payload p) k d = public_value k (get p k d)"
  using assms by (simp add: get_def public_payload_def map_of_map_value map_of_filter_key split: option.split)

lemma public_value_simps [simp]:
  "public_value k JNull = JNull" "public_value k (JArr []) = JArr []"
  "k \<noteq> ''reason_options'' \<Longrightarrow> k \<noteq> ''choices'' \<Longrightarrow> public_value k v = v"
  by (simp_all add: public_value_def)

lemma item_filter: "k \<in> S \<Longrightarrow> item (filter (\<lambda>(k, _). k \<in> S) kvs) k = item kvs k"
  by (simp add: item_def map_of_filter_key)

lemma field_of_public [simp]:
  assumes "k \<in> {''id'', ''text''}"
  shows "field_of (public_option v) k = field_of v k"
proof (cases v)
  case (JObj kvs)
  show ?thesis unfolding JObj public_option_def field_of_def json.case by (rule item_filter [OF assms])
qed (simp_all add: field_of_def public_option_def)

lemma copy_options_public [simp]: "copy_options (map public_option xs) = copy_options xs"
  by (induction xs) simp_all

lemma options_of_public [simp]:
  assumes "k = ''reason_options'' \<or> k = ''choices''"
  shows "options_of (public_payload p) k = options_of p k"
proof -
  have "get (public_payload p) k (JArr []) = public_value k (get p k (JArr []))"
    using assms by (intro get_public) (auto simp: shown_keys_def)
  then show ?thesis using assms
    by (auto simp: options_of_def public_value_def list_of_def bind_result_def split: json.split)
qed

lemma get_public_plain [simp]:
  "k \<in> {''code'', ''context_note'', ''answer_mode'', ''question'', ''max_words'', ''failing_test'',
     ''test_output'', ''documents''} \<Longrightarrow> get (public_payload p) k JNull = get p k JNull"
  by (subst get_public) (auto simp: shown_keys_def)

lemma serialize_visible [simp]: "serialize_payload to_int (visible ex) = serialize_payload to_int ex"
proof -
  have "serialize_fields (visible ex) = serialize_fields ex"
    by (simp add: serialize_fields_def common_fields_def Let_def)
  moreover have "payload_documents (visible ex) f = payload_documents ex f" for f
    unfolding payload_documents_def visible_simps by (subst get_public_plain) simp_all
  ultimately show ?thesis by (simp add: serialize_payload_def)
qed

lemma session_exercise_visible [simp]:
  "session_exercise_of to_int attempted s (visible ex) = session_exercise_of to_int attempted s ex"
  by (simp add: session_exercise_of_def cong: if_cong)

lemma find_visible: "find_exercise i v (map visible tbl) = map_option visible (find_exercise i v tbl)"
  by (induction tbl) (auto simp: find_exercise_def)

lemma slots_visible:
  "serialize_slots (session_exercise_of to_int attempted) (map visible tbl) ss =
   serialize_slots (session_exercise_of to_int attempted) tbl ss"
  by (induction ss) (simp_all add: find_visible split: option.split)

lemma live_rows_visible: "live_rows (b\<lparr>exercises_tbl := map visible (exercises_tbl b)\<rparr>) = live_rows b"
proof -
  have "exercises_current (map visible tbl) = map visible (exercises_current tbl)" for tbl
    by (simp add: exercises_current_def filter_map o_def)
  then show ?thesis by (simp add: live_rows_def)
qed

section \<open>The table of exercises under a read of the session\<close>

lemma live_rows_delete [simp]: "live_rows (delete_session_row u d b) = live_rows b"
  by (simp add: live_rows_def delete_session_row_def)

lemma sample_slots_tbl:
  assumes "live_rows (b\<lparr>exercises_tbl := t\<rparr>) = live_rows b"
  shows "sample_session_slots E now usr today (b\<lparr>exercises_tbl := t\<rparr>) = sample_session_slots E now usr today b"
  using assms
  by (simp add: sample_session_slots_def candidate_types_def due_concepts_def concept_mastery_def [abs_def]
      recently_seen_ids_def cong: if_cong)

lemma build_persist_tbl:
  assumes "live_rows (b\<lparr>exercises_tbl := t\<rparr>) = live_rows b"
  shows "build_and_persist_session E now usr today (b\<lparr>exercises_tbl := t\<rparr>) =
     map_sum id (map_prod id (\<lambda>b'. b'\<lparr>exercises_tbl := t\<rparr>)) (build_and_persist_session E now usr today b)"
  using sample_slots_tbl [OF assms]
  by (simp add: build_and_persist_session_def put_session_row_def split: option.split sum.split list.split)

lemma delete_row_tbl: "delete_session_row u d (b\<lparr>exercises_tbl := t\<rparr>) = (delete_session_row u d b)\<lparr>exercises_tbl := t\<rparr>"
  by (simp add: delete_session_row_def)

lemma get_today_tbl:
  assumes "live_rows (b\<lparr>exercises_tbl := t\<rparr>) = live_rows b"
  shows "get_today_slots E now usr (b\<lparr>exercises_tbl := t\<rparr>) =
     map_sum id (map_prod id (\<lambda>b'. b'\<lparr>exercises_tbl := t\<rparr>)) (get_today_slots E now usr b)"
proof -
  have build: "build_and_cache E now usr today f (c\<lparr>exercises_tbl := t\<rparr>) =
      map_sum id (map_prod id (\<lambda>b'. b'\<lparr>exercises_tbl := t\<rparr>)) (build_and_cache E now usr today g c)"
    if "live_rows (c\<lparr>exercises_tbl := t\<rparr>) = live_rows c" and "\<And>b'. f (b'\<lparr>exercises_tbl := t\<rparr>) = (g b')\<lparr>exercises_tbl := t\<rparr>"
    for c f g today
    using that build_persist_tbl [OF that(1)]
    by (auto simp: build_and_cache_def cache_slots_def split: sum.split)
  have "live_rows ((delete_session_row u d b)\<lparr>exercises_tbl := t\<rparr>) = live_rows (delete_session_row u d b)" for u d
    using assms by (simp add: live_rows_def delete_session_row_def)
  then show ?thesis
    unfolding get_today_slots_def Let_def delete_row_tbl
    using build assms by (auto simp: cache_slots_def delete_row_tbl id_def split: option.split)
qed

lemma get_today_exercises:
  assumes "get_today_slots E now usr b = Inr (r, b')"
  shows "exercises_tbl b' = exercises_tbl b" and "attempts_tbl b' = attempts_tbl b"
  using assms
  by (auto simp: get_today_slots_def build_and_cache_def build_and_persist_session_def cache_slots_def
      put_session_row_def delete_session_row_def Let_def
      split: option.splits if_splits sum.splits prod.splits list.splits)

section \<open>Nothing of the key\<close>

lemma session_view_tbl [simp]:
  "attempted_ids (b\<lparr>exercises_tbl := t\<rparr>) u d = attempted_ids b u d"
  "is_first_completed (b\<lparr>exercises_tbl := t\<rparr>) u = is_first_completed b u"
  "tomorrow_teaser_of E usr today fc (b\<lparr>exercises_tbl := t\<rparr>) = tomorrow_teaser_of E usr today fc b"
  by (simp_all add: attempted_ids_def is_first_completed_def completed_sessions_def tomorrow_teaser_of_def)

lemma today_session_visible:
  "map_sum id fst (get_today_session to_int E now usr (b\<lparr>exercises_tbl := map visible (exercises_tbl b)\<rparr>)) =
   map_sum id fst (get_today_session to_int E now usr b)"
proof (cases "get_today_slots E now usr b")
  case (Inl e)
  then show ?thesis by (simp add: get_today_session_def get_today_tbl [OF live_rows_visible] bind_result_def)
next
  case (Inr p)
  obtain today slots b' where p: "p = ((today, slots), b')" by (metis prod.collapse)
  have "exercises_tbl b' = exercises_tbl b" using get_today_exercises [OF Inr [unfolded p]] by simp
  then show ?thesis
    using Inr slots_visible
    by (auto simp: get_today_session_def get_today_tbl [OF live_rows_visible] bind_result_def p Let_def
        split: sum.split)
qed

text \<open>
  C7: The key does not leave with the session. What \<open>GET /session/today\<close> answers, the first time of the
  day when it builds the session included, is the same for two backends whose exercises differ only in
  their grading, explanation, source, tags and report, in payload fields that are not served, and in what
  an option of a payload holds beside its id and text, such as the misconception that would give a
  distractor away.
\<close>

theorem served_session_hides_the_key:
  assumes "map visible tbl1 = map visible tbl2"
  shows "map_sum id fst (get_today_session to_int E now usr (b\<lparr>exercises_tbl := tbl1\<rparr>)) =
    map_sum id fst (get_today_session to_int E now usr (b\<lparr>exercises_tbl := tbl2\<rparr>))"
  using today_session_visible [of to_int E now usr "b\<lparr>exercises_tbl := tbl1\<rparr>"]
    today_session_visible [of to_int E now usr "b\<lparr>exercises_tbl := tbl2\<rparr>"] assms
  by simp

definition quiz :: exercise where
  "quiz = sample_exercise\<lparr>ex_payload := [(''code'', JStr ''x = 1''), (''context_note'', JStr ''n''),
     (''question'', JStr ''?''), (''choices'', JArr [JObj [(''id'', JStr ''a''), (''text'', JStr ''1'')],
       JObj [(''id'', JStr ''b''), (''text'', JStr ''2''), (''misconception'', JStr ''off'')]])]\<rparr>"

definition other_quiz :: exercise where
  "other_quiz = quiz\<lparr>ex_grading := [(''correct_choice_id'', JStr ''b'')], ex_explanation := [],
     ex_payload := [(''code'', JStr ''x = 1''), (''context_note'', JStr ''n''), (''question'', JStr ''?''),
       (''choices'', JArr [JObj [(''id'', JStr ''a''), (''text'', JStr ''1''), (''misconception'', JStr ''off'')],
       JObj [(''id'', JStr ''b''), (''text'', JStr ''2'')]])]\<rparr>"

definition quiz_backend :: backend where
  "quiz_backend = sample_after\<lparr>exercises_tbl := [quiz, quiz\<lparr>ex_id := 2\<rparr>]\<rparr>"

lemma served_session_hides_the_key_witness:
  "map_sum id fst (get_today_session (\<lambda>_. None) sample_env 0 sample_user (sample_backend\<lparr>exercises_tbl := [quiz, quiz\<lparr>ex_id := 2\<rparr>]\<rparr>)) =
   map_sum id fst (get_today_session (\<lambda>_. None) sample_env 0 sample_user
     (sample_backend\<lparr>exercises_tbl := [other_quiz, quiz\<lparr>ex_id := 2\<rparr>]\<rparr>))"
proof (rule served_session_hides_the_key)
  show "map visible [quiz, quiz\<lparr>ex_id := 2\<rparr>] = map visible [other_quiz, quiz\<lparr>ex_id := 2\<rparr>]"
    by (simp add: visible_def quiz_def other_quiz_def public_payload_def shown_keys_def public_value_def
        public_option_def)
qed

section \<open>The session and its review\<close>

lemma map_sum_Inr_iff [simp]: "map_sum f g r = Inr y \<longleftrightarrow> (\<exists>x. r = Inr x \<and> y = g x)"
  by (cases r) auto

lemma serialize_slots_rows:
  "serialize_slots f tbl ss = Inr xs \<Longrightarrow>
   list_all2 (\<lambda>(s, ex) x. f s ex = Inr x)
     (List.map_filter (\<lambda>s. map_option (Pair s) (find_exercise (slot_exercise_id s) (slot_version s) tbl)) ss) xs"
  by (induction ss arbitrary: xs) (auto simp: bind_result_def List.map_filter_simps split: option.splits sum.splits)

lemma slot_rows_ids:
  "(s, ex) \<in> set (List.map_filter (\<lambda>s. map_option (Pair s) (find_exercise (slot_exercise_id s) (slot_version s) tbl)) ss) \<Longrightarrow>
   s \<in> set ss \<and> ex_id ex = slot_exercise_id s"
  by (induction ss) (auto simp: List.map_filter_simps dest: find_exercise_key split: option.splits)

lemma map_filter_filter: "List.map_filter f (filter P ss) = List.map_filter (\<lambda>s. if P s then f s else None) ss"
  by (induction ss) (simp_all add: List.map_filter_simps split: option.split)

lemma list_all2_map_eq:
  "list_all2 R xs ys \<Longrightarrow> (\<And>x y. x \<in> set xs \<Longrightarrow> R x y \<Longrightarrow> f x = g y) \<Longrightarrow> map f xs = map g ys"
  by (induction rule: list_all2_induct) auto

lemma session_exercise_idD:
  "session_exercise_of to_int A s ex = Inr x \<Longrightarrow>
   sx_exercise_id x = ex_id ex \<and> sx_attempted x = (ex_id ex \<in> A)"
  by (auto simp: session_exercise_of_def bind_result_def split: sum.splits if_splits)

lemma review_exerciseD:
  "review_exercise_of s a ex = Inr x \<Longrightarrow>
   rx_exercise_id x = ex_id ex \<and> rx_answer x = att_answer a \<and> rx_verdict x = review_verdict a \<and>
   (rx_reveal x \<noteq> None \<longleftrightarrow> att_status a = StGraded \<or> att_status a = StSkipped)"
  by (auto simp: review_exercise_of_def review_reveal_def bind_result_def Let_def
      split: sum.splits if_splits json.splits)

lemma attempt_by_exerciseD:
  "attempt_by_exercise b u d i = Some a \<Longrightarrow>
   a \<in> set (attempts_tbl b) \<and> att_user a = u \<and> session_date a = d \<and> att_exercise a = i"
  unfolding attempt_by_exercise_def by (drule find_SomeD) auto

lemma attempt_by_exercise_iff: "attempt_by_exercise b u d i \<noteq> None \<longleftrightarrow> i \<in> attempted_ids b u d"
  by (auto simp: attempt_by_exercise_def attempted_ids_def find_None_iff simp flip: not_None_eq)

lemma session_all_attempted:
  assumes "serialize_slots (session_exercise_of to_int A) tbl slots = Inr xs"
    and "\<forall>s\<in>set slots. slot_exercise_id s \<in> A"
  shows "\<forall>x\<in>set xs. sx_attempted x"
  using assms
proof (induction slots arbitrary: xs)
  case (Cons s ss)
  show ?case
  proof (cases "find_exercise (slot_exercise_id s) (slot_version s) tbl")
    case (Some ex)
    then obtain x xs' where x: "session_exercise_of to_int A s ex = Inr x" "xs = x # xs'"
      "serialize_slots (session_exercise_of to_int A) tbl ss = Inr xs'"
      using Cons.prems(1) by (auto simp: bind_result_def split: sum.splits)
    have "sx_attempted x"
      using session_exercise_idD [OF x(1)] find_exercise_key [OF Some] Cons.prems(2) by simp
    then show ?thesis using Cons.IH [OF x(3)] Cons.prems(2) x(2) by simp
  qed (use Cons in simp)
qed simp

lemma session_pairs:
  assumes "serialize_slots (session_exercise_of to_int A) tbl slots = Inr xs"
    and "serialize_slots (\<lambda>s ex. review_exercise_of s (the (ans (slot_exercise_id s))) ex) tbl
           (filter (\<lambda>s. ans (slot_exercise_id s) \<noteq> None) slots) = Inr ys"
    and "\<And>i. ans i \<noteq> None \<longleftrightarrow> i \<in> A"
  shows "map rx_exercise_id ys = map sx_exercise_id (filter sx_attempted xs) \<and>
    (\<forall>y\<in>set ys. \<exists>a. ans (rx_exercise_id y) = Some a \<and> rx_answer y = att_answer a \<and>
       rx_verdict y = review_verdict a \<and> (rx_reveal y \<noteq> None \<longleftrightarrow> att_status a = StGraded \<or> att_status a = StSkipped))"
  using assms(1,2)
proof (induction slots arbitrary: xs ys)
  case Nil
  then show ?case by simp
next
  case (Cons s ss)
  show ?case
  proof (cases "find_exercise (slot_exercise_id s) (slot_version s) tbl")
    case None
    then show ?thesis using Cons by (cases "ans (slot_exercise_id s)") simp_all
  next
    case (Some ex)
    then have id: "ex_id ex = slot_exercise_id s" by (simp add: find_exercise_key)
    obtain x xs' where x: "session_exercise_of to_int A s ex = Inr x" "xs = x # xs'"
      "serialize_slots (session_exercise_of to_int A) tbl ss = Inr xs'"
      using Cons.prems(1) Some by (auto simp: bind_result_def split: sum.splits)
    note xd = session_exercise_idD [OF x(1)]
    show ?thesis
    proof (cases "ans (slot_exercise_id s)")
      case None
      then have "slot_exercise_id s \<notin> A" using assms(3) [of "slot_exercise_id s"] by simp
      then show ?thesis using Cons.IH [OF x(3)] Cons.prems(2) None x(2) xd id by simp
    next
      case ans: (Some a)
      obtain y ys' where y: "review_exercise_of s a ex = Inr y" "ys = y # ys'"
        "serialize_slots (\<lambda>s ex. review_exercise_of s (the (ans (slot_exercise_id s))) ex) tbl
           (filter (\<lambda>s. ans (slot_exercise_id s) \<noteq> None) ss) = Inr ys'"
        using Cons.prems(2) Some ans by (auto simp: bind_result_def split: sum.splits)
      have "slot_exercise_id s \<in> A" using ans assms(3) [of "slot_exercise_id s"] by simp
      then show ?thesis using Cons.IH [OF x(3) y(3)] review_exerciseD [OF y(1)] x(2) y(2) xd id ans by simp
    qed
  qed
qed

text \<open>
  C8: The review shows the answers given and nothing more. In one state, the review lists exactly the
  exercises the session marks as attempted, in the same order, each with the answer and the verdict of an
  attempt of this user on this day; it reveals the key of an exercise exactly when that attempt is settled,
  graded or skipped; and a session is completed only when every exercise it shows is attempted.
\<close>

theorem review_agrees_with_session:
  assumes "get_today_session to_int E now usr b = Inr (r, b1)"
    and "get_today_review E now usr b = Inr ((d, xs), b2)"
  shows "d = sr_session_date r \<and> b1 = b2 \<and>
    map rx_exercise_id xs = map sx_exercise_id (filter sx_attempted (sr_exercises r)) \<and>
    (sr_completed r \<longrightarrow> (\<forall>x\<in>set (sr_exercises r). sx_attempted x)) \<and>
    (\<forall>x\<in>set xs. \<exists>a\<in>set (attempts_tbl b). att_user a = user_id usr \<and> session_date a = d \<and>
       att_exercise a = rx_exercise_id x \<and> rx_answer x = att_answer a \<and> rx_verdict x = review_verdict a \<and>
       (rx_reveal x \<noteq> None \<longleftrightarrow> att_status a = StGraded \<or> att_status a = StSkipped))"
proof -
  obtain today slots b' where t: "get_today_slots E now usr b = Inr ((today, slots), b')"
    using assms(1) by (auto simp: get_today_session_def bind_result_def split: sum.splits)
  note same = get_today_exercises [OF t]
  let ?ans = "attempt_by_exercise b' (user_id usr) today" and ?A = "attempted_ids b' (user_id usr) today"
  have rev: "serialize_slots (\<lambda>s ex. review_exercise_of s (the (?ans (slot_exercise_id s))) ex) (exercises_tbl b')
      (filter (\<lambda>s. ?ans (slot_exercise_id s) \<noteq> None) slots) = Inr xs" and d: "d = today" "b2 = b'"
    using assms(2) t by (auto simp: get_today_review_def bind_result_def Let_def split: sum.splits)
  show ?thesis
  proof (cases "slots = []")
    case True
    then show ?thesis using assms(1) t rev d by (auto simp: get_today_session_def bind_result_def)
  next
    case False
    then have ses: "serialize_slots (session_exercise_of to_int ?A) (exercises_tbl b') slots = Inr (sr_exercises r)"
      and r: "sr_session_date r = today" "b1 = b'" "sr_completed r \<longleftrightarrow> (\<forall>s\<in>set slots. slot_exercise_id s \<in> ?A)"
      using assms(1) t by (auto simp: get_today_session_def bind_result_def Let_def split: sum.splits)
    have "sr_completed r \<longrightarrow> (\<forall>x\<in>set (sr_exercises r). sx_attempted x)"
      using session_all_attempted [OF ses] r(3) by blast
    moreover have "\<exists>a\<in>set (attempts_tbl b). att_user a = user_id usr \<and> session_date a = d \<and>
        att_exercise a = rx_exercise_id x \<and> rx_answer x = att_answer a \<and> rx_verdict x = review_verdict a \<and>
        (rx_reveal x \<noteq> None \<longleftrightarrow> att_status a = StGraded \<or> att_status a = StSkipped)" if "x \<in> set xs" for x
      using session_pairs [OF ses rev attempt_by_exercise_iff] that attempt_by_exerciseD same(2) d(1) by fastforce
    ultimately show ?thesis
      using session_pairs [OF ses rev attempt_by_exercise_iff] r(1,2) d by blast
  qed
qed

lemma quiz_session:
  "map_sum id (\<lambda>(r, _). map sx_attempted (sr_exercises r))
     (get_today_session (\<lambda>_. None) sample_env 0 sample_user quiz_backend) = Inr [True, False]"
  by code_simp

lemma quiz_review:
  "map_sum id (\<lambda>((_, xs), _). map rx_verdict xs) (get_today_review sample_env 0 sample_user quiz_backend) =
     Inr [''correct'']"
  by code_simp

lemma review_agrees_with_session_witness:
  "\<exists>r b1 d xs b2. get_today_session (\<lambda>_. None) sample_env 0 sample_user quiz_backend = Inr (r, b1) \<and>
     get_today_review sample_env 0 sample_user quiz_backend = Inr ((d, xs), b2) \<and> length xs = 1 \<and>
     map rx_exercise_id xs = map sx_exercise_id (filter sx_attempted (sr_exercises r))"
proof -
  obtain r b1 where r: "get_today_session (\<lambda>_. None) sample_env 0 sample_user quiz_backend = Inr (r, b1)"
    using quiz_session by (auto split: prod.splits)
  obtain d xs b2 where x: "get_today_review sample_env 0 sample_user quiz_backend = Inr ((d, xs), b2)"
      "map rx_verdict xs = [''correct'']"
    using quiz_review by (auto split: prod.splits)
  from x(2) have "length xs = 1" by (metis length_map length_Cons list.size(3) One_nat_def)
  then show ?thesis using review_agrees_with_session [OF r x(1)] r x(1) by blast
qed

end
