(* ===== verification/App.thy ===== *)
theory App
  imports Auth Store
begin

text \<open>
  How a request travels through the application (\<open>backend/app/main.py\<close>, \<open>core/errors.py\<close>): the
  middlewares as functions on handlers, in the order Starlette nests them, the exception handlers, the
  default rate limit and the health probe. The routes and the CORS middleware are parameters. What the
  middlewares share is the request's state, held in \<open>world\<close> beside the Redis store.
\<close>

section \<open>Requests, responses, failures\<close>

record http_request =
  hq_method :: string
  hq_path :: string
  hq_headers :: "(string \<times> string) list"
  hq_peer :: "string option"

record http_response =
  rs_status :: nat
  rs_headers :: "(string \<times> string) list"
  rs_body :: json

text \<open>What a handler raises: an \<open>ApiError\<close> with its message and headers, a validation error, or anything else.\<close>

datatype failure =
    Api nat string string "(string \<times> string) list"
  | Invalid
  | Crash exn

record world =
  wd_store :: rstore
  wd_request_id :: "string option"
  wd_uuids :: nat

type_synonym handler = "http_request \<Rightarrow> world \<Rightarrow> (failure + http_response) \<times> world"
type_synonym middleware = "handler \<Rightarrow> handler"

record app_env =
  ae_tokens :: token_env
  ae_secrets :: "string list"
  ae_now :: instant
  ae_uuid :: "nat \<Rightarrow> nat"
  ae_redis_up :: bool
  ae_production :: bool
  ae_default_limit :: int
  ae_proxies :: int

text \<open>Header names are compared without regard to case; \<open>headers[k] = v\<close> keeps the place of an old value.\<close>

definition same_name :: "string \<Rightarrow> string \<times> string \<Rightarrow> bool" where
  "same_name k p \<longleftrightarrow> lower (fst p) = lower k"

definition header :: "string \<Rightarrow> (string \<times> string) list \<Rightarrow> string option" where
  "header k hs = map_option snd (find (same_name k) hs)"

fun set_header :: "string \<Rightarrow> string \<Rightarrow> (string \<times> string) list \<Rightarrow> (string \<times> string) list" where
  "set_header k v [] = [(k, v)]"
| "set_header k v (p # hs) =
     (if same_name k p then (fst p, v) # filter (\<lambda>q. \<not> same_name k q) hs else p # set_header k v hs)"

definition default_header :: "string \<times> string \<Rightarrow> (string \<times> string) list \<Rightarrow> (string \<times> string) list" where
  "default_header p hs = (if header (fst p) hs = None then hs @ [p] else hs)"

definition with_header :: "string \<Rightarrow> string \<Rightarrow> http_response \<Rightarrow> http_response" where
  "with_header k v r = r\<lparr>rs_headers := set_header k v (rs_headers r)\<rparr>"

definition with_defaults :: "(string \<times> string) list \<Rightarrow> http_response \<Rightarrow> http_response" where
  "with_defaults ps r = r\<lparr>rs_headers := fold default_header ps (rs_headers r)\<rparr>"

section \<open>Request ids and error bodies\<close>

definition fresh_request_id :: "app_env \<Rightarrow> world \<Rightarrow> string \<times> world" where
  "fresh_request_id E w = (''req_'' @ take 12 (hex_text 32 (ae_uuid E (wd_uuids w))), w\<lparr>wd_uuids := Suc (wd_uuids w)\<rparr>)"

definition request_id :: "app_env \<Rightarrow> world \<Rightarrow> string \<times> world" where
  "request_id E w =
     (case wd_request_id w of
        Some v \<Rightarrow> if v \<noteq> [] then (v, w) else fresh_request_id E w
      | None \<Rightarrow> fresh_request_id E w)"

definition error_body :: "string \<Rightarrow> string \<Rightarrow> string \<Rightarrow> json" where
  "error_body code_name message rid =
     JObj [(''error'', JObj [(''code'', JStr code_name), (''message'', JStr message), (''request_id'', JStr rid)])]"

definition api_error_handler ::
    "app_env \<Rightarrow> nat \<Rightarrow> string \<Rightarrow> string \<Rightarrow> (string \<times> string) list \<Rightarrow> world \<Rightarrow> http_response \<times> world" where
  "api_error_handler E status c m hs w =
     (case request_id E w of (rid, w') \<Rightarrow> (\<lparr>rs_status = status, rs_headers = hs, rs_body = error_body c m rid\<rparr>, w'))"

definition validation_error_handler :: "app_env \<Rightarrow> world \<Rightarrow> http_response \<times> world" where
  "validation_error_handler E w =
     (case request_id E w of
        (rid, w') \<Rightarrow>
          (\<lparr>rs_status = 400, rs_headers = [],
            rs_body = error_body ''validation_error'' ''Request validation failed.'' rid\<rparr>, w'))"

text \<open>
  \<open>_SAFE_REQUEST_ID.match\<close>: one to 64 letters, digits, underscores or hyphens; the \<open>$\<close> also matches
  before a final line feed.
\<close>

definition id_char :: "char \<Rightarrow> bool" where
  "id_char c \<longleftrightarrow> is_alnum c \<or> c = CHR ''_'' \<or> c = CHR ''-''"

definition safe_id :: "string \<Rightarrow> bool" where
  "safe_id s \<longleftrightarrow> s \<noteq> [] \<and> length s \<le> 64 \<and> (\<forall>c\<in>set s. id_char c)"

definition safe_request_id :: "string \<Rightarrow> bool" where
  "safe_request_id s \<longleftrightarrow> safe_id s \<or> (s \<noteq> [] \<and> last s = char_of (10 :: nat) \<and> safe_id (butlast s))"

definition resolve_request_id :: "app_env \<Rightarrow> http_request \<Rightarrow> world \<Rightarrow> string \<times> world" where
  "resolve_request_id E rq w =
     (case header ''X-Request-ID'' (hq_headers rq) of
        Some s \<Rightarrow> if s \<noteq> [] \<and> safe_request_id s then (s, w) else fresh_request_id E w
      | None \<Rightarrow> fresh_request_id E w)"

section \<open>The security headers and the one 500\<close>

definition security_header_values :: "(string \<times> string) list" where
  "security_header_values =
     [(''X-Content-Type-Options'', ''nosniff''),
      (''X-Frame-Options'', ''DENY''),
      (''Referrer-Policy'', ''strict-origin-when-cross-origin''),
      (''Content-Security-Policy'', ''default-src '' @ [CHR 0x27] @ ''none'' @ [CHR 0x27] @ ''; frame-ancestors '' @ [CHR 0x27] @ ''none'' @ [CHR 0x27])]"

definition hsts_header :: "string \<times> string" where
  "hsts_header = (''Strict-Transport-Security'', ''max-age=63072000; includeSubDomains; preload'')"

definition secured :: "app_env \<Rightarrow> http_response \<Rightarrow> http_response" where
  "secured E r =
     with_defaults (security_header_values @ (if ae_production E then [hsts_header] else [])) r"

definition unhandled_response :: "app_env \<Rightarrow> world \<Rightarrow> http_response \<times> world" where
  "unhandled_response E w =
     (case request_id E w of
        (rid, w') \<Rightarrow>
          (secured E (with_header ''X-Request-ID'' rid
             \<lparr>rs_status = 500, rs_headers = [], rs_body = error_body ''internal'' ''Something went wrong.'' rid\<rparr>), w'))"

section \<open>The middlewares\<close>

definition catch_unhandled :: "app_env \<Rightarrow> middleware" where
  "catch_unhandled E next_call rq w =
     (case next_call rq w of
        (Inr r, w') \<Rightarrow> (Inr r, w')
      | (Inl _, w') \<Rightarrow> map_prod Inr id (unhandled_response E w'))"

definition add_request_id :: "app_env \<Rightarrow> middleware" where
  "add_request_id E next_call rq w =
     (case resolve_request_id E rq w of
        (rid, w1) \<Rightarrow>
          (case next_call rq (w1\<lparr>wd_request_id := Some rid\<rparr>) of
             (Inl e, w2) \<Rightarrow> (Inl e, w2)
           | (Inr r, w2) \<Rightarrow>
               (Inr (with_header ''X-Request-ID'' (case wd_request_id w2 of Some v \<Rightarrow> v | None \<Rightarrow> rid) r), w2)))"

definition security_headers :: "app_env \<Rightarrow> middleware" where
  "security_headers E next_call rq w = map_prod (map_sum id (secured E)) id (next_call rq w)"

definition rate_headers :: "rate_limit_result \<Rightarrow> (string \<times> string) list" where
  "rate_headers rl =
     [(''X-RateLimit-Limit'', int_str (rl_limit rl)), (''X-RateLimit-Remaining'', int_str (rl_remaining rl))] @
     (if rl_allowed rl then [] else [(''Retry-After'', int_str (rl_retry_after rl))])"

definition starts :: "string \<Rightarrow> string \<Rightarrow> bool" where
  "starts p s \<longleftrightarrow> take (length p) s = p"

definition needs_default_rate_limit :: "http_request \<Rightarrow> bool" where
  "needs_default_rate_limit rq \<longleftrightarrow>
     hq_method rq \<noteq> ''OPTIONS'' \<and> hq_path rq \<noteq> ''/healthz'' \<and>
     \<not> starts ''/v1/auth'' (hq_path rq) \<and> \<not> starts ''/v1/debug'' (hq_path rq)"

datatype identity = User uid | Ip string

definition identity_str :: "identity \<Rightarrow> string" where
  "identity_str i = (case i of User u \<Rightarrow> ''user:'' @ uuid_str u | Ip a \<Rightarrow> ''ip:'' @ a)"

definition bearer_token :: "http_request \<Rightarrow> string option" where
  "bearer_token rq =
     (case partition_at (CHR '' '') (case header ''Authorization'' (hq_headers rq) of None \<Rightarrow> [] | Some a \<Rightarrow> a) of
        (scheme, _, token) \<Rightarrow> if lower scheme = ''bearer'' \<and> token \<noteq> [] then Some token else None)"

text \<open>Only a \<open>TokenError\<close> is caught; in the model those are the errors of status 401.\<close>

definition is_token_error :: "exn \<Rightarrow> bool" where
  "is_token_error e \<longleftrightarrow> e = token_error \<or> e = token_expired"

definition rate_limit_identity :: "app_env \<Rightarrow> http_request \<Rightarrow> identity result" where
  "rate_limit_identity E rq =
     (let ip = Ip (resolve_client_ip (hq_peer rq) (header ''x-forwarded-for'' (hq_headers rq)) (ae_proxies E)) in
      case bearer_token rq of
        None \<Rightarrow> Inr ip
      | Some token \<Rightarrow>
          (case verify_access_token (ae_tokens E) token (ae_secrets E) (ae_now E) of
             Inr c \<Rightarrow> Inr (User (ac_sub c))
           | Inl e \<Rightarrow> if is_token_error e then Inr ip else Inl e))"

definition default_bucket :: "identity \<Rightarrow> rkey" where
  "default_bucket i = BucketKey (''default:'' @ identity_str i)"

definition deferred :: "http_request \<Rightarrow> identity \<Rightarrow> bool" where
  "deferred rq i \<longleftrightarrow>
     hq_method rq = ''POST'' \<and> hq_path rq = ''/v1/attempts'' \<and> (case i of User _ \<Rightarrow> True | Ip _ \<Rightarrow> False)"

definition default_rate_limit :: "app_env \<Rightarrow> middleware" where
  "default_rate_limit E next_call rq w =
     (if \<not> needs_default_rate_limit rq then next_call rq w
      else
        (case rate_limit_identity E rq of
           Inl e \<Rightarrow> (Inl (Crash e), w)
         | Inr i \<Rightarrow>
             if deferred rq i then next_call rq w
             else if \<not> ae_redis_up E then (Inl (Crash (RuntimeError ''ConnectionError'')), w)
             else
               (case check_token_bucket (wd_store w) (ae_now E) (default_bucket i) (ae_default_limit E) 60 of
                  (rl, s) \<Rightarrow>
                    if \<not> rl_allowed rl
                    then (case request_id E (w\<lparr>wd_store := s\<rparr>) of
                            (rid, w') \<Rightarrow>
                              (Inr \<lparr>rs_status = 429, rs_headers = rate_headers rl,
                                    rs_body = error_body ''rate_limited'' ''Too many requests.'' rid\<rparr>, w'))
                    else
                      map_prod (map_sum id (\<lambda>r. fold (\<lambda>(k, v). with_header k v) (rate_headers rl) r)) id
                        (next_call rq (w\<lparr>wd_store := s\<rparr>)))))"

section \<open>The application\<close>

text \<open>
  \<open>add_middleware\<close> inserts at the front of the list, and the stack is built from its end: the last one
  added is the outermost. The handlers of \<open>ApiError\<close> and of validation errors run inside all of them,
  the handler of \<open>Exception\<close> outside.
\<close>

definition exception_middleware :: "app_env \<Rightarrow> middleware" where
  "exception_middleware E route rq w =
     (case route rq w of
        (Inl (Api n c m hs), w') \<Rightarrow> map_prod Inr id (api_error_handler E n c m hs w')
      | (Inl Invalid, w') \<Rightarrow> map_prod Inr id (validation_error_handler E w')
      | p \<Rightarrow> p)"

definition server_error_middleware :: "app_env \<Rightarrow> handler \<Rightarrow> http_request \<Rightarrow> world \<Rightarrow> http_response \<times> world" where
  "server_error_middleware E h rq w =
     (case h rq w of
        (Inr r, w') \<Rightarrow> (r, w')
      | (Inl _, w') \<Rightarrow> unhandled_response E w')"

definition add_middleware :: "middleware \<Rightarrow> middleware list \<Rightarrow> middleware list" where
  "add_middleware m ms = m # ms"

definition build_stack :: "middleware list \<Rightarrow> middleware" where
  "build_stack ms h = foldr (\<lambda>m h. m h) ms h"

definition registered :: "app_env \<Rightarrow> middleware \<Rightarrow> middleware list" where
  "registered E cors =
     fold add_middleware
       [catch_unhandled E, cors, add_request_id E, security_headers E, default_rate_limit E] []"

definition create_app :: "app_env \<Rightarrow> middleware \<Rightarrow> handler \<Rightarrow> http_request \<Rightarrow> world \<Rightarrow> http_response \<times> world" where
  "create_app E cors routes =
     server_error_middleware E (build_stack (registered E cors) (exception_middleware E routes))"

section \<open>The health probe\<close>

definition collect_failures :: "(string \<times> bool) list \<Rightarrow> string list" where
  "collect_failures checks = map fst (filter (\<lambda>(_, ok). \<not> ok) checks)"

definition healthz :: "bool \<Rightarrow> bool \<Rightarrow> http_response" where
  "healthz postgres_ok redis_ok =
     (let failures = collect_failures [(''postgres'', postgres_ok), (''redis'', redis_ok)] in
      if failures \<noteq> []
      then \<lparr>rs_status = 503, rs_headers = [],
            rs_body = JObj [(''status'', JStr ''error''), (''dependencies'', JArr (map JStr failures))]\<rparr>
      else \<lparr>rs_status = 200, rs_headers = [], rs_body = JObj [(''status'', JStr ''ok'')]\<rparr>)"

end
