(* ===== verification/App_Props.thy ===== *)
theory App_Props
  imports App Store_Props
begin

text \<open>
  What every response of the application carries, how an unhandled exception leaves it, and what a
  request refused by the default limit does and does not.
\<close>

section \<open>Headers\<close>

lemma find_none_filter: "find P (filter Q xs) = None \<longleftrightarrow> (\<forall>x\<in>set xs. Q x \<longrightarrow> \<not> P x)"
  by (auto simp: find_None_iff)

lemma find_filter_other: "(\<And>x. P x \<Longrightarrow> Q x) \<Longrightarrow> find P (filter Q xs) = find P xs"
  by (induction xs) auto

lemma header_set_same: "header k (set_header k v hs) = Some v"
  by (induction hs) (auto simp: header_def same_name_def)

lemma header_set_other:
  assumes "lower k' \<noteq> lower k"
  shows "header k' (set_header k v hs) = header k' hs"
proof (induction hs)
  case (Cons p hs)
  have "find (same_name k') (filter (\<lambda>q. \<not> same_name k q) hs) = find (same_name k') hs"
    using assms by (intro find_filter_other) (auto simp: same_name_def)
  with Cons assms show ?case by (auto simp: header_def same_name_def)
qed (use assms in \<open>simp add: header_def same_name_def\<close>)

lemma header_append:
  "header k (hs @ hs') = (case header k hs of None \<Rightarrow> header k hs' | Some v \<Rightarrow> Some v)"
  by (induction hs) (auto simp: header_def)

lemma header_default:
  "header k (default_header p hs) =
     (if header k hs = None \<and> same_name k p then Some (snd p) else header k hs)"
proof -
  have "header k hs = header (fst p) hs" if "same_name k p"
    using that by (simp add: header_def same_name_def [abs_def])
  then show ?thesis
    by (auto simp: default_header_def header_append split: option.split) (auto simp: header_def same_name_def)
qed

lemma header_defaults_kept: "header k hs \<noteq> None \<Longrightarrow> header k (fold default_header ps hs) = header k hs"
  by (induction ps arbitrary: hs) (auto simp: header_default)

lemma header_defaults_other:
  "\<forall>p\<in>set ps. \<not> same_name k p \<Longrightarrow> header k (fold default_header ps hs) = header k hs"
  by (induction ps arbitrary: hs) (auto simp: header_default)

lemma header_defaults_present:
  "p \<in> set ps \<Longrightarrow> header (fst p) (fold default_header ps hs) \<noteq> None"
proof (induction ps arbitrary: hs)
  case (Cons q ps)
  show ?case
  proof (cases "q = p")
    case True
    then have "header (fst p) (default_header q hs) \<noteq> None" by (simp add: header_default same_name_def)
    then show ?thesis using header_defaults_kept by simp
  next
    case False
    with Cons show ?thesis by simp
  qed
qed simp

lemma header_rate:
  assumes "lower k \<notin> {lower ''X-RateLimit-Limit'', lower ''X-RateLimit-Remaining'', lower ''Retry-After''}"
  shows "header k (rs_headers (fold (\<lambda>(k, v). with_header k v) (rate_headers rl) r)) = header k (rs_headers r)"
  using assms by (simp add: rate_headers_def with_header_def header_set_other)

lemma rate_keeps [simp]:
  "rs_status (fold (\<lambda>(k, v). with_header k v) ps r) = rs_status r"
  "rs_body (fold (\<lambda>(k, v). with_header k v) ps r) = rs_body r"
  by (induction ps arbitrary: r) (auto simp: with_header_def)

lemma with_defaults_headers: "rs_headers (with_defaults ps r) = fold default_header ps (rs_headers r)"
  by (simp add: with_defaults_def)

lemma secured_keeps [simp]: "rs_status (secured E r) = rs_status r" "rs_body (secured E r) = rs_body r"
  by (simp_all add: secured_def with_defaults_def)

lemma secured_present: "p \<in> set security_header_values \<Longrightarrow> header (fst p) (rs_headers (secured E r)) \<noteq> None"
  unfolding secured_def with_defaults_headers
  by (rule header_defaults_present) simp

definition guarded_names :: "string set" where
  "guarded_names = lower ` fst ` (insert hsts_header (set security_header_values))"

lemma secured_other: "lower k \<notin> guarded_names \<Longrightarrow> header k (rs_headers (secured E r)) = header k (rs_headers r)"
  unfolding secured_def with_defaults_headers
  by (rule header_defaults_other)
     (auto simp: guarded_names_def same_name_def split: if_splits, metis fst_conv image_eqI)

section \<open>Request ids\<close>

lemma hex_char_safe: "v < 16 \<Longrightarrow> id_char (hex_char v)"
  by (auto simp: id_char_def hex_char_def is_alnum_def is_digit_def is_lower_def)

lemma hex_text_safe: "c \<in> set (hex_text n u) \<Longrightarrow> id_char c"
  by (induction n arbitrary: u) (auto intro: hex_char_safe)

lemma fresh_request_id_safe: "safe_id (fst (fresh_request_id E w))"
proof -
  have "id_char CHR ''r'' \<and> id_char CHR ''e'' \<and> id_char CHR ''q'' \<and> id_char CHR ''_''" by code_simp
  then show ?thesis
    by (auto simp: safe_id_def fresh_request_id_def dest: hex_text_safe in_set_takeD simp del: hex_text.simps)
qed

lemma fresh_request_id_store [simp]:
  "wd_store (snd (fresh_request_id E w)) = wd_store w"
  "wd_request_id (snd (fresh_request_id E w)) = wd_request_id w"
  by (simp_all add: fresh_request_id_def)

lemma resolved_id_safe: "safe_request_id (fst (resolve_request_id E rq w))"
  using fresh_request_id_safe by (auto simp: resolve_request_id_def safe_request_id_def split: option.split)

lemma resolved_id_nonempty: "fst (resolve_request_id E rq w) \<noteq> []"
  using resolved_id_safe [of E rq w] by (auto simp: safe_request_id_def safe_id_def)

lemma resolve_store [simp]: "wd_store (snd (resolve_request_id E rq w)) = wd_store w"
  by (auto simp: resolve_request_id_def split: option.split)

lemma request_id_store [simp]: "wd_store (snd (request_id E w)) = wd_store w"
  by (auto simp: request_id_def split: option.split)

lemma request_id_known: "wd_request_id w = Some v \<Longrightarrow> v \<noteq> [] \<Longrightarrow> request_id E w = (v, w)"
  by (simp add: request_id_def)

section \<open>The way through the stack\<close>

lemma create_app_eq:
  "create_app E cors routes =
     server_error_middleware E (default_rate_limit E (security_headers E (add_request_id E
       (cors (catch_unhandled E (exception_middleware E routes))))))"
  by (simp add: create_app_def registered_def build_stack_def add_middleware_def)

text \<open>What the default limit lets through: the headers it will add and the world the next handler sees.\<close>

definition admission :: "app_env \<Rightarrow> http_request \<Rightarrow> world \<Rightarrow> ((string \<times> string) list \<times> world) option" where
  "admission E rq w =
     (if \<not> needs_default_rate_limit rq then Some ([], w)
      else
        (case rate_limit_identity E rq of
           Inl _ \<Rightarrow> None
         | Inr i \<Rightarrow>
             if deferred rq i then Some ([], w)
             else if \<not> ae_redis_up E then None
             else
               (case check_token_bucket (wd_store w) (ae_now E) (default_bucket i) (ae_default_limit E) 60 of
                  (rl, s) \<Rightarrow> if rl_allowed rl then Some (rate_headers rl, w\<lparr>wd_store := s\<rparr>) else None)))"

definition labelled :: "(string \<times> string) list \<Rightarrow> http_response \<Rightarrow> http_response" where
  "labelled hs r = fold (\<lambda>(k, v). with_header k v) hs r"

lemma admitted_run:
  assumes "admission E rq w = Some (hs, w1)"
  shows "default_rate_limit E h rq w = map_prod (map_sum id (labelled hs)) id (h rq w1) \<and>
    wd_uuids w1 = wd_uuids w \<and> (\<exists>rl. hs = [] \<or> hs = rate_headers rl)"
  using assms unfolding admission_def default_rate_limit_def labelled_def
  by (auto simp: map_prod_def sum.map_id split: if_splits sum.splits prod.splits)

lemma resolve_uuids: "wd_uuids w1 = wd_uuids w \<Longrightarrow> fst (resolve_request_id E rq w1) = fst (resolve_request_id E rq w)"
  by (auto simp: resolve_request_id_def fresh_request_id_def split: option.split)

lemma inner_run:
  assumes "\<And>w. wd_request_id (snd (routes rq w)) = wd_request_id w"
    and "wd_request_id w = Some rid" and "rid \<noteq> []"
  obtains r0 w' where "catch_unhandled E (exception_middleware E routes) rq w = (Inr r0, w')"
    and "wd_request_id w' = Some rid"
    and "\<And>e. fst (routes rq w) = Inl (Crash e) \<Longrightarrow>
      rs_status r0 = 500 \<and> rs_body r0 = error_body ''internal'' ''Something went wrong.'' rid"
proof -
  obtain res w1 where r: "routes rq w = (res, w1)" by (cases "routes rq w")
  have k: "request_id E w1 = (rid, w1)" "wd_request_id w1 = Some rid"
    using assms r assms(1) [of w] by (simp_all add: request_id_known)
  show thesis
  proof (cases res)
    case (Inr r0)
    then show thesis using that [of r0 w1] r k by (simp add: catch_unhandled_def exception_middleware_def)
  next
    case (Inl f)
    then show thesis
      using that r k
      by (cases f) (simp_all add: catch_unhandled_def exception_middleware_def api_error_handler_def
          validation_error_handler_def unhandled_response_def with_header_def)
  qed
qed

lemma guarded_ids: "lower ''X-Request-ID'' \<notin> guarded_names" "lower ''Access-Control-Allow-Origin'' \<notin> guarded_names"
  by code_simp+

lemma header_labelled:
  assumes "hs = [] \<or> hs = rate_headers rl"
    and "lower k \<notin> {lower ''X-RateLimit-Limit'', lower ''X-RateLimit-Remaining'', lower ''Retry-After''}"
  shows "header k (rs_headers (labelled hs r)) = header k (rs_headers r)"
  using assms header_rate by (auto simp: labelled_def)

lemma unlimited_names:
  "k \<in> insert ''X-Request-ID'' (insert ''Access-Control-Allow-Origin'' (fst ` set security_header_values)) \<Longrightarrow>
   lower k \<notin> {lower ''X-RateLimit-Limit'', lower ''X-RateLimit-Remaining'', lower ''Retry-After''}"
proof -
  have "\<forall>k\<in>insert ''X-Request-ID'' (insert ''Access-Control-Allow-Origin'' (fst ` set security_header_values)).
     lower k \<notin> {lower ''X-RateLimit-Limit'', lower ''X-RateLimit-Remaining'', lower ''Retry-After''}"
    by code_simp
  then show "k \<in> insert ''X-Request-ID'' (insert ''Access-Control-Allow-Origin'' (fst ` set security_header_values)) \<Longrightarrow> ?thesis"
    by blast
qed


definition sample_app :: app_env where
  "sample_app = \<lparr>ae_tokens = sample_token_env, ae_secrets = [''k''], ae_now = 100000000, ae_uuid = id,
     ae_redis_up = True, ae_production = True, ae_default_limit = 1, ae_proxies = 0\<rparr>"

definition sample_request :: http_request where
  "sample_request = \<lparr>hq_method = ''GET'', hq_path = ''/v1/debug/sentry-test'', hq_headers = [(''x-request-id'', ''trace-1'')],
     hq_peer = Some ''10.0.0.1''\<rparr>"

definition fresh_world :: world where
  "fresh_world = \<lparr>wd_store = (\<lambda>_. None), wd_request_id = None, wd_uuids = 0\<rparr>"

definition sample_mark :: "http_response \<Rightarrow> http_response" where
  "sample_mark = with_header ''Access-Control-Allow-Origin'' ''https://app''"

definition sample_cors :: middleware where
  "sample_cors h rq w = map_prod (map_sum id sample_mark) id (h rq w)"

definition broken_route :: handler where
  "broken_route rq w = (Inl (Crash (RuntimeError ''boom'')), w)"


text \<open>
  C18: A request that the default limit refuses goes no further: whatever the routes and the CORS
  middleware are, the answer is the 429 with the limiter's own headers, no handler runs, and the store
  changes in the bucket of that identity only. As the limiter is the outermost middleware, that answer
  has none of the labels of the others: no request id, no security header, no CORS header.
\<close>

theorem refused_request_goes_no_further:
  assumes "needs_default_rate_limit rq" and "rate_limit_identity E rq = Inr i" and "\<not> deferred rq i"
    and "ae_redis_up E" and "wd_request_id w = None"
    and "check_token_bucket (wd_store w) (ae_now E) (default_bucket i) (ae_default_limit E) 60 = (rl, s)"
    and "\<not> rl_allowed rl"
  shows "\<exists>rid. create_app E cors routes rq w =
      (\<lparr>rs_status = 429, rs_headers = rate_headers rl,
        rs_body = error_body ''rate_limited'' ''Too many requests.'' rid\<rparr>,
       w\<lparr>wd_store := s, wd_uuids := Suc (wd_uuids w)\<rparr>) \<and>
    safe_id rid \<and>
    (\<forall>k\<in>insert ''X-Request-ID'' (insert ''Access-Control-Allow-Origin'' (fst ` set security_header_values)).
       header k (rate_headers rl) = None) \<and>
    (\<forall>k. k \<noteq> default_bucket i \<longrightarrow> s k = wd_store w k)"
proof -
  have "header k (rate_headers rl) = None"
    if "k \<in> insert ''X-Request-ID'' (insert ''Access-Control-Allow-Origin'' (fst ` set security_header_values))" for k
    using unlimited_names [OF that] by (auto simp: rate_headers_def header_def same_name_def)
  moreover have "s k = wd_store w k" if "k \<noteq> default_bucket i" for k
    using assms(6) that by (auto simp: check_token_bucket_def rset_def split: prod.splits)
  moreover have "safe_id (fst (fresh_request_id E (w\<lparr>wd_store := s\<rparr>)))" by (rule fresh_request_id_safe)
  moreover have "create_app E cors routes rq w =
      (\<lparr>rs_status = 429, rs_headers = rate_headers rl,
        rs_body = error_body ''rate_limited'' ''Too many requests.'' (fst (fresh_request_id E (w\<lparr>wd_store := s\<rparr>)))\<rparr>,
       w\<lparr>wd_store := s, wd_uuids := Suc (wd_uuids w)\<rparr>)"
    using assms by (simp add: create_app_eq server_error_middleware_def default_rate_limit_def request_id_def
        fresh_request_id_def)
  ultimately show ?thesis
    by (intro exI [of _ "fst (fresh_request_id E (w\<lparr>wd_store := s\<rparr>))"] conjI ballI allI impI)
qed

definition greedy_request :: http_request where
  "greedy_request = \<lparr>hq_method = ''POST'', hq_path = ''/v1/attempts'',
     hq_headers = [(''Authorization'', ''Bearer garbage'')], hq_peer = Some ''10.0.0.1''\<rparr>"

definition spent_world :: world where
  "spent_world = fresh_world\<lparr>wd_store :=
     [default_bucket (Ip ''10.0.0.1'') \<mapsto> (Bucket 0 100, Some 200000000)]\<rparr>"

lemma garbage_token: "rate_limit_identity sample_app greedy_request = Inr (Ip ''10.0.0.1'')"
proof -
  have b: "bearer_token greedy_request = Some ''garbage''" by code_simp
  have "split_on (CHR ''.'') ''garbage'' = [''garbage'']" by code_simp
  then show ?thesis
    by (simp add: rate_limit_identity_def b verify_access_token_def is_token_error_def)
       (simp add: greedy_request_def sample_app_def resolve_client_ip_def Let_def)
qed

theorem refused_request_goes_no_further_witness:
  "rs_status (fst (create_app sample_app sample_cors broken_route greedy_request spent_world)) = 429"
proof -
  obtain rl s where b: "check_token_bucket (wd_store spent_world) (ae_now sample_app) (default_bucket (Ip ''10.0.0.1''))
      (ae_default_limit sample_app) 60 = (rl, s)" by (cases "check_token_bucket (wd_store spent_world)
      (ae_now sample_app) (default_bucket (Ip ''10.0.0.1'')) (ae_default_limit sample_app) 60")
  have "token_bucket (Some (0, 100)) 1 60 100 = ((0, 0, \<lceil>fl (1 / fl (1 / 60))\<rceil>), 0, 100)"
    using token_bucket_int [of 0 1 100 60] by simp
  then have "\<not> rl_allowed rl"
    using b by (auto simp: check_token_bucket_def spent_world_def sample_app_def bucket_data_def rget_def alive_def
        split: prod.splits)
  then show ?thesis
    using refused_request_goes_no_further [OF _ garbage_token _ _ _ b, of sample_cors broken_route]
    by (auto simp: needs_default_rate_limit_def greedy_request_def starts_def deferred_def sample_app_def
        spent_world_def fresh_world_def)
qed

text \<open>A token whose signature is not ASCII makes the limiter itself raise: the answer is made outside of CORS.\<close>

lemma limiter_error_escapes:
  assumes "needs_default_rate_limit rq" and "rate_limit_identity E rq = Inl e"
  shows "create_app E cors routes rq w = unhandled_response E w"
  using assms by (simp add: create_app_eq server_error_middleware_def default_rate_limit_def)

end
