(* ===== verification/Difflib.thy ===== *)
theory Difflib
  imports Pystring "HOL-Library.Sublist"
begin

text \<open>
  What the sandbox gate uses of the standard library to compare two programs line by line:
  \<open>str.splitlines\<close>, and \<open>difflib.SequenceMatcher(autojunk=False).get_opcodes()\<close> as it is
  documented, with no line treated as junk. The lemmas say that the matching blocks are common
  runs of the two lists in order, so that a list without its replaced and deleted positions is
  a subsequence of the other.
\<close>

section \<open>Lines\<close>

definition line_end :: "char \<Rightarrow> bool" where
  "line_end c \<longleftrightarrow> code c \<in> {10, 11, 12, 13, 28, 29, 30, 133}"

fun splitlines :: "string \<Rightarrow> string list" where
  "splitlines [] = []"
| "splitlines (c # s) =
     (if code c = 13 \<and> s \<noteq> [] \<and> code (hd s) = 10 then [] # splitlines (tl s)
      else if line_end c then [] # splitlines s
      else (case splitlines s of [] \<Rightarrow> [[c]] | l # ls \<Rightarrow> (c # l) # ls))"

section \<open>The longest match\<close>

fun common_prefix :: "'a list \<Rightarrow> 'a list \<Rightarrow> nat" where
  "common_prefix (x # xs) (y # ys) = (if x = y then Suc (common_prefix xs ys) else 0)"
| "common_prefix _ _ = 0"

text \<open>
  \<open>find_longest_match\<close>: a block \<open>(i, j, k)\<close> with \<open>a[i:i+k] = b[j:j+k]\<close> of greatest length;
  of several, the one that starts earliest in \<open>a\<close>, and of those the earliest in \<open>b\<close>.
\<close>

definition longest_match :: "'a list \<Rightarrow> 'a list \<Rightarrow> nat \<times> nat \<times> nat" where
  "longest_match a b =
     (case max_by (\<lambda>(i, j). common_prefix (drop i a) (drop j b))
             (List.product [0..<length a] [0..<length b]) of
        None \<Rightarrow> (0, 0, 0)
      | Some (i, j) \<Rightarrow> (i, j, common_prefix (drop i a) (drop j b)))"

lemma common_prefix_eq: "take (common_prefix a b) a = take (common_prefix a b) b"
  by (induction a b rule: common_prefix.induct) auto

lemma common_prefix_le: "common_prefix a b \<le> length a" "common_prefix a b \<le> length b"
  by (induction a b rule: common_prefix.induct) auto

lemma longest_matchD:
  assumes "longest_match a b = (i, j, k)"
  shows "i + k \<le> length a" "j + k \<le> length b" "take k (drop i a) = take k (drop j b)"
proof -
  have "i \<le> length a \<and> j \<le> length b \<and> (k = 0 \<or> k = common_prefix (drop i a) (drop j b))"
    using assms by (auto simp: longest_match_def split: option.splits prod.splits dest!: max_by_in_set)
  then have *: "i \<le> length a" "j \<le> length b" "k = 0 \<or> k = common_prefix (drop i a) (drop j b)"
    by auto
  show "i + k \<le> length a" "j + k \<le> length b"
    using * common_prefix_le [of "drop i a" "drop j b"] by auto
  show "take k (drop i a) = take k (drop j b)" using * common_prefix_eq by auto
qed

section \<open>Matching blocks and opcodes\<close>

text \<open>
  The blocks left of the longest match, the match and the blocks right of it. Blocks that touch
  are not merged, which would only merge \<open>equal\<close> opcodes.
\<close>

function matching_blocks :: "'a list \<Rightarrow> 'a list \<Rightarrow> (nat \<times> nat \<times> nat) list" where
  "matching_blocks a b =
     (case longest_match a b of
        (i, j, k) \<Rightarrow>
          if k = 0 then []
          else matching_blocks (take i a) (take j b) @
               (i, j, k) #
               map (\<lambda>(x, y, n). (i + k + x, j + k + y, n))
                 (matching_blocks (drop (i + k) a) (drop (j + k) b)))"
  by pat_completeness auto
termination
proof (relation "measure (\<lambda>(a, b). length a)", goal_cases)
  case (2 a b i p j k)
  then have "i + k \<le> length a" by (metis longest_matchD(1))
  with 2 show ?case by simp
next
  case (3 a b i p j k)
  then have "i + k \<le> length a" by (metis longest_matchD(1))
  with 3 show ?case by simp
qed simp

declare matching_blocks.simps [simp del]

datatype opcode_tag = TagReplace | TagDelete | TagInsert | TagEqual

fun opcodes_from ::
    "nat \<Rightarrow> nat \<Rightarrow> (nat \<times> nat \<times> nat) list \<Rightarrow> (opcode_tag \<times> nat \<times> nat \<times> nat \<times> nat) list" where
  "opcodes_from i j [] = []"
| "opcodes_from i j ((x, y, k) # bs) =
     (if i < x \<and> j < y then [(TagReplace, i, x, j, y)]
      else if i < x then [(TagDelete, i, x, j, y)]
      else if j < y then [(TagInsert, i, x, j, y)] else []) @
     (if k \<noteq> 0 then [(TagEqual, x, x + k, y, y + k)] else []) @
     opcodes_from (x + k) (y + k) bs"

definition get_opcodes :: "'a list \<Rightarrow> 'a list \<Rightarrow> (opcode_tag \<times> nat \<times> nat \<times> nat \<times> nat) list" where
  "get_opcodes a b = opcodes_from 0 0 (matching_blocks a b @ [(length a, length b, 0)])"

fun touched :: "(opcode_tag \<times> nat \<times> nat \<times> nat \<times> nat) list \<Rightarrow> nat list" where
  "touched [] = []"
| "touched ((t, i1, i2, _, _) # ops) =
     (if t = TagReplace \<or> t = TagDelete then [i1..<i2] else []) @ touched ops"

section \<open>Soundness of the blocks\<close>

fun chain :: "'a list \<Rightarrow> 'a list \<Rightarrow> nat \<Rightarrow> nat \<Rightarrow> (nat \<times> nat \<times> nat) list \<Rightarrow> bool" where
  "chain a b i j [] \<longleftrightarrow> i \<le> length a \<and> j \<le> length b"
| "chain a b i j ((x, y, k) # bs) \<longleftrightarrow>
     i \<le> x \<and> j \<le> y \<and> x + k \<le> length a \<and> y + k \<le> length b \<and>
     take k (drop x a) = take k (drop y b) \<and> chain a b (x + k) (y + k) bs"

lemma chain_earlier: "chain a b i j bs \<Longrightarrow> p \<le> i \<Longrightarrow> q \<le> j \<Longrightarrow> chain a b p q bs"
  by (cases bs) auto

lemma chain_take:
  assumes "chain (take i a) (take j b) p q bs" "chain a b i j cs" "i \<le> length a" "j \<le> length b"
  shows "chain a b p q (bs @ cs)"
  using assms
proof (induction bs arbitrary: p q)
  case (Cons z bs)
  obtain x y k where z: "z = (x, y, k)" by (cases z)
  have le: "p \<le> x" "q \<le> y" "x + k \<le> i" "y + k \<le> j"
    and eq: "take k (drop x (take i a)) = take k (drop y (take j b))"
    and bs: "chain (take i a) (take j b) (x + k) (y + k) bs"
    using Cons.prems by (simp_all add: z)
  have "take k (drop x a) = take k (drop y b)" using eq le by (simp add: drop_take min_absorb1)
  with le Cons.IH [OF bs Cons.prems(2-4)] Cons.prems(3,4) show ?case by (simp add: z)
qed (auto intro: chain_earlier)

lemma chain_shift:
  assumes "chain (drop n a) (drop m b) p q bs" "n \<le> length a" "m \<le> length b"
  shows "chain a b (n + p) (m + q) (map (\<lambda>(x, y, k). (n + x, m + y, k)) bs)"
  using assms(1)
proof (induction bs arbitrary: p q)
  case (Cons z bs)
  obtain x y k where z: "z = (x, y, k)" by (cases z)
  have le: "p \<le> x" "q \<le> y" "x + k \<le> length a - n" "y + k \<le> length b - m"
    and eq: "take k (drop x (drop n a)) = take k (drop y (drop m b))"
    and bs: "chain (drop n a) (drop m b) (x + k) (y + k) bs"
    using Cons.prems by (simp_all add: z)
  have "take k (drop (n + x) a) = take k (drop (m + y) b)" using eq by (simp add: add.commute)
  moreover have "n + (x + k) \<le> length a" "m + (y + k) \<le> length b" using le assms(2,3) by arith+
  ultimately show ?case using le Cons.IH [OF bs] by (simp add: z add.assoc)
qed (use assms(2,3) in auto)

lemma matching_blocks_chain: "chain a b 0 0 (matching_blocks a b)"
proof (induction a b rule: matching_blocks.induct)
  case (1 a b)
  obtain i j k where m: "longest_match a b = (i, j, k)" by (metis prod_cases3)
  note match = longest_matchD [OF m]
  show ?case
  proof (cases "k = 0")
    case True
    then show ?thesis by (simp add: matching_blocks.simps m)
  next
    case False
    note IH = 1 [OF m [symmetric] refl False]
    have "chain a b (i + k) (j + k) (map (\<lambda>(x, y, n). (i + k + x, j + k + y, n))
        (matching_blocks (drop (i + k) a) (drop (j + k) b)))"
      using chain_shift [OF IH(2)] match by simp
    then have "chain a b i j ((i, j, k) # map (\<lambda>(x, y, n). (i + k + x, j + k + y, n))
        (matching_blocks (drop (i + k) a) (drop (j + k) b)))"
      using match by simp
    then show ?thesis
      using chain_take [OF IH(1)] match False by (subst matching_blocks.simps) (simp add: m)
  qed
qed

section \<open>What the opcodes leave\<close>

text \<open>The elements from position \<open>i\<close> on whose positions are not listed.\<close>

definition untouched :: "'a list \<Rightarrow> nat \<Rightarrow> nat list \<Rightarrow> 'a list" where
  "untouched a i ps = map ((!) a) (filter (\<lambda>m. m \<notin> set ps) [i..<length a])"

lemma nth_upt_segment: "x + k \<le> length a \<Longrightarrow> map ((!) a) [x..<x + k] = take k (drop x a)"
  by (rule nth_equalityI) auto

lemma untouched_split:
  assumes "i \<le> x" "x + k \<le> length a" "\<forall>m\<in>set ps. x + k \<le> m"
  shows "untouched a i ([i..<x] @ ps) = take k (drop x a) @ untouched a (x + k) ps"
proof -
  have "[i..<length a] = [i..<x] @ [x..<x + k] @ [x + k..<length a]"
    using assms by (metis le_add1 le_trans upt_add_eq_append le_add_diff_inverse append_assoc)
  moreover have "filter (\<lambda>m. m \<notin> set ([i..<x] @ ps)) [i..<x] = []" by simp
  moreover have "filter (\<lambda>m. m \<notin> set ([i..<x] @ ps)) [x..<x + k] = [x..<x + k]"
    using assms(3) by (fastforce simp: filter_id_conv)
  moreover have "filter (\<lambda>m. m \<notin> set ([i..<x] @ ps)) [x + k..<length a] =
      filter (\<lambda>m. m \<notin> set ps) [x + k..<length a]"
    by (rule filter_cong) auto
  ultimately show ?thesis
    using nth_upt_segment [OF assms(2)] by (simp add: untouched_def del: append_is_Nil_conv)
qed

lemma touched_gap:
  "touched (opcodes_from i j ((x, y, k) # bs)) = [i..<x] @ touched (opcodes_from (x + k) (y + k) bs)"
  by simp

lemma touched_sound:
  assumes "chain a b i j bs"
  defines "ps \<equiv> touched (opcodes_from i j (bs @ [(length a, length b, 0)]))"
  shows "sorted_wrt (<) ps \<and> set ps \<subseteq> {i..<length a} \<and> subseq (untouched a i ps) (drop j b)"
  using assms(1) unfolding ps_def
proof (induction bs arbitrary: i j)
  case Nil
  then show ?case by (auto simp: untouched_def filter_empty_conv)
next
  case (Cons z bs)
  obtain x y k where z: "z = (x, y, k)" by (cases z)
  define qs where "qs = touched (opcodes_from (x + k) (y + k) (bs @ [(length a, length b, 0)]))"
  have le: "i \<le> x" "j \<le> y" "x + k \<le> length a" "y + k \<le> length b"
    and eq: "take k (drop x a) = take k (drop y b)" using Cons.prems by (simp_all add: z)
  have IH: "sorted_wrt (<) qs" "set qs \<subseteq> {x + k..<length a}"
      "subseq (untouched a (x + k) qs) (drop (y + k) b)"
    using Cons.IH [of "x + k" "y + k"] Cons.prems by (simp_all add: z qs_def)
  have ps: "touched (opcodes_from i j ((z # bs) @ [(length a, length b, 0)])) = [i..<x] @ qs"
    by (simp add: z qs_def)
  have "drop j b = take (y - j) (drop j b) @ take k (drop y b) @ drop (y + k) b"
    using le by (metis append_take_drop_id drop_drop le_add_diff_inverse2 add.commute)
  moreover have "untouched a i ([i..<x] @ qs) = take k (drop y b) @ untouched a (x + k) qs"
    using untouched_split [OF le(1,3)] IH(2) eq by fastforce
  ultimately have "subseq (untouched a i ([i..<x] @ qs)) (drop j b)"
    using IH(3) by (metis list_emb_append2 subseq_append_le_same_iff subseq_append' list_emb_append_mono subseq_order.refl)
  moreover have "sorted_wrt (<) ([i..<x] @ qs)"
    using IH(1,2) by (fastforce simp: sorted_wrt_append)
  moreover have "set ([i..<x] @ qs) \<subseteq> {i..<length a}" using IH(2) le by auto
  ultimately show ?case unfolding ps by blast
qed

theorem opcodes_sound:
  "sorted_wrt (<) (touched (get_opcodes a b))"
  "set (touched (get_opcodes a b)) \<subseteq> {..<length a}"
  "subseq (untouched a 0 (touched (get_opcodes a b))) b"
  using touched_sound [OF matching_blocks_chain, of a b] by (auto simp: get_opcodes_def)

end
