(* ===== verification/Candidates.thy ===== *)
theory Candidates
  imports Rubric Difflib
begin

text \<open>
  What the content pipeline generates and how a reply of the generator becomes a candidate:
  \<open>pipeline/schemas.py\<close>, \<open>pipeline/spec_sampler.py\<close>, \<open>pipeline/generate.py\<close> and the repair
  call of \<open>pipeline/repair.py\<close>. The language model is a stream of replies, \<open>json.loads\<close> and the
  field types pydantic checks are parameters; the field bounds and the validators the schemas add
  are definitions. The two \<open>self_check\<close> objects, which nothing reads, are left out.
\<close>

section \<open>Specifications\<close>

record exercise_spec =
  spec_type :: string
  spec_concept :: string
  spec_difficulty :: int
  spec_domain :: string
  line_budget_min :: int
  line_budget_max :: int
  spec_has_bug :: "bool option"
  avoid_patterns :: "string list"

definition line_budget_for_difficulty :: "int \<Rightarrow> int \<times> int" where
  "line_budget_for_difficulty d =
     (if 1 \<le> d \<and> d < 3 then (10, 20)
      else if 3 \<le> d \<and> d < 5 then (15, 30)
      else if 5 \<le> d \<and> d < 7 then (20, 45)
      else if 7 \<le> d \<and> d < 9 then (30, 55)
      else if 9 \<le> d \<and> d < 11 then (40, 60)
      else (20, 60))"

text \<open>The last \<open>n\<close> of a list, \<open>xs[-n:]\<close>.\<close>

definition last_n :: "nat \<Rightarrow> 'a list \<Rightarrow> 'a list" where
  "last_n n xs = drop (length xs - n) xs"

text \<open>
  The draws of the generator of random numbers (concept, difficulty, domain and the has-bug draw)
  are arguments.
\<close>

definition sample_spec ::
    "string \<Rightarrow> string \<Rightarrow> int \<Rightarrow> string \<Rightarrow> rat \<Rightarrow> (string \<Rightarrow> string list) \<Rightarrow> exercise_spec result" where
  "sample_spec ty concept difficulty domain draw history =
     (if ty \<noteq> ''spot_the_bug'' \<and> ty \<noteq> ''trace'' then Inl (ValueError ''unknown exercise type'')
      else
        Inr \<lparr>spec_type = ty, spec_concept = concept, spec_difficulty = difficulty, spec_domain = domain,
             line_budget_min = fst (line_budget_for_difficulty difficulty),
             line_budget_max = snd (line_budget_for_difficulty difficulty),
             spec_has_bug = (if ty = ''spot_the_bug'' then Some (fl (15 / 100) \<le> draw) else None),
             avoid_patterns = last_n 3 (history concept)\<rparr>)"

section \<open>Candidates\<close>

record reason_option =
  ro_id :: string
  ro_text :: string

record stb_draft =
  sd_summary :: string
  sd_principle :: string
  line_notes :: "(int \<times> string) list"

record stb_candidate =
  buggy_code :: string
  fixed_code :: string
  bug_lines :: "int list"
  test_code :: string
  sc_context_note :: string
  reason_options :: "reason_option list"
  correct_reason_id :: string
  sc_draft :: stb_draft
  sc_concepts :: "string list"
  sc_self_difficulty :: int
  bug_trigger_condition :: "string option"
  divergence_input :: "string option"
  buggy_result_on_divergence_input :: "string option"
  fixed_result_on_divergence_input :: "string option"
  divergence_justification :: "string option"

record choice =
  ch_id :: string
  ch_text :: string
  misconception :: "string option"

record trace_draft =
  td_summary :: string
  td_principle :: string
  trace_table :: "(int \<times> string) list"
  why_wrong :: "(string \<times> string) list"

record trace_candidate =
  tr_code :: string
  tr_context_note :: string
  question :: string
  expected_stdout :: string
  choices :: "choice list"
  correct_choice_id :: string
  tr_draft :: trace_draft
  tr_concepts :: "string list"
  tr_self_difficulty :: int

text \<open>A wrong fix of \<open>predict_the_fix\<close>: its code and the note on why it is wrong.\<close>

type_synonym fix_variant = "string \<times> string"

datatype pipeline_candidate = STB stb_candidate | Trace trace_candidate

section \<open>Validation\<close>

definition divergence_fields :: "stb_candidate \<Rightarrow> string option list" where
  "divergence_fields c = [bug_trigger_condition c, divergence_input c,
     buggy_result_on_divergence_input c, fixed_result_on_divergence_input c,
     divergence_justification c]"

definition divergence_ok :: "stb_candidate \<Rightarrow> bool" where
  "divergence_ok c \<longleftrightarrow>
     (let present = filter (\<lambda>f. f \<noteq> None) (divergence_fields c) in
      (present = [] \<or> length present = 5) \<and>
      (case (buggy_result_on_divergence_input c, fixed_result_on_divergence_input c) of
         (Some b, Some f) \<Rightarrow> strip b \<noteq> strip f
       | _ \<Rightarrow> True))"

definition stb_fields_ok :: "stb_candidate \<Rightarrow> bool" where
  "stb_fields_ok c \<longleftrightarrow>
     length (reason_options c) = 4 \<and> sc_concepts c \<noteq> [] \<and>
     1 \<le> sc_self_difficulty c \<and> sc_self_difficulty c \<le> 10"

definition why_wrong_ok :: "trace_candidate \<Rightarrow> bool" where
  "why_wrong_ok c \<longleftrightarrow>
     set (map fst (why_wrong (tr_draft c))) =
     set (map ch_id (filter (\<lambda>x. ch_id x \<noteq> correct_choice_id c) (choices c)))"

definition trace_fields_ok :: "trace_candidate \<Rightarrow> bool" where
  "trace_fields_ok c \<longleftrightarrow>
     length (choices c) = 4 \<and> tr_concepts c \<noteq> [] \<and>
     1 \<le> tr_self_difficulty c \<and> tr_self_difficulty c \<le> 10"

section \<open>Generation\<close>

text \<open>What the pipeline's libraries do with a text: parse it, and check field types.\<close>

record reply_env =
  loads :: "string \<Rightarrow> json option"
  stb_shape :: "json \<Rightarrow> stb_candidate option"
  trace_shape :: "json \<Rightarrow> trace_candidate option"
  fixes_shape :: "json \<Rightarrow> fix_variant list option"

definition model_validate :: "reply_env \<Rightarrow> string \<Rightarrow> json \<Rightarrow> pipeline_candidate option" where
  "model_validate V ty j =
     (if ty = ''spot_the_bug''
      then Option.bind (stb_shape V j)
             (\<lambda>c. if stb_fields_ok c \<and> divergence_ok c then Some (STB c) else None)
      else Option.bind (trace_shape V j)
             (\<lambda>c. if trace_fields_ok c \<and> why_wrong_ok c then Some (Trace c) else None))"

datatype discard = JsonParseFailed | Aborted json | SchemaFailed

text \<open>\<open>_try_parse_json(raw) is None\<close>; a reply that is the JSON value \<open>null\<close> is one too.\<close>

definition try_parse_json :: "reply_env \<Rightarrow> string \<Rightarrow> json option" where
  "try_parse_json V raw =
     (case parse_json (loads V) raw of Some JNull \<Rightarrow> None | p \<Rightarrow> p)"

definition abort_reason :: "json \<Rightarrow> json option" where
  "abort_reason j =
     (case j of
        JObj kvs \<Rightarrow>
          if get kvs ''abort'' JNull = JBool True then Some (get kvs ''reason'' (JStr ''unspecified''))
          else None
      | _ \<Rightarrow> None)"

definition accept_reply :: "reply_env \<Rightarrow> string \<Rightarrow> json \<Rightarrow> discard + pipeline_candidate" where
  "accept_reply V ty j =
     (case abort_reason j of
        Some r \<Rightarrow> Inl (Aborted r)
      | None \<Rightarrow> (case model_validate V ty j of None \<Rightarrow> Inl SchemaFailed | Some c \<Rightarrow> Inr c))"

text \<open>
  \<open>replies n\<close> is what the model answers to its call number \<open>n\<close>; the result counts the calls made,
  two when the first reply is not JSON.
\<close>

definition generate_candidate ::
    "reply_env \<Rightarrow> string \<Rightarrow> (nat \<Rightarrow> string) \<Rightarrow> nat \<Rightarrow> (discard + pipeline_candidate) \<times> nat" where
  "generate_candidate V ty replies n =
     (case try_parse_json V (replies n) of
        Some j \<Rightarrow> (accept_reply V ty j, n + 1)
      | None \<Rightarrow>
          (case try_parse_json V (replies (n + 1)) of
             Some j \<Rightarrow> (accept_reply V ty j, n + 2)
           | None \<Rightarrow> (Inl JsonParseFailed, n + 2)))"

text \<open>The repair of a candidate has the same contract; only its prompt differs.\<close>

definition repair_candidate ::
    "reply_env \<Rightarrow> string \<Rightarrow> (nat \<Rightarrow> string) \<Rightarrow> nat \<Rightarrow> (discard + pipeline_candidate) \<times> nat" where
  "repair_candidate V ty replies n =
     (case try_parse_json V (replies n) of
        Some j \<Rightarrow> (accept_reply V ty j, n + 1)
      | None \<Rightarrow>
          (case try_parse_json V (replies (n + 1)) of
             Some j \<Rightarrow> (accept_reply V ty j, n + 2)
           | None \<Rightarrow> (Inl JsonParseFailed, n + 2)))"

text \<open>The wrong fixes of \<open>predict_the_fix\<close> are asked for once.\<close>

definition generate_wrong_fixes ::
    "reply_env \<Rightarrow> (nat \<Rightarrow> string) \<Rightarrow> nat \<Rightarrow> (discard + fix_variant list) \<times> nat" where
  "generate_wrong_fixes V replies n =
     ((case try_parse_json V (replies n) of
         None \<Rightarrow> Inl JsonParseFailed
       | Some j \<Rightarrow>
           (case abort_reason j of
              Some r \<Rightarrow> Inl (Aborted r)
            | None \<Rightarrow>
                (case fixes_shape V j of
                   None \<Rightarrow> Inl SchemaFailed
                 | Some fs \<Rightarrow> if length fs = 3 then Inr fs else Inl SchemaFailed))),
      n + 1)"

lemma generate_calls:
  "generate_candidate V ty replies n = (r, m) \<Longrightarrow> n < m \<and> m \<le> n + 2"
  "repair_candidate V ty replies n = (r, m) \<Longrightarrow> n < m \<and> m \<le> n + 2"
  by (auto simp: generate_candidate_def repair_candidate_def split: option.splits)

text \<open>Every candidate that comes out satisfies its schema.\<close>

definition schema_ok :: "pipeline_candidate \<Rightarrow> bool" where
  "schema_ok c \<longleftrightarrow>
     (case c of STB s \<Rightarrow> stb_fields_ok s \<and> divergence_ok s
              | Trace t \<Rightarrow> trace_fields_ok t \<and> why_wrong_ok t)"

lemma accepted_schema_ok: "accept_reply V ty j = Inr c \<Longrightarrow> schema_ok c"
  by (auto simp: accept_reply_def model_validate_def schema_ok_def Option.bind_eq_Some_conv
      split: option.splits if_splits)

lemma generated_schema_ok:
  "generate_candidate V ty replies n = (Inr c, m) \<Longrightarrow> schema_ok c"
  "repair_candidate V ty replies n = (Inr c, m) \<Longrightarrow> schema_ok c"
  by (auto simp: generate_candidate_def repair_candidate_def accepted_schema_ok split: option.splits)

lemma accepted_type: "accept_reply V ty j = Inr c \<Longrightarrow> ty = ''spot_the_bug'' \<longleftrightarrow> (\<exists>s. c = STB s)"
  by (auto simp: accept_reply_def model_validate_def Option.bind_eq_Some_conv split: option.splits if_splits)

lemma generated_type:
  "generate_candidate V ty replies n = (Inr c, m) \<Longrightarrow> ty = ''spot_the_bug'' \<longleftrightarrow> (\<exists>s. c = STB s)"
  "repair_candidate V ty replies n = (Inr c, m) \<Longrightarrow> ty = ''spot_the_bug'' \<longleftrightarrow> (\<exists>s. c = STB s)"
  by (auto simp: generate_candidate_def repair_candidate_def dest!: accepted_type split: option.splits)

end
