(* ===== verification/Sandbox_Gate.thy ===== *)
theory Sandbox_Gate
  imports Candidates
begin

text \<open>
  The sandbox gate, \<open>pipeline/sandbox_gate.py\<close>: a candidate is accepted only for what running it
  showed. Running a program in the container is the parameter \<open>run\<close>, with the number of the run,
  since two runs of one program may differ; the runs are taken in the order of the code. The texts
  of the checks, which are only reported, are left out. The lemmas say what an accepted result
  promises: the answer key of a bug is where the code and its fix differ, and of the choices of a
  \<open>predict_the_fix\<close> exactly the verified fix passes its test.
\<close>

section \<open>Runs and checks\<close>

text \<open>Whether a run was cut off by its time limit is not read by the gate.\<close>

record run_result =
  exit_code :: "int option"
  run_stdout :: string
  run_stderr :: string

type_synonym gate_check = "string \<times> bool"

record gate_result =
  gr_accepted :: bool
  gr_checks :: "gate_check list"
  captured_stdout :: "string option"
  verified_bug_lines :: "int list option"
  bug_lines_claim_mismatch :: bool
  captured_test_output :: "string option"

definition normalize_stdout :: "string \<Rightarrow> string" where
  "normalize_stdout s = (if ends_with [CHR 10] s then butlast s else s)"

definition concat_snippets :: "string \<Rightarrow> string \<Rightarrow> string" where
  "concat_snippets c t = (if ends_with [CHR 10] c then c @ t else c @ [CHR 10] @ t)"

text \<open>\<open>"AssertionError" in stderr\<close>\<close>

definition fails_assertion :: "run_result \<Rightarrow> bool" where
  "fails_assertion r \<longleftrightarrow> exit_code r \<noteq> Some 0 \<and> sublist ''AssertionError'' (run_stderr r)"

definition passes :: "run_result \<Rightarrow> bool" where
  "passes r \<longleftrightarrow> exit_code r = Some 0"

definition diff_changed_lines :: "string \<Rightarrow> string \<Rightarrow> int list" where
  "diff_changed_lines buggy fixed =
     map (\<lambda>i. int i + 1) (touched (get_opcodes (splitlines buggy) (splitlines fixed)))"

text \<open>\<open>max(5, math.ceil(line_count * 0.2))\<close>\<close>

definition rewrite_cap :: "nat \<Rightarrow> int" where
  "rewrite_cap n = max 5 \<lceil>fl (of_nat n * fl (1 / 5))\<rceil>"

section \<open>Spot the bug\<close>

text \<open>The key the diff gives, and whether it is a minimal fix.\<close>

definition derive_key :: "stb_candidate \<Rightarrow> bool \<Rightarrow> bool \<times> int list option" where
  "derive_key c has_bug =
     (let changed = diff_changed_lines (buggy_code c) (fixed_code c) in
      if has_bug then
        (if changed = [] then (False, None)
         else if rewrite_cap (length (splitlines (buggy_code c))) < int (length changed) then (False, None)
         else (True, Some changed))
      else
        (let ok = fixed_code c = buggy_code c \<and> bug_lines c = []
         in (ok, if ok then Some [] else None)))"

definition claim_check :: "stb_candidate \<Rightarrow> bool \<Rightarrow> run_result \<Rightarrow> run_result \<Rightarrow> gate_check list" where
  "claim_check c has_bug buggy_run fixed_run =
     (case buggy_result_on_divergence_input c of
        Some b \<Rightarrow>
          if has_bug then
            [(''stb_claim_matches_execution'',
              normalize_stdout (run_stdout buggy_run) = strip b \<and>
              (case fixed_result_on_divergence_input c of
                 None \<Rightarrow> False
               | Some f \<Rightarrow> normalize_stdout (run_stdout fixed_run) = strip f))]
          else []
      | None \<Rightarrow> [])"

definition validate_spot_the_bug :: "(nat \<Rightarrow> string \<Rightarrow> run_result) \<Rightarrow> stb_candidate \<Rightarrow> bool \<Rightarrow> gate_result" where
  "validate_spot_the_bug run c has_bug =
     (let bt = concat_snippets (buggy_code c) (test_code c);
          ft = concat_snippets (fixed_code c) (test_code c);
          r1a = run 0 bt; r1b = run 1 bt;
          r2a = run 2 ft; r2b = run 3 ft;
          r3a = run 4 (buggy_code c); r3b = run 5 (buggy_code c);
          (ok5, key) = derive_key c has_bug;
          checks =
            [if has_bug then (''buggy_fails_test'', fails_assertion r1a)
             else (''buggy_passes_test_when_no_bug'', passes r1a),
             (''fixed_passes_test'', passes r2a),
             (''buggy_runs_clean'', passes r3a),
             (''deterministic_double_run'', r1a = r1b \<and> r2a = r2b \<and> r3a = r3b),
             (''fix_diff_real_and_minimal'', ok5)] @ claim_check c has_bug r1a r2a;
          accepted = (\<forall>x\<in>set checks. snd x)
      in \<lparr>gr_accepted = accepted, gr_checks = checks, captured_stdout = None,
          verified_bug_lines = (if accepted then key else None),
          bug_lines_claim_mismatch =
            (has_bug \<and> diff_changed_lines (buggy_code c) (fixed_code c) \<noteq> bug_lines c),
          captured_test_output = None\<rparr>)"

section \<open>Predict the fix\<close>

text \<open>The checks of one wrong fix: it still fails, and its two runs agree.\<close>

definition variant_runs :: "(nat \<Rightarrow> string \<Rightarrow> run_result) \<Rightarrow> string \<Rightarrow> nat \<Rightarrow> string \<Rightarrow> bool \<times> bool" where
  "variant_runs run test i wrong =
     (let ra = run (4 + 2 * i) (concat_snippets wrong test);
          rb = run (5 + 2 * i) (concat_snippets wrong test)
      in (fails_assertion ra, ra = rb))"

definition variants_distinct :: "string \<Rightarrow> string \<Rightarrow> string list \<Rightarrow> bool" where
  "variants_distinct buggy fixed wrong \<longleftrightarrow>
     distinct (map strip wrong) \<and> set (map strip wrong) \<inter> {strip buggy, strip fixed} = {}"

text \<open>The names of the variants' checks carry a number in the source, and are one name here.\<close>

definition validate_predict_the_fix ::
    "(nat \<Rightarrow> string \<Rightarrow> run_result) \<Rightarrow> string \<Rightarrow> string \<Rightarrow> string \<Rightarrow> string list \<Rightarrow> gate_result" where
  "validate_predict_the_fix run buggy fixed test wrong =
     (let fa = run 0 (concat_snippets fixed test); fb = run 1 (concat_snippets fixed test);
          ba = run 2 (concat_snippets buggy test); bb = run 3 (concat_snippets buggy test);
          vs = map (\<lambda>(i, w). variant_runs run test i w) (List.enumerate 0 wrong);
          checks =
            [(''correct_fix_passes_test'', passes fa), (''buggy_fails_test'', fails_assertion ba)] @
            map (\<lambda>v. (''distractor_still_fails_test'', fst v)) vs @
            [(''deterministic_double_run'', fa = fb \<and> ba = bb \<and> (\<forall>v\<in>set vs. snd v)),
             (''distractors_distinct'', variants_distinct buggy fixed wrong)];
          accepted = (\<forall>x\<in>set checks. snd x)
      in \<lparr>gr_accepted = accepted, gr_checks = checks, captured_stdout = None, verified_bug_lines = None,
          bug_lines_claim_mismatch = False,
          captured_test_output = (if accepted \<and> fails_assertion ba then Some (run_stderr ba) else None)\<rparr>)"

section \<open>Trace\<close>

definition validate_trace :: "(nat \<Rightarrow> string \<Rightarrow> run_result) \<Rightarrow> trace_candidate \<Rightarrow> gate_result" where
  "validate_trace run c =
     (let ra = run 0 (tr_code c); rb = run 1 (tr_code c);
          captured = normalize_stdout (run_stdout ra);
          checks =
            [(''code_runs_clean'', passes ra),
             (''deterministic_double_run'', ra = rb),
             (''captured_output_matches_claim'', captured = normalize_stdout (expected_stdout c)),
             (''captured_output_distinct_from_distractors'',
              captured \<notin> set (map ch_text (filter (\<lambda>x. ch_id x \<noteq> correct_choice_id c) (choices c))))];
          accepted = (\<forall>x\<in>set checks. snd x)
      in \<lparr>gr_accepted = accepted, gr_checks = checks,
          captured_stdout = (if accepted then Some captured else None), verified_bug_lines = None,
          bug_lines_claim_mismatch = False, captured_test_output = None\<rparr>)"

section \<open>Classifying a rejection\<close>

datatype repair_class = Repairable | Fundamental

record rejection =
  rj_stage :: string
  rj_check :: string
  rj_class :: repair_class

definition repairable_checks :: "string list" where
  "repairable_checks = [''static_gate'', ''buggy_fails_test'', ''fixed_passes_test'',
     ''stb_claim_matches_execution'', ''captured_output_matches_claim'']"

definition classify :: "string \<Rightarrow> string \<Rightarrow> rejection" where
  "classify stage check =
     \<lparr>rj_stage = stage, rj_check = check,
      rj_class = (if check \<in> set repairable_checks then Repairable else Fundamental)\<rparr>"

definition classify_static :: rejection where
  "classify_static = classify ''static_gate'' ''static_gate''"

definition classify_sandbox :: "gate_result \<Rightarrow> rejection" where
  "classify_sandbox r =
     (let failing = filter (\<lambda>x. \<not> snd x) (gr_checks r) in
      if failing = [] then classify ''sandbox_gate'' ''unknown''
      else
        (let rej = classify ''sandbox_gate'' (fst (hd failing)) in
         if \<forall>x\<in>set failing. fst x \<in> set repairable_checks then rej
         else rej\<lparr>rj_class := Fundamental\<rparr>))"

definition classify_fundamental :: "string \<Rightarrow> string \<Rightarrow> rejection" where
  "classify_fundamental stage check = \<lparr>rj_stage = stage, rj_check = check, rj_class = Fundamental\<rparr>"

section \<open>The answer key\<close>

text \<open>The lines of a text whose numbers, from 1, are not in a key.\<close>

definition other_lines :: "string \<Rightarrow> int list \<Rightarrow> string list" where
  "other_lines text key =
     map ((!) (splitlines text))
       (filter (\<lambda>m. int m + 1 \<notin> set key) [0..<length (splitlines text)])"

lemma diff_changed_sound:
  "sorted_wrt (<) (diff_changed_lines b f)"
  "set (diff_changed_lines b f) \<subseteq> {1..int (length (splitlines b))}"
  "subseq (other_lines b (diff_changed_lines b f)) (splitlines f)"
proof -
  let ?ps = "touched (get_opcodes (splitlines b) (splitlines f))"
  note s = opcodes_sound [of "splitlines b" "splitlines f"]
  show "sorted_wrt (<) (diff_changed_lines b f)"
    using s(1) unfolding diff_changed_lines_def sorted_wrt_map by (rule sorted_wrt_mono_rel [rotated]) simp
  show "set (diff_changed_lines b f) \<subseteq> {1..int (length (splitlines b))}"
    using s(2) by (fastforce simp: diff_changed_lines_def)
  have "(\<lambda>m. int m + 1 \<notin> set (diff_changed_lines b f)) = (\<lambda>m. m \<notin> set ?ps)"
    by (auto simp: diff_changed_lines_def)
  then show "subseq (other_lines b (diff_changed_lines b f)) (splitlines f)"
    using s(3) by (simp add: other_lines_def untouched_def)
qed

lemma accepted_stbE:
  assumes "gr_accepted (validate_spot_the_bug run c has_bug)"
  shows "if has_bug then fails_assertion (run 0 (concat_snippets (buggy_code c) (test_code c)))
         else passes (run 0 (concat_snippets (buggy_code c) (test_code c)))"
    "passes (run 2 (concat_snippets (fixed_code c) (test_code c)))"
    "passes (run 4 (buggy_code c))"
    "fst (derive_key c has_bug)"
    "verified_bug_lines (validate_spot_the_bug run c has_bug) = snd (derive_key c has_bug)"
  using assms by (auto simp: validate_spot_the_bug_def Let_def split: prod.splits if_splits)

lemma accepted_traceE:
  assumes "gr_accepted (validate_trace run c)"
  defines "out \<equiv> normalize_stdout (run_stdout (run 0 (tr_code c)))"
  shows "passes (run 0 (tr_code c))" "run 1 (tr_code c) = run 0 (tr_code c)"
    "captured_stdout (validate_trace run c) = Some out"
    "\<And>x. x \<in> set (choices c) \<Longrightarrow> ch_text x = out \<Longrightarrow> ch_id x = correct_choice_id c"
proof -
  have *: "passes (run 0 (tr_code c)) \<and> run 0 (tr_code c) = run (Suc 0) (tr_code c) \<and>
      out = normalize_stdout (expected_stdout c) \<and>
      out \<notin> ch_text ` {x \<in> set (choices c). ch_id x \<noteq> correct_choice_id c}"
    using assms(1) by (simp add: validate_trace_def Let_def out_def) metis
  from * show "passes (run 0 (tr_code c))" by (rule conjunct1)
  from * show "run 1 (tr_code c) = run 0 (tr_code c)" by simp
  from * have "out \<notin> ch_text ` {x \<in> set (choices c). ch_id x \<noteq> correct_choice_id c}" by (elim conjE)
  then show "ch_id x = correct_choice_id c" if "x \<in> set (choices c)" "ch_text x = out" for x
    using that by (metis (mono_tags, lifting) image_eqI mem_Collect_eq)
  show "captured_stdout (validate_trace run c) = Some out"
    using assms(1) by (simp add: validate_trace_def Let_def out_def) metis
qed

lemma accepted_ptfE:
  assumes "gr_accepted (validate_predict_the_fix run buggy fixed test wrong)"
  shows "passes (run 0 (concat_snippets fixed test))"
    "fails_assertion (run 2 (concat_snippets buggy test))"
    "\<And>i. i < length wrong \<Longrightarrow> fails_assertion (run (4 + 2 * i) (concat_snippets (wrong ! i) test))"
    "distinct (map strip (buggy # wrong))" "distinct (map strip (fixed # wrong))"
proof -
  let ?vs = "map (\<lambda>(i, w). variant_runs run test i w) (List.enumerate 0 wrong)"
  have all: "passes (run 0 (concat_snippets fixed test)) \<and> fails_assertion (run 2 (concat_snippets buggy test)) \<and>
      (\<forall>v\<in>set ?vs. fst v) \<and> variants_distinct buggy fixed wrong"
    using assms by (auto simp: validate_predict_the_fix_def Let_def)
  then show "passes (run 0 (concat_snippets fixed test))"
    "fails_assertion (run 2 (concat_snippets buggy test))"
    "distinct (map strip (buggy # wrong))" "distinct (map strip (fixed # wrong))"
    by (auto simp: variants_distinct_def)
  show "fails_assertion (run (4 + 2 * i) (concat_snippets (wrong ! i) test))" if "i < length wrong" for i
  proof -
    have "variant_runs run test i (wrong ! i) \<in> set ?vs"
      using that by (force simp: in_set_enumerate_eq)
    then have "fst (variant_runs run test i (wrong ! i))" using all by blast
    then show ?thesis by (simp add: variant_runs_def Let_def)
  qed
qed

text \<open>
  The key of a fix that only inserts lines need not be empty: here the fix adds four lines and
  changes none, but the longest common run pairs the last three lines with the inserted copy,
  and the untouched first line becomes the key.
\<close>

lemma insertion_can_change_a_line:
  fixes ls :: "char list \<Rightarrow> string"
  defines "ls cs \<equiv> concat (map (\<lambda>c. [c, CHR 10]) cs)"
  shows "subseq (splitlines (ls ''pqrs'')) (splitlines (ls ''qrspqzrs''))"
    "diff_changed_lines (ls ''pqrs'') (ls ''qrspqzrs'') = [1]"
  unfolding ls_def by code_simp+

text \<open>
  C29: An accepted bug has an answer key that execution and the diff stand for, not the generator's
  claim: the test failed on the buggy program with an assertion and passed on the fixed one, and
  the key is a nonempty, strictly increasing list of line numbers of the buggy program, no longer
  than the cap on a minimal fix, such that the lines outside the key occur in this order in the
  fixed program.
\<close>

theorem verified_key_is_where_the_fix_differs:
  assumes "gr_accepted (validate_spot_the_bug run c True)"
  shows "\<exists>key. verified_bug_lines (validate_spot_the_bug run c True) = Some key \<and> key \<noteq> [] \<and>
    sorted_wrt (<) key \<and> set key \<subseteq> {1..int (length (splitlines (buggy_code c)))} \<and>
    int (length key) \<le> rewrite_cap (length (splitlines (buggy_code c))) \<and>
    subseq (other_lines (buggy_code c) key) (splitlines (fixed_code c)) \<and>
    fails_assertion (run 0 (concat_snippets (buggy_code c) (test_code c))) \<and>
    passes (run 2 (concat_snippets (fixed_code c) (test_code c)))"
proof -
  let ?key = "diff_changed_lines (buggy_code c) (fixed_code c)"
  note acc = accepted_stbE [OF assms]
  have "?key \<noteq> []" "int (length ?key) \<le> rewrite_cap (length (splitlines (buggy_code c)))"
      "snd (derive_key c True) = Some ?key"
    using acc(4) by (auto simp: derive_key_def Let_def split: if_splits)
  then show ?thesis using acc(1,2,5) diff_changed_sound by (intro exI [of _ ?key]) simp
qed

definition sample_stb :: stb_candidate where
  "sample_stb = \<lparr>buggy_code = [CHR ''a'', CHR 10, CHR ''b''], fixed_code = [CHR ''a'', CHR 10, CHR ''c''],
     bug_lines = [2], test_code = ''t'', sc_context_note = [],
     reason_options = map (\<lambda>i. \<lparr>ro_id = i, ro_text = i\<rparr>) [''a'', ''b'', ''c'', ''d''],
     correct_reason_id = ''a'', sc_draft = \<lparr>sd_summary = [], sd_principle = [], line_notes = []\<rparr>,
     sc_concepts = [''x''], sc_self_difficulty = 3, bug_trigger_condition = None, divergence_input = None,
     buggy_result_on_divergence_input = None, fixed_result_on_divergence_input = None,
     divergence_justification = None\<rparr>"

text \<open>A sandbox in which exactly the programs that contain the wrong line and the test fail.\<close>

definition sample_run :: "nat \<Rightarrow> string \<Rightarrow> run_result" where
  "sample_run n p =
     (if sublist ''b'' p \<and> sublist ''t'' p
      then \<lparr>exit_code = Some 1, run_stdout = [], run_stderr = ''AssertionError''\<rparr>
      else \<lparr>exit_code = Some 0, run_stdout = [], run_stderr = []\<rparr>)"

lemma sample_changed: "diff_changed_lines (buggy_code sample_stb) (fixed_code sample_stb) = [2]"
  by (simp add: sample_stb_def) code_simp

lemma sample_accepted: "gr_accepted (validate_spot_the_bug sample_run sample_stb True)"
  by code_simp

lemma verified_key_is_where_the_fix_differs_witness:
  "\<exists>key. verified_bug_lines (validate_spot_the_bug sample_run sample_stb True) = Some key \<and> key \<noteq> []"
  using verified_key_is_where_the_fix_differs [OF sample_accepted] by blast

end
