(* ===== verification/Static_Gate.thy ===== *)
theory Static_Gate
  imports Sandbox_Gate
begin

text \<open>
  The static gate, \<open>pipeline/static_gate.py\<close>: the scan of a candidate's source text before anything
  runs. Parsing belongs to the Python library: \<open>ast_scan\<close> gives, for a text that parses, what
  \<open>ast.walk\<close> meets and the identifiers, comments and docstrings; the checks on them, the split of an
  identifier into words and the searches of the regular expressions are defined here. A violation
  is the kind of its message and the text it names.
\<close>

section \<open>What the parser gives\<close>

datatype ast_node =
    Import "string list"
  | ImportFrom "string option"
  | CallName string
  | CallAttr string
  | SetDisplay
  | OtherNode

record ast_scan =
  nodes :: "ast_node list"
  identifiers :: "string list"
  comments :: "string list"
  docstrings :: "string list"

definition FORBIDDEN_IMPORTS :: "string list" where
  "FORBIDDEN_IMPORTS = [''random'', ''time'', ''os'', ''sys'', ''io'', ''socket'', ''socketserver'',
     ''ssl'', ''threading'', ''asyncio'', ''subprocess'', ''multiprocessing'', ''uuid'', ''urllib'',
     ''http'', ''ftplib'', ''smtplib'']"

definition FORBIDDEN_CALL_NAMES :: "string list" where
  "FORBIDDEN_CALL_NAMES =
     [''input'', ''id'', ''exec'', ''eval'', ''compile'', ''open'', ''__import__'']"

definition FORBIDDEN_ATTR_CALLS :: "string list" where
  "FORBIDDEN_ATTR_CALLS = [''now'', ''today'', ''utcnow'']"

definition HINT_WORDS :: "string list" where
  "HINT_WORDS = [''bug'', ''fix'', ''wrong'', ''careful'', ''note'']"

definition hint_forms :: "string list" where
  "hint_forms = [''bug'', ''bugs'', ''buggy'', ''fix'', ''fixes'', ''fixed'', ''fixing'', ''wrong'',
     ''wrongly'', ''careful'', ''carefully'', ''note'', ''notes'', ''noted'', ''noting'']"

definition PROFANITY :: "string list" where
  "PROFANITY = [''fuck'', ''shit'', ''asshole'', ''bitch'']"

section \<open>Words of an identifier\<close>

definition low_or_digit :: "char \<Rightarrow> bool" where
  "low_or_digit c \<longleftrightarrow> is_lower c \<or> is_digit c"

text \<open>
  The length of the match of \<open>[A-Z]?[a-z0-9]+|[A-Z]+(?![a-z])\<close> at the start of a text, 0 for none:
  a run of capitals gives up its last letter when a small letter follows.
\<close>

definition camel_match :: "string \<Rightarrow> nat" where
  "camel_match s =
     (let caps = length (takeWhile is_upper s);
          small = length (takeWhile low_or_digit (drop (min 1 caps) s))
      in if 0 < small then min 1 caps + small
         else if caps = 0 then 0
         else (case drop caps s of
                 c # _ \<Rightarrow> if is_lower c then caps - 1 else caps
               | [] \<Rightarrow> caps))"

function camel_parts :: "string \<Rightarrow> string list" where
  "camel_parts s =
     (if s = [] then []
      else if camel_match s = 0 then camel_parts (tl s)
      else take (camel_match s) s # camel_parts (drop (camel_match s) s))"
  by pat_completeness auto
termination by (relation "measure length") auto

declare camel_parts.simps [simp del]

definition split_identifier :: "string \<Rightarrow> string list" where
  "split_identifier name = map lower (concat (map camel_parts (split_on (CHR ''_'') name)))"

section \<open>Searches\<close>

definition word_char :: "char \<Rightarrow> bool" where
  "word_char c \<longleftrightarrow> is_alnum c \<or> c = CHR ''_'' \<or>
     code c \<in> {170, 178, 179, 181, 185, 186, 188, 189, 190} \<or> 192 \<le> code c \<and> code c \<noteq> 215 \<and> code c \<noteq> 247"

text \<open>\<open>\\bword\\b\<close> without regard to case, somewhere in the text.\<close>

definition has_word :: "string \<Rightarrow> string \<Rightarrow> bool" where
  "has_word w s \<longleftrightarrow>
     (\<exists>i\<in>set [0..<Suc (length s)].
        starts_with w (lower (drop i s)) \<and>
        (i = 0 \<or> \<not> word_char (s ! (i - 1))) \<and>
        (case drop (i + length w) s of [] \<Rightarrow> True | c # _ \<Rightarrow> \<not> word_char c))"

datatype pattern_item = One "char \<Rightarrow> bool" | Opt "char \<Rightarrow> bool" | Many "char \<Rightarrow> bool"

function match_at :: "pattern_item list \<Rightarrow> string \<Rightarrow> bool" where
  "match_at [] s = True"
| "match_at (One p # is) s = (case s of [] \<Rightarrow> False | c # t \<Rightarrow> p c \<and> match_at is t)"
| "match_at (Opt p # is) s = (match_at is s \<or> (case s of [] \<Rightarrow> False | c # t \<Rightarrow> p c \<and> match_at is t))"
| "match_at (Many p # is) s =
     (match_at is s \<or> (case s of [] \<Rightarrow> False | c # t \<Rightarrow> p c \<and> match_at (Many p # is) t))"
  by pat_completeness auto
termination by (relation "measure (\<lambda>(is, s). length is + length s)") auto

definition occurs :: "pattern_item list \<Rightarrow> string \<Rightarrow> bool" where
  "occurs p s \<longleftrightarrow> (\<exists>i\<in>set [0..<Suc (length s)]. match_at p (drop i s))"

definition chars_of :: "string \<Rightarrow> pattern_item list" where
  "chars_of w = map (\<lambda>c. One (\<lambda>x. x = c)) w"

definition any_case :: "string \<Rightarrow> pattern_item list" where
  "any_case w = map (\<lambda>c. One (\<lambda>x. lower_char x = c)) w"

definition quote_char :: "char \<Rightarrow> bool" where
  "quote_char c \<longleftrightarrow> code c = 39 \<or> code c = 34"

text \<open>\<open>\\s*=\\s*['"][^'"]+['"]\<close>\<close>

definition assigned_text :: "pattern_item list" where
  "assigned_text = [Many py_space, One (\<lambda>x. x = CHR ''=''), Many py_space, One quote_char,
     One (\<lambda>x. \<not> quote_char x), Many (\<lambda>x. \<not> quote_char x), One quote_char]"

definition secret_patterns :: "(string \<times> pattern_item list) list" where
  "secret_patterns =
     [(''AKIA'', chars_of ''AKIA'' @ replicate 16 (One (\<lambda>x. is_digit x \<or> is_upper x))),
      (''sk-'', chars_of ''sk-'' @ replicate 20 (One is_alnum)),
      (''api key'', any_case ''api'' @ [Opt (\<lambda>x. x = CHR ''_'' \<or> x = CHR ''-'')] @ any_case ''key'' @
         assigned_text),
      (''password'', any_case ''password'' @ assigned_text)]"

section \<open>The check\<close>

datatype violation =
    SyntaxViolation
  | OverBudget nat
  | ForbiddenImport string
  | ForbiddenCall string
  | SetUsed
  | HintingName string
  | HintingComment string
  | HintingDocstring string
  | SecretFound string
  | Profane string

definition import_root :: "string \<Rightarrow> string" where
  "import_root m = hd (split_on (CHR ''.'') m)"

fun node_violations :: "ast_node \<Rightarrow> violation list" where
  "node_violations (Import ms) =
     map ForbiddenImport (filter (\<lambda>m. import_root m \<in> set FORBIDDEN_IMPORTS) ms)"
| "node_violations (ImportFrom m) =
     (case m of
        None \<Rightarrow> []
      | Some m \<Rightarrow> if import_root m \<in> set FORBIDDEN_IMPORTS then [ForbiddenImport m] else [])"
| "node_violations (CallName f) = (if f \<in> set FORBIDDEN_CALL_NAMES then [ForbiddenCall f] else [])"
| "node_violations (CallAttr f) = (if f \<in> set FORBIDDEN_ATTR_CALLS then [ForbiddenCall f] else [])"
| "node_violations SetDisplay = [SetUsed]"
| "node_violations OtherNode = []"

text \<open>A budget is an optional lower bound and an upper bound; none at all skips the length check.\<close>

definition budget_violations :: "string \<Rightarrow> (int option \<times> int) option \<Rightarrow> violation list" where
  "budget_violations c budget =
     (case budget of
        None \<Rightarrow> []
      | Some (lo, hi) \<Rightarrow>
          (let n = length (splitlines c) in
           if (case lo of None \<Rightarrow> False | Some l \<Rightarrow> int n < l) \<or> hi < int n then [OverBudget n] else []))"

definition hint_words_in :: "(string \<Rightarrow> violation) \<Rightarrow> string list \<Rightarrow> violation list" where
  "hint_words_in f ts = concat (map (\<lambda>t. map f (filter (\<lambda>w. has_word w t) HINT_WORDS)) ts)"

definition static_check ::
    "(string \<Rightarrow> ast_scan option) \<Rightarrow> string \<Rightarrow> (int option \<times> int) option \<Rightarrow> violation list" where
  "static_check scan c budget =
     (case scan c of
        None \<Rightarrow> [SyntaxViolation]
      | Some a \<Rightarrow>
          budget_violations c budget @
          concat (map node_violations (nodes a)) @
          map HintingName
            (filter (\<lambda>n. set (split_identifier n) \<inter> set hint_forms \<noteq> {}) (identifiers a)) @
          hint_words_in HintingComment (comments a) @
          hint_words_in HintingDocstring (docstrings a) @
          map (SecretFound \<circ> fst) (filter (\<lambda>(_, p). occurs p c) secret_patterns) @
          map Profane (filter (\<lambda>w. sublist w (lower c)) PROFANITY))"

text \<open>The gate of a candidate: the upper budget on what the user reads, everything else on both texts.\<close>

definition static_gate_check ::
    "(string \<Rightarrow> ast_scan option) \<Rightarrow> pipeline_candidate \<Rightarrow> exercise_spec \<Rightarrow> violation list" where
  "static_gate_check scan c spec =
     (let max_only = Some (None, line_budget_max spec) in
      case c of
        STB s \<Rightarrow> static_check scan (buggy_code s) max_only @ static_check scan (fixed_code s) None
      | Trace t \<Rightarrow> static_check scan (tr_code t) max_only)"


definition sample_scan :: "string \<Rightarrow> ast_scan option" where
  "sample_scan c = Some \<lparr>nodes = [Import [''math''], OtherNode, CallName ''print''],
     identifiers = [''prefix'', ''totalFee''], comments = [], docstrings = [''footnote'']\<rparr>"


end
