(* ===== verification/Semantic_Gates.thy ===== *)
theory Semantic_Gates
  imports Static_Gate
begin

text \<open>
  The semantic gates, \<open>pipeline/semantic_gates.py\<close>, their order for each type in
  \<open>pipeline/orchestrator.py\<close>, and the quality score, \<open>pipeline/scoring.py\<close>. The judge model is a
  stream of replies, one per gate; parsing a reply and checking its field types are parameters, the
  bounds on a field and the verdicts are definitions. The details of a verdict are report text.
\<close>

section \<open>Verdicts\<close>

datatype gate_verdict = Pass | Reject | Flag

record defect =
  df_lines :: "int list"
  df_description :: string
  df_exposed_by :: string

record solver_answer =
  sa_line :: "int option"
  sa_reason :: "string option"
  sa_choice :: "string option"

record solver_response =
  sv_answer :: solver_answer
  sv_confidence :: rat
  sv_problems :: "string list"

record judge_env =
  judge_loads :: "string \<Rightarrow> json option"
  audit_shape :: "json \<Rightarrow> defect list option"
  solver_shape :: "json \<Rightarrow> solver_response option"
  reasons_shape :: "json \<Rightarrow> (string \<times> string) list option"

text \<open>The JSON value \<open>null\<close> counts as not parseable.\<close>

definition parsed :: "judge_env \<Rightarrow> string \<Rightarrow> json option" where
  "parsed J raw = (case parse_json (judge_loads J) raw of Some JNull \<Rightarrow> None | p \<Rightarrow> p)"

definition defect_line_match_window :: int where "defect_line_match_window = 2"

definition defect_lines_match_bug_region :: "int list \<Rightarrow> int list \<Rightarrow> bool" where
  "defect_lines_match_bug_region reported bugs \<longleftrightarrow>
     bugs \<noteq> [] \<and>
     (set reported \<inter> set bugs \<noteq> {} \<or>
      (\<exists>l\<in>set reported. Min (set bugs) - defect_line_match_window \<le> l \<and>
                        l \<le> Max (set bugs) + defect_line_match_window))"

definition defect_audit :: "judge_env \<Rightarrow> string \<Rightarrow> bool \<Rightarrow> int list \<Rightarrow> gate_verdict \<times> defect list option" where
  "defect_audit J raw has_bug bugs =
     (case Option.bind (parsed J raw) (audit_shape J) of
        None \<Rightarrow> (Reject, None)
      | Some ds \<Rightarrow>
          ((if has_bug then
              (if ds = [] then Flag
               else if length ds = 1 \<and> defect_lines_match_bug_region (df_lines (hd ds)) bugs then Pass
               else Reject)
            else (if ds = [] then Pass else Flag)), Some ds))"

definition valid_solver_response :: "judge_env \<Rightarrow> string \<Rightarrow> solver_response option" where
  "valid_solver_response J raw =
     (case Option.bind (parsed J raw) (solver_shape J) of
        None \<Rightarrow> None
      | Some r \<Rightarrow> if 0 \<le> sv_confidence r \<and> sv_confidence r \<le> 1 then Some r else None)"

text \<open>\<open>compare_keys={"reason_id"}\<close>\<close>

definition only_reason :: "solver_answer \<Rightarrow> solver_answer" where
  "only_reason a = a\<lparr>sa_line := None, sa_choice := None\<rparr>"

definition answer_matches ::
    "solver_answer \<Rightarrow> solver_answer \<Rightarrow> bool \<Rightarrow> int list option \<Rightarrow> bool" where
  "answer_matches given key reason_only acceptable =
     (let a = (if reason_only then only_reason given else given);
          k = (if reason_only then only_reason key else key)
      in case acceptable of
           None \<Rightarrow> a = k
         | Some ls \<Rightarrow>
             (case sa_line a of None \<Rightarrow> False | Some l \<Rightarrow> l \<in> set ls) \<and>
             a\<lparr>sa_line := None\<rparr> = k\<lparr>sa_line := None\<rparr>)"

definition solver ::
    "judge_env \<Rightarrow> string \<Rightarrow> solver_answer \<Rightarrow> bool \<Rightarrow> int list option \<Rightarrow> gate_verdict \<times> solver_response option" where
  "solver J raw key reason_only acceptable =
     (case valid_solver_response J raw of
        None \<Rightarrow> (Reject, None)
      | Some r \<Rightarrow>
          ((if sv_problems r \<noteq> [] then Flag
            else if answer_matches (sv_answer r) key reason_only acceptable then Pass
            else if fl (8 / 10) \<le> sv_confidence r then Reject
            else Flag), Some r))"

text \<open>A dict from the verdicts: a repeated id keeps its first place and its last classification.\<close>

definition classification :: "(string \<times> string) list \<Rightarrow> string \<Rightarrow> string option" where
  "classification vs = map_of (rev vs)"

definition reasons :: "judge_env \<Rightarrow> string \<Rightarrow> string \<Rightarrow> gate_verdict" where
  "reasons J raw key =
     (case Option.bind (parsed J raw) (reasons_shape J) of
        None \<Rightarrow> Reject
      | Some vs \<Rightarrow>
          (let ids = remdups (map fst vs);
               correct = filter (\<lambda>i. classification vs i = Some ''correct'') ids
           in if \<exists>i\<in>set ids. classification vs i = Some ''partially_defensible'' then Reject
              else if correct = [key] then Pass
              else Reject))"

section \<open>The chain of a type\<close>

record semantic_outcome =
  so_survived :: bool
  so_reject_gate :: string
  so_confidence :: rat
  so_matched :: bool
  so_flagged :: bool
  so_audit :: "defect list option"

definition confidence_of :: "solver_response option \<Rightarrow> rat" where
  "confidence_of r = (case r of None \<Rightarrow> 0 | Some r \<Rightarrow> sv_confidence r)"

definition stb_key :: "stb_candidate \<Rightarrow> bool \<Rightarrow> int list \<Rightarrow> solver_answer" where
  "stb_key c has_line ls = \<lparr>sa_line = (if has_line then Some (hd ls) else None),
     sa_reason = Some (correct_reason_id c), sa_choice = None\<rparr>"

text \<open>Number \<open>n\<close> of the replies goes to the first gate that runs.\<close>

definition run_stb_semantic_gates ::
    "judge_env \<Rightarrow> (nat \<Rightarrow> string) \<Rightarrow> nat \<Rightarrow> stb_candidate \<Rightarrow> bool \<Rightarrow> int list \<Rightarrow> semantic_outcome \<times> nat" where
  "run_stb_semantic_gates J replies n c has_bug verified =
     (let (v1, ds) = defect_audit J (replies n) has_bug verified;
          failed = \<lparr>so_survived = False, so_reject_gate = ''defect_audit'', so_confidence = 0,
                    so_matched = False, so_flagged = (v1 = Flag), so_audit = ds\<rparr>
      in if v1 = Reject then (failed, n + 1)
         else
           (let has_line = has_bug \<and> verified \<noteq> [];
                (v2, r) = solver J (replies (n + 1)) (stb_key c has_line verified) (\<not> has_line)
                            (if has_line then Some verified else None);
                judged = failed\<lparr>so_confidence := confidence_of r, so_matched := (v2 = Pass),
                                so_flagged := (v1 = Flag \<or> v2 = Flag)\<rparr>
            in if v2 = Reject then (judged\<lparr>so_reject_gate := ''solver''\<rparr>, n + 2)
               else if reasons J (replies (n + 2)) (correct_reason_id c) = Reject
               then (judged\<lparr>so_reject_gate := ''reasons''\<rparr>, n + 3)
               else (judged\<lparr>so_survived := True, so_reject_gate := []\<rparr>, n + 3)))"

definition run_trace_semantic_gates ::
    "judge_env \<Rightarrow> (nat \<Rightarrow> string) \<Rightarrow> nat \<Rightarrow> trace_candidate \<Rightarrow> semantic_outcome \<times> nat" where
  "run_trace_semantic_gates J replies n c =
     (let (v, r) = solver J (replies n)
            \<lparr>sa_line = None, sa_reason = None, sa_choice = Some (correct_choice_id c)\<rparr> False None
      in (\<lparr>so_survived = (v \<noteq> Reject), so_reject_gate = (if v = Reject then ''solver'' else []),
           so_confidence = confidence_of r, so_matched = (v = Pass), so_flagged = (v = Flag),
           so_audit = None\<rparr>, n + 1))"

section \<open>The quality score\<close>

record score_signals =
  sig_type :: string
  sig_difficulty :: int
  sig_confidence :: rat
  sig_matched :: bool
  sig_line_count :: nat
  sig_bug_lines :: "int list"
  sig_claim_mismatch :: bool
  sig_flagged :: bool

record quality_score =
  qs_score :: rat
  qs_breakdown :: "(string \<times> rat) list"
  qs_miscalibrated :: bool
  qs_empirical :: int

definition decimal2 :: "int \<Rightarrow> rat" where
  "decimal2 n = fl (of_int n / 100)"

definition empirical_difficulty_estimate :: "rat \<Rightarrow> bool \<Rightarrow> int" where
  "empirical_difficulty_estimate conf matched =
     max 1 (min 10 (rhe (fl (1 + fl (9 * fl (1 - (if matched then conf else 0)))))))"

text \<open>The adjustments that apply, in the order of the code.\<close>

definition adjustments :: "score_signals \<Rightarrow> (string \<times> rat) list" where
  "adjustments s =
     (let hard = 7 \<le> sig_difficulty s \<and> sig_matched s; c = sig_confidence s in
      (if hard \<and> decimal2 90 \<le> c then [(''breezed_hard'', - decimal2 40)]
       else if hard \<and> c \<le> decimal2 60 then [(''genuine_struggle_hard'', decimal2 15)] else []) @
      (if sig_type s = ''spot_the_bug'' then
         (if sig_bug_lines s \<noteq> [] \<and> Min (set (sig_bug_lines s)) \<le> 2
          then [(''bug_in_first_two_lines'', - decimal2 20)] else []) @
         (if sig_claim_mismatch s then [(''claim_mismatch'', - decimal2 15)] else [])
       else []) @
      (if 6 \<le> sig_difficulty s \<and> sig_line_count s < 8
       then [(''short_code_at_high_difficulty'', - decimal2 20)] else []) @
      (if sig_flagged s then [(''semantic_flag'', - decimal2 25)] else []))"

definition score_survivor :: "score_signals \<Rightarrow> quality_score" where
  "score_survivor s =
     \<lparr>qs_score = max 0 (min 1 (foldl (\<lambda>acc (_, d). fl (acc + d)) 1 (adjustments s))),
      qs_breakdown = adjustments s,
      qs_miscalibrated = (7 \<le> sig_difficulty s \<and> sig_matched s \<and> decimal2 90 \<le> sig_confidence s),
      qs_empirical = empirical_difficulty_estimate (sig_confidence s) (sig_matched s)\<rparr>"

section \<open>Facts\<close>

lemma score_range: "0 \<le> qs_score (score_survivor s)" "qs_score (score_survivor s) \<le> 1"
  "1 \<le> qs_empirical (score_survivor s)" "qs_empirical (score_survivor s) \<le> 10"
  by (simp_all add: score_survivor_def empirical_difficulty_estimate_def)

lemma solver_confidence_range:
  "solver J raw key ro acc = (v, r) \<Longrightarrow> 0 \<le> confidence_of r \<and> confidence_of r \<le> 1"
  by (auto simp: solver_def valid_solver_response_def confidence_of_def split: option.splits if_splits)

text \<open>What a candidate that survives its chain was judged to be.\<close>

lemma stb_survives:
  assumes "run_stb_semantic_gates J replies n c has_bug verified = (out, m)" "so_survived out"
  shows "fst (defect_audit J (replies n) has_bug verified) \<noteq> Reject"
    "reasons J (replies (n + 2)) (correct_reason_id c) = Pass" "m = n + 3"
proof -
  have not_flag: "reasons J r k \<noteq> Flag" for r k by (simp add: reasons_def Let_def split: option.splits)
  show "fst (defect_audit J (replies n) has_bug verified) \<noteq> Reject" "m = n + 3"
    using assms by (auto simp: run_stb_semantic_gates_def Let_def split: prod.splits if_splits)
  have "reasons J (replies (n + 2)) (correct_reason_id c) \<noteq> Reject"
    using assms by (auto simp: run_stb_semantic_gates_def Let_def split: prod.splits if_splits)
  then show "reasons J (replies (n + 2)) (correct_reason_id c) = Pass"
    using not_flag by (cases "reasons J (replies (n + 2)) (correct_reason_id c)") auto
qed

lemma semantic_calls:
  "run_stb_semantic_gates J replies n c has_bug verified = (out, m) \<Longrightarrow> n \<le> m"
  "run_trace_semantic_gates J replies n t = (out, m) \<Longrightarrow> n \<le> m"
  by (auto simp: run_stb_semantic_gates_def run_trace_semantic_gates_def Let_def split: prod.splits if_splits)

end
