(* ===== verification/Publish.thy ===== *)
theory Publish
  imports Semantic_Gates "HOL-Library.List_Lexorder" "HOL-Library.Char_ord"
begin

text \<open>
  How an accepted candidate becomes a row of the table of exercises: the explanations
  (\<open>pipeline/explain.py\<close>), the payload, the grading object and the shuffle of the choices
  (\<open>pipeline/publish.py\<close>) and the derivation of a \<open>predict_the_fix\<close> from a published bug
  (\<open>pipeline/predict_the_fix.py\<close>). The draws of a shuffle are a list of positions, and hashes,
  the stored reports, report texts and the fresh id of a row are arguments.
\<close>

section \<open>Explanations\<close>

definition stb_mismatch :: "stb_candidate \<Rightarrow> bool \<Rightarrow> int list \<Rightarrow> bool" where
  "stb_mismatch c has_bug verified \<longleftrightarrow>
     has_bug \<and> set (map fst (line_notes (sc_draft c))) \<inter> set verified = {}"

definition confirmed_by :: "bool \<Rightarrow> string" where
  "confirmed_by has_bug =
     (if has_bug
      then ''sandbox_execution (twin-snippet: failing test on buggy code, passing on fixed code)''
      else ''sandbox_execution (test passes on the code as written; defect_audit confirmed zero defects)'')"

definition finalize_stb_explanation ::
    "string \<Rightarrow> stb_candidate \<Rightarrow> bool \<Rightarrow> int list \<Rightarrow> defect list option \<Rightarrow> jobj" where
  "finalize_stb_explanation detail c has_bug verified audit =
     [(''summary'', JStr (sd_summary (sc_draft c))),
      (''principle'', JStr (sd_principle (sc_draft c))),
      (''line_notes'', JArr (map (\<lambda>(l, t). JObj [(''line'', JInt l), (''note'', JStr t)])
         (line_notes (sc_draft c)))),
      (''verified'', JObj
         ([(''bug_lines'', JArr (map JInt verified)), (''confirmed_by'', JStr (confirmed_by has_bug))] @
          (case audit of
             Some (d # _) \<Rightarrow>
               [(''confirmed_defect_description'', JStr (df_description d)),
                (''confirmed_defect_exposed_by'', JStr (df_exposed_by d))]
           | _ \<Rightarrow> []))),
      (''mismatch_flagged'', JBool (stb_mismatch c has_bug verified)),
      (''mismatch_detail'', if stb_mismatch c has_bug verified then JStr detail else JNull)]"

text \<open>The explanation of a trace, for the \<open>why_wrong\<close> notes it is to carry.\<close>

definition finalize_trace_explanation ::
    "string \<Rightarrow> trace_candidate \<Rightarrow> string \<Rightarrow> (string \<times> string) list \<Rightarrow> jobj" where
  "finalize_trace_explanation detail c captured wrong =
     (let mismatch = \<not> sublist captured (td_summary (tr_draft c)) in
      [(''summary'', JStr (td_summary (tr_draft c))),
       (''principle'', JStr (td_principle (tr_draft c))),
       (''trace_table'', JArr (map (\<lambda>(l, t). JObj [(''line'', JInt l), (''state'', JStr t)])
          (trace_table (tr_draft c)))),
       (''why_wrong'', JArr (map (\<lambda>(i, t). JObj [(''choice_id'', JStr i), (''note'', JStr t)]) wrong)),
       (''verified'', JObj [(''captured_stdout'', JStr captured),
          (''confirmed_by'', JStr ''sandbox_execution (double-run determinism verified)'')]),
       (''mismatch_flagged'', JBool mismatch),
       (''mismatch_detail'', if mismatch then JStr detail else JNull)])"

section \<open>Spot the bug\<close>

definition option_json :: "reason_option \<Rightarrow> json" where
  "option_json o' = JObj [(''id'', JStr (ro_id o')), (''text'', JStr (ro_text o'))]"

definition stb_payload :: "stb_candidate \<Rightarrow> jobj" where
  "stb_payload c =
     [(''code'', JStr (buggy_code c)), (''context_note'', JStr (sc_context_note c)),
      (''answer_mode'', JStr ''line_select_plus_reason''),
      (''reason_options'', JArr (map option_json (reason_options c)))]"

definition stb_grading :: "(string \<Rightarrow> string) \<Rightarrow> stb_candidate \<Rightarrow> int list \<Rightarrow> json \<Rightarrow> jobj" where
  "stb_grading sha c verified report =
     [(''mode'', JStr ''deterministic''), (''correct_lines'', JArr (map JInt verified)),
      (''correct_reason_id'', JStr (correct_reason_id c)),
      (''artifacts'', JObj [(''failing_test'', JStr (test_code c)), (''fixed_code'', JStr (fixed_code c)),
         (''fixed_code_hash'', JStr (sha (fixed_code c))), (''sandbox_checks'', report)])]"

section \<open>The shuffle of a trace's choices\<close>

text \<open>\<open>rng.shuffle(xs)\<close> for drawn positions: the entry at each of them, in this order.\<close>

definition shuffled :: "nat list \<Rightarrow> 'a list \<Rightarrow> 'a list" where
  "shuffled ps xs = map ((!) xs) ps"

definition is_shuffle :: "nat list \<Rightarrow> nat \<Rightarrow> bool" where
  "is_shuffle ps n \<longleftrightarrow> distinct ps \<and> set ps = {..<n}"

record choice_entry =
  old_id :: string
  ce_text :: string
  ce_misconception :: "string option"
  ce_correct :: bool

definition trace_entries :: "trace_candidate \<Rightarrow> string \<Rightarrow> choice_entry list" where
  "trace_entries c captured =
     map (\<lambda>x. \<lparr>old_id = ch_id x,
               ce_text = (if ch_id x = correct_choice_id c then captured else ch_text x),
               ce_misconception = misconception x, ce_correct = (ch_id x = correct_choice_id c)\<rparr>)
       (choices c)"

text \<open>
  The choices with their new ids, the new id of the correct one (the empty text when there is
  none) and the pairs of an old and its new id.
\<close>

definition reassign_shuffled_choice_ids ::
    "nat list \<Rightarrow> choice_entry list \<Rightarrow> choice list \<times> string \<times> (string \<times> string) list" where
  "reassign_shuffled_choice_ids ps es =
     (let moved = shuffled ps es;
          numbered = zip (sort (map old_id moved)) moved
      in (map (\<lambda>(i, e). \<lparr>ch_id = i, ch_text = ce_text e, misconception = ce_misconception e\<rparr>) numbered,
          foldl (\<lambda>k (i, e). if ce_correct e then i else k) [] numbered,
          map (\<lambda>(i, e). (old_id e, i)) numbered))"

definition remap_why_wrong :: "(string \<times> string) list \<Rightarrow> (string \<times> string) list \<Rightarrow> (string \<times> string) list" where
  "remap_why_wrong remap notes =
     map (\<lambda>(old, t). (case map_of (rev remap) old of None \<Rightarrow> old | Some new \<Rightarrow> new, t)) notes"

definition choice_json :: "choice \<Rightarrow> json" where
  "choice_json x = JObj [(''id'', JStr (ch_id x)), (''text'', JStr (ch_text x)),
     (''misconception'', case misconception x of None \<Rightarrow> JNull | Some m \<Rightarrow> JStr m)]"

definition trace_payload :: "trace_candidate \<Rightarrow> choice list \<Rightarrow> jobj" where
  "trace_payload c xs =
     [(''code'', JStr (tr_code c)), (''context_note'', JStr (tr_context_note c)),
      (''question'', JStr (question c)), (''choices'', JArr (map choice_json xs))]"

definition trace_grading :: "string \<Rightarrow> string \<Rightarrow> json \<Rightarrow> jobj" where
  "trace_grading correct captured report =
     [(''mode'', JStr ''deterministic''), (''correct_choice_id'', JStr correct),
      (''captured_stdout'', JStr captured), (''artifacts'', JObj [(''sandbox_checks'', report)])]"

section \<open>The row\<close>

definition bug_mechanism :: "stb_candidate \<Rightarrow> string option" where
  "bug_mechanism c = map_option ro_text (find (\<lambda>o'. ro_id o' = correct_reason_id c) (reason_options c))"

definition new_exercise ::
    "nat \<Rightarrow> string \<Rightarrow> int \<Rightarrow> string list \<Rightarrow> jobj \<Rightarrow> jobj \<Rightarrow> jobj \<Rightarrow> jobj \<Rightarrow> string \<Rightarrow> exercise" where
  "new_exercise i ty difficulty concepts source payload grading explanation path =
     \<lparr>ex_id = i, ex_version = 1, ex_language = ''python'', ex_type = ty, ex_grading_mode = ''deterministic'',
      ex_difficulty_authored = difficulty, ex_difficulty_empirical = None, ex_concepts = concepts,
      ex_tags = [], ex_est_time_s = 90, ex_status = InReview, ex_source = source, ex_payload = payload,
      ex_grading = grading, ex_explanation = explanation, validation_report_url = Some path,
      human_reviewed = False, validated_at = None, published_at = None\<rparr>"

record publish_env =
  sha256 :: "string \<Rightarrow> string"
  report_path :: "nat \<Rightarrow> string"
  report_texts :: string
  sandbox_report :: "gate_result \<Rightarrow> json"
  taxonomy_version :: string
  prompt_id :: string
  origin :: string

definition source_json :: "publish_env \<Rightarrow> string \<Rightarrow> string \<Rightarrow> jobj" where
  "source_json P model content_hash =
     [(''origin'', JStr (origin P)), (''model'', JStr model), (''prompt_template_id'', JStr (prompt_id P)),
      (''content_hash'', JStr content_hash), (''taxonomy_version'', JStr (taxonomy_version P))]"

definition stb_source :: "publish_env \<Rightarrow> string \<Rightarrow> string \<Rightarrow> exercise_spec \<Rightarrow> stb_candidate \<Rightarrow> jobj" where
  "stb_source P model content_hash spec c =
     source_json P model content_hash @
     (if spec_has_bug spec = Some True then
        (case bug_mechanism c of None \<Rightarrow> [] | Some m \<Rightarrow> [(''bug_mechanism'', JStr m)])
      else [])"

definition insert_stb ::
    "publish_env \<Rightarrow> nat \<Rightarrow> string \<Rightarrow> string \<Rightarrow> exercise_spec \<Rightarrow> stb_candidate \<Rightarrow> int list \<Rightarrow> defect list option
       \<Rightarrow> gate_result \<Rightarrow> exercise" where
  "insert_stb P i model content_hash spec c verified audit gate =
     new_exercise i (spec_type spec) (spec_difficulty spec) (sc_concepts c)
       (stb_source P model content_hash spec c) (stb_payload c)
       (stb_grading (sha256 P) c verified (sandbox_report P gate))
       (finalize_stb_explanation (report_texts P) c (spec_has_bug spec = Some True) verified audit)
       (report_path P i)"

definition insert_trace ::
    "publish_env \<Rightarrow> nat list \<Rightarrow> nat \<Rightarrow> string \<Rightarrow> string \<Rightarrow> exercise_spec \<Rightarrow> trace_candidate \<Rightarrow> string
       \<Rightarrow> gate_result \<Rightarrow> exercise" where
  "insert_trace P ps i model content_hash spec c captured gate =
     (case reassign_shuffled_choice_ids ps (trace_entries c captured) of
        (xs, correct, remap) \<Rightarrow>
          new_exercise i (spec_type spec) (spec_difficulty spec) (tr_concepts c)
            (source_json P model content_hash) (trace_payload c xs)
            (trace_grading correct captured (sandbox_report P gate))
            (finalize_trace_explanation (report_texts P) c captured
               (remap_why_wrong remap (why_wrong (tr_draft c))))
            (report_path P i))"

section \<open>Predict the fix\<close>

record ptf_artifacts =
  pa_choices :: "(string \<times> string) list"
  pa_correct :: string
  pa_why_wrong :: "(string \<times> string) list"
  pa_test_output :: string
  pa_gate :: gate_result

text \<open>
  The stage that rejects, or the choices as pairs of an id and a program. Entries are the verified
  fix, without a note, and the variants.
\<close>

definition derive_artifacts ::
    "(string \<Rightarrow> ast_scan option) \<Rightarrow> (nat \<Rightarrow> string \<Rightarrow> run_result) \<Rightarrow> nat list \<Rightarrow> stb_candidate
       \<Rightarrow> fix_variant list \<Rightarrow> int \<Rightarrow> string + ptf_artifacts" where
  "derive_artifacts scan run ps c variants budget_max =
     (if concat (map (\<lambda>(w, _). static_check scan w (Some (None, budget_max))) variants) \<noteq> []
      then Inl ''ptf_static_gate''
      else
        (let gate = validate_predict_the_fix run (buggy_code c) (fixed_code c) (test_code c)
                      (map fst variants);
             numbered = zip [''a'', ''b'', ''c'', ''d'']
               (shuffled ps ((fixed_code c, None) # map (\<lambda>(w, n). (w, Some n)) variants))
         in if \<not> gr_accepted gate then Inl ''ptf_sandbox_gate''
            else Inr
              \<lparr>pa_choices = map (\<lambda>(i, w, _). (i, w)) numbered,
               pa_correct = foldl (\<lambda>k (i, _, n). if n = None then i else k) [] numbered,
               pa_why_wrong = List.map_filter (\<lambda>(i, _, n). map_option (Pair i) n) numbered,
               pa_test_output =
                 last_n 600 (strip (case captured_test_output gate of None \<Rightarrow> [] | Some t \<Rightarrow> t)),
               pa_gate = gate\<rparr>))"

definition ptf_payload :: "stb_candidate \<Rightarrow> ptf_artifacts \<Rightarrow> jobj" where
  "ptf_payload c a =
     [(''code'', JStr (buggy_code c)), (''context_note'', JStr (sc_context_note c)),
      (''question'', JStr ''The test below fails on this code. Which change makes the test pass?''),
      (''failing_test'', JStr (test_code c)), (''test_output'', JStr (pa_test_output a)),
      (''answer_mode'', JStr ''choose_fix''),
      (''choices'', JArr (map (\<lambda>(i, w). JObj [(''id'', JStr i), (''text'', JStr w)]) (pa_choices a)))]"

definition ptf_grading :: "publish_env \<Rightarrow> stb_candidate \<Rightarrow> ptf_artifacts \<Rightarrow> jobj" where
  "ptf_grading P c a =
     [(''mode'', JStr ''deterministic''), (''correct_choice_id'', JStr (pa_correct a)),
      (''artifacts'', JObj [(''fixed_code_hash'', JStr (sha256 P (fixed_code c))),
         (''sandbox_checks'', sandbox_report P (pa_gate a))])]"

definition ptf_explanation :: "stb_candidate \<Rightarrow> ptf_artifacts \<Rightarrow> jobj" where
  "ptf_explanation c a =
     [(''summary'', JStr (sd_summary (sc_draft c))), (''principle'', JStr (sd_principle (sc_draft c))),
      (''why_wrong'', JArr (map (\<lambda>(i, t). JObj [(''choice_id'', JStr i), (''note'', JStr t)])
         (pa_why_wrong a))),
      (''verified'', JObj [(''correct_choice_id'', JStr (pa_correct a))])]"

text \<open>\<open>_ptf_content_hash\<close>: of the buggy program and the sorted variants, with a separator.\<close>

definition separator :: string where
  "separator = [CHR 10] @ ''---'' @ [CHR 10]"

definition ptf_content_hash :: "publish_env \<Rightarrow> string \<Rightarrow> string list \<Rightarrow> string" where
  "ptf_content_hash P buggy variants =
     sha256 P (buggy @ separator @ concat (case sort variants of [] \<Rightarrow> [] | v # vs \<Rightarrow> v # map ((@) separator) vs))"

definition ptf_source :: "publish_env \<Rightarrow> string \<Rightarrow> string \<Rightarrow> json \<Rightarrow> string \<Rightarrow> nat \<Rightarrow> jobj" where
  "ptf_source P model content_hash stb_prompt derived_from version =
     [(''origin'', JStr (origin P)), (''model'', JStr model), (''prompt_template_id'', JStr ''ptf_py_v1''),
      (''stb_prompt_template_id'', stb_prompt), (''content_hash'', JStr content_hash),
      (''taxonomy_version'', JStr (taxonomy_version P)),
      (''derived_from'', JObj [(''id'', JStr derived_from), (''version'', JInt (int version))])]"

definition insert_predict_the_fix ::
    "publish_env \<Rightarrow> nat \<Rightarrow> string \<Rightarrow> string \<Rightarrow> exercise_spec \<Rightarrow> stb_candidate \<Rightarrow> fix_variant list \<Rightarrow> ptf_artifacts
       \<Rightarrow> exercise" where
  "insert_predict_the_fix P i model derived_from spec c variants a =
     new_exercise i ''predict_the_fix'' (spec_difficulty spec) (sc_concepts c)
       (ptf_source P model (ptf_content_hash P (buggy_code c) (map fst variants)) (JStr (prompt_id P))
          derived_from 1)
       (ptf_payload c a) (ptf_grading P c a) (ptf_explanation c a) (report_path P i)"

end
