(* ===== verification/Orchestrator.thy ===== *)
theory Orchestrator
  imports Publish "HOL-Library.Multiset"
begin

text \<open>
  The content pipeline, \<open>pipeline/orchestrator.py\<close>: from a specification to at most one published
  exercise. A candidate passes the static, sandbox, semantic and duplicate checks or is rejected with
  a receipt; a repairable rejection may be sent back to the generator; several survivors of one
  specification compete by score. The generator and the judge are streams of replies, numbered over
  the batch, as are the runs of the sandbox and the draws of shuffles. The accounting of tokens and
  cost and the log lines are left out.
\<close>

section \<open>Environment, policy and state\<close>

record pipeline =
  pl_replies :: reply_env
  pl_judge :: judge_env
  pl_scan :: "string \<Rightarrow> ast_scan option"
  pl_publish :: publish_env
  gen_reply :: "nat \<Rightarrow> string"
  judge_reply :: "nat \<Rightarrow> string"
  run_code :: "nat \<Rightarrow> string \<Rightarrow> run_result"
  shuffle_draw :: "nat \<Rightarrow> nat list"
  content_hash_of :: "string \<Rightarrow> string"
  base_model :: string
  stb_model :: "string option"
  id_text :: "nat \<Rightarrow> string"
  pl_template :: "bool \<Rightarrow> string \<Rightarrow> string"

record loop_policy =
  repair_enabled :: bool
  best_of_n_enabled :: bool
  max_attempts_per_spec :: int
  max_repair_rounds :: int
  best_of_n_max_survivors :: int
  best_of_n_score_threshold :: rat
  best_of_n_coverage_threshold :: int

definition default_policy :: loop_policy where
  "default_policy = \<lparr>repair_enabled = False, best_of_n_enabled = False, max_attempts_per_spec = 3,
     max_repair_rounds = 2, best_of_n_max_survivors = 2, best_of_n_score_threshold = fl (70 / 100),
     best_of_n_coverage_threshold = 2\<rparr>"

text \<open>The keys of \<open>report.counts\<close>: plain, of a concept, of a check, of a discard and of a type and concept.\<close>

datatype count_key =
    Total string
  | OfConcept string string
  | OfCheck string string
  | OfDiscard string discard
  | Miscalibrated string string

record batch_state =
  gen_calls :: nat
  judge_calls :: nat
  runs_done :: nat
  draws_done :: nat
  next_exercise_id :: nat
  counts :: "count_key multiset"
  receipts :: "(string \<times> exercise_spec \<times> pipeline_candidate) list"
  dedup_pool :: "string set"
  mechanisms :: "string \<Rightarrow> string list"
  coverage :: "string \<times> string \<Rightarrow> int"
  rows :: "exercise list"
  published :: "(nat \<times> nat) list"
  ptf_published :: "(nat \<times> nat) list"
  spec_exhausted :: "exercise_spec list"

definition bump :: "count_key \<Rightarrow> batch_state \<Rightarrow> batch_state" where
  "bump k b = b\<lparr>counts := add_mset k (counts b)\<rparr>"

definition has_bug_of :: "exercise_spec \<Rightarrow> bool" where
  "has_bug_of spec = (spec_has_bug spec = Some True)"

definition code_of :: "pipeline_candidate \<Rightarrow> string" where
  "code_of c = (case c of STB s \<Rightarrow> buggy_code s | Trace t \<Rightarrow> tr_code t)"

definition gen_model_of :: "pipeline \<Rightarrow> exercise_spec \<Rightarrow> string" where
  "gen_model_of p spec =
     (if spec_type spec = ''spot_the_bug'' then (case stb_model p of None \<Rightarrow> base_model p | Some m \<Rightarrow> m)
      else base_model p)"

section \<open>One candidate\<close>

definition sandbox_stage ::
    "pipeline \<Rightarrow> exercise_spec \<Rightarrow> pipeline_candidate \<Rightarrow> batch_state \<Rightarrow> gate_result \<times> batch_state" where
  "sandbox_stage p spec c b =
     (let run = (\<lambda>i. run_code p (runs_done b + i)) in
      case c of
        STB s \<Rightarrow> (validate_spot_the_bug run s (has_bug_of spec), b\<lparr>runs_done := runs_done b + 6\<rparr>)
      | Trace t \<Rightarrow> (validate_trace run t, b\<lparr>runs_done := runs_done b + 2\<rparr>))"

definition key_lines :: "gate_result \<Rightarrow> int list" where
  "key_lines g = (case verified_bug_lines g of None \<Rightarrow> [] | Some ls \<Rightarrow> ls)"

definition semantic_stage ::
    "pipeline \<Rightarrow> exercise_spec \<Rightarrow> pipeline_candidate \<Rightarrow> gate_result \<Rightarrow> batch_state \<Rightarrow> semantic_outcome \<times> batch_state" where
  "semantic_stage p spec c g b =
     (let (out, m) =
        (case c of
           STB s \<Rightarrow> run_stb_semantic_gates (pl_judge p) (judge_reply p) (judge_calls b) s
                      (has_bug_of spec) (key_lines g)
         | Trace t \<Rightarrow> run_trace_semantic_gates (pl_judge p) (judge_reply p) (judge_calls b) t)
      in (out, b\<lparr>judge_calls := m\<rparr>))"

record survivor =
  su_spec :: exercise_spec
  su_candidate :: pipeline_candidate
  su_model :: string
  su_hash :: string
  su_gate :: gate_result
  su_semantic :: semantic_outcome
  su_quality :: quality_score
  su_via_repair :: bool

definition signals_of ::
    "exercise_spec \<Rightarrow> pipeline_candidate \<Rightarrow> gate_result \<Rightarrow> semantic_outcome \<Rightarrow> score_signals" where
  "signals_of spec c g out =
     \<lparr>sig_type = spec_type spec, sig_difficulty = spec_difficulty spec, sig_confidence = so_confidence out,
      sig_matched = so_matched out, sig_line_count = length (splitlines (code_of c)),
      sig_bug_lines = (case c of STB _ \<Rightarrow> key_lines g | Trace _ \<Rightarrow> []),
      sig_claim_mismatch = (case c of STB _ \<Rightarrow> bug_lines_claim_mismatch g | Trace _ \<Rightarrow> False),
      sig_flagged = so_flagged out\<rparr>"

definition evaluate_candidate ::
    "pipeline \<Rightarrow> exercise_spec \<Rightarrow> pipeline_candidate \<Rightarrow> batch_state \<Rightarrow> (rejection + survivor) \<times> batch_state" where
  "evaluate_candidate p spec c b =
     (if static_gate_check (pl_scan p) c spec \<noteq> [] then (Inl classify_static, b)
      else
        (case sandbox_stage p spec c (bump (Total ''static_gate_passed'') b) of
           (g, b1) \<Rightarrow>
             if \<not> gr_accepted g then (Inl (classify_sandbox g), b1)
             else
               (let b2 = bump (Total ''sandbox_gate_passed'') b1;
                    b3 = (if bug_lines_claim_mismatch g then bump (Total ''stb_bug_lines_claim_mismatch'') b2
                          else b2)
                in case semantic_stage p spec c g b3 of
                     (out, b4) \<Rightarrow>
                       if \<not> so_survived out
                       then (Inl (classify_fundamental ''semantic_gate'' (so_reject_gate out)), b4)
                       else
                         (let b5 = bump (Total ''semantic_gate_passed'') b4;
                              h = content_hash_of p (code_of c)
                          in if h \<in> dedup_pool b5 then (Inl (classify_fundamental ''dedup'' ''dedup''), b5)
                             else
                               (Inr \<lparr>su_spec = spec, su_candidate = c, su_model = gen_model_of p spec,
                                     su_hash = h, su_gate = g, su_semantic = out,
                                     su_quality = score_survivor (signals_of spec c g out),
                                     su_via_repair = False\<rparr>,
                                bump (Total ''dedup_passed'') b5)))))"

definition record_reject :: "exercise_spec \<Rightarrow> string \<Rightarrow> pipeline_candidate \<Rightarrow> batch_state \<Rightarrow> batch_state" where
  "record_reject spec stage c b =
     bump (OfConcept (spec_concept spec) ''rejected'') (bump (Total (stage @ ''_rejected''))
       (b\<lparr>receipts := receipts b @ [(stage, spec, c)]\<rparr>))"

section \<open>A candidate and its repairs\<close>

text \<open>
  \<open>rounds\<close> repairs were made so far, for the checks in \<open>checks\<close>; \<open>prev\<close> is the check of the repair
  that gave the candidate, and \<open>used\<close> counts against the budget of the specification.
\<close>

definition bump_check :: "string \<Rightarrow> string option \<Rightarrow> batch_state \<Rightarrow> batch_state" where
  "bump_check what prev b =
     (case prev of None \<Rightarrow> b | Some k \<Rightarrow> bump (OfCheck what k) (bump (Total what) b))"

function run_lineage ::
    "pipeline \<Rightarrow> loop_policy \<Rightarrow> exercise_spec \<Rightarrow> pipeline_candidate \<Rightarrow> int \<Rightarrow> string list \<Rightarrow> string option \<Rightarrow> int
       \<Rightarrow> batch_state \<Rightarrow> survivor option \<times> int \<times> batch_state" where
  "run_lineage p pol spec c rounds checks prev used b =
     (case evaluate_candidate p spec c b of
        (Inr s, b1) \<Rightarrow> (Some (s\<lparr>su_via_repair := 0 < rounds\<rparr>), used, bump_check ''repair_succeeded'' prev b1)
      | (Inl rej, b1) \<Rightarrow>
          (let b2 = bump_check ''repair_failed'' prev (record_reject spec (rj_stage rej) c b1);
               check = rj_check rej
           in if \<not> repair_enabled pol \<or> rj_class rej \<noteq> Repairable then (None, used, b2)
              else if max_repair_rounds pol \<le> rounds
              then (None, used, bump (Total ''repair_stopped_max_rounds'') b2)
              else if check \<in> set checks
              then (None, used, bump_check ''repair_stopped_same_check'' (Some check) b2)
              else if max_attempts_per_spec pol - used \<le> 0
              then (None, used, bump (Total ''repair_stopped_budget'') b2)
              else
                (case repair_candidate (pl_replies p) (spec_type spec) (gen_reply p) (gen_calls b2) of
                   (r, m) \<Rightarrow>
                     (let b3 = (bump_check ''repair_attempted'' (Some check) b2)\<lparr>gen_calls := m\<rparr> in
                      case r of
                        Inl d \<Rightarrow> (None, used + 1,
                          bump_check ''repair_failed'' (Some check) (bump (OfDiscard ''repair_discarded'' d) b3))
                      | Inr c' \<Rightarrow>
                          run_lineage p pol spec c' (rounds + 1) (check # checks) (Some check) (used + 1) b3))))"
  by pat_completeness auto
termination
  by (relation "measure (\<lambda>(p, pol, spec, c, rounds, checks, prev, used, b). nat (max_repair_rounds pol - rounds))")
    auto

declare run_lineage.simps [simp del]

text \<open>A lineage never gives an attempt back, so the loop over fresh candidates ends.\<close>

lemma run_lineage_used:
  "run_lineage p pol spec c rounds checks prev used b = (s, used', b') \<Longrightarrow> used \<le> used'"
proof (induction p pol spec c rounds checks prev used b arbitrary: s used' b' rule: run_lineage.induct)
  case (1 p pol spec c rounds checks prev used b)
  show ?case
    using 1(2) by (subst (asm) run_lineage.simps)
      (auto simp: Let_def split: prod.splits sum.splits if_splits dest!: 1(1) [rotated -1])
qed

end
