(* ===== verification/Batch.thy ===== *)
theory Batch
  imports Orchestrator
begin

text \<open>
  The loop over the fresh candidates of a specification, the publication of its best survivor with
  the \<open>predict_the_fix\<close> derived from it, and the batch over specifications
  (\<open>pipeline/orchestrator.py\<close>), with what a batch reads from the table before it starts
  (\<open>pipeline/publish.py\<close>). A raised error ends the batch.
\<close>

section \<open>Fresh candidates\<close>

definition best_score :: "survivor list \<Rightarrow> rat" where
  "best_score ss = Max ((\<lambda>s. qs_score (su_quality s)) ` set ss)"

definition want_more_survivors ::
    "survivor list \<Rightarrow> exercise_spec \<Rightarrow> (string \<times> string \<Rightarrow> int) \<Rightarrow> int \<Rightarrow> loop_policy \<Rightarrow> bool" where
  "want_more_survivors ss spec cov used pol \<longleftrightarrow>
     int (length ss) < best_of_n_max_survivors pol \<and> 0 < max_attempts_per_spec pol - used \<and>
     (best_score ss < best_of_n_score_threshold pol \<or>
      cov (spec_type spec, spec_concept spec) < best_of_n_coverage_threshold pol)"

function generate_loop ::
    "pipeline \<Rightarrow> loop_policy \<Rightarrow> exercise_spec \<Rightarrow> int \<Rightarrow> survivor list \<Rightarrow> batch_state \<Rightarrow> survivor list \<times> int \<times> batch_state" where
  "generate_loop p pol spec used ss b =
     (if max_attempts_per_spec pol - used \<le> 0 then (ss, used, b)
      else
        (case generate_candidate (pl_replies p) (spec_type spec) (gen_reply p) (gen_calls b) of
           (r, m) \<Rightarrow>
             (let b1 = bump (Total ''generated_total'') (b\<lparr>gen_calls := m\<rparr>) in
              case r of
                Inl d \<Rightarrow>
                  generate_loop p pol spec (used + 1) ss
                    (bump (OfConcept (spec_concept spec) ''rejected'')
                      (bump (OfDiscard ''generate_discarded'' d) b1))
              | Inr c \<Rightarrow>
                  (case run_lineage p pol spec c 0 [] None (used + 1) (bump (Total ''generate_passed'') b1) of
                     (None, used', b2) \<Rightarrow> generate_loop p pol spec used' ss b2
                   | (Some s, used', b2) \<Rightarrow>
                       if best_of_n_enabled pol \<and>
                          want_more_survivors (ss @ [s]) spec (coverage b2) used' pol
                       then generate_loop p pol spec used' (ss @ [s]) b2
                       else (ss @ [s], used', b2)))))"
  by pat_completeness auto
termination
  by (relation "measure (\<lambda>(p, pol, spec, used, ss, b). nat (max_attempts_per_spec pol - used))")
    (auto dest!: run_lineage_used [OF sym])

declare generate_loop.simps [simp del]

section \<open>Publication\<close>

definition publish_env_of :: "pipeline \<Rightarrow> exercise_spec \<Rightarrow> bool \<Rightarrow> publish_env" where
  "publish_env_of p spec repaired = (pl_publish p)\<lparr>prompt_id := pl_template p repaired (spec_type spec)\<rparr>"

text \<open>The row of a survivor, with id \<open>i\<close> and the shuffle \<open>ps\<close>.\<close>

definition row_of_survivor :: "pipeline \<Rightarrow> nat \<Rightarrow> nat list \<Rightarrow> survivor \<Rightarrow> exercise" where
  "row_of_survivor p i ps s =
     (let P = publish_env_of p (su_spec s) (su_via_repair s) in
      case su_candidate s of
        STB c \<Rightarrow> insert_stb P i (su_model s) (su_hash s) (su_spec s) c (key_lines (su_gate s))
                   (so_audit (su_semantic s)) (su_gate s)
      | Trace c \<Rightarrow> insert_trace P ps i (su_model s) (su_hash s) (su_spec s) c
                     (case captured_stdout (su_gate s) of None \<Rightarrow> [] | Some t \<Rightarrow> t) (su_gate s))"

definition derive_and_publish_ptf ::
    "pipeline \<Rightarrow> exercise_spec \<Rightarrow> stb_candidate \<Rightarrow> bool \<Rightarrow> nat \<Rightarrow> batch_state \<Rightarrow> batch_state" where
  "derive_and_publish_ptf p spec c repaired parent b =
     (let b1 = bump (Total ''ptf_derivation_attempted'') b in
      case generate_wrong_fixes (pl_replies p) (gen_reply p) (gen_calls b1) of
        (r, m) \<Rightarrow>
          (let b2 = b1\<lparr>gen_calls := m\<rparr> in
           case r of
             Inl d \<Rightarrow> bump (OfDiscard ''ptf_generate_discarded'' d) b2
           | Inr fixes \<Rightarrow>
               (case derive_artifacts (pl_scan p) (\<lambda>i. run_code p (runs_done b2 + i))
                       (shuffle_draw p (draws_done b2)) c fixes (line_budget_max spec) of
                  Inl stage \<Rightarrow>
                    bump (OfConcept (spec_concept spec) ''ptf_rejected'') (bump (Total (stage @ ''_rejected''))
                      (b2\<lparr>runs_done := (if stage = ''ptf_static_gate'' then runs_done b2 else runs_done b2 + 10),
                          receipts := receipts b2 @ [(stage, spec, STB c)]\<rparr>))
                | Inr a \<Rightarrow>
                    (let i = next_exercise_id b2;
                         row = insert_predict_the_fix (publish_env_of p spec repaired) i (base_model p)
                                 (id_text p parent) spec c fixes a
                     in bump (OfConcept (spec_concept spec) ''ptf_published'')
                          (bump (Total ''ptf_published_in_review'')
                            (b2\<lparr>runs_done := runs_done b2 + 10, draws_done := draws_done b2 + 1,
                                next_exercise_id := i + 1, rows := rows b2 @ [row],
                                ptf_published := ptf_published b2 @ [(i, 1)]\<rparr>))))))"

definition remember_mechanism :: "exercise_spec \<Rightarrow> stb_candidate \<Rightarrow> batch_state \<Rightarrow> batch_state" where
  "remember_mechanism spec c b =
     (case bug_mechanism c of
        None \<Rightarrow> b
      | Some m \<Rightarrow>
          b\<lparr>mechanisms := (mechanisms b)(spec_concept spec := m # mechanisms b (spec_concept spec))\<rparr>)"

definition publish_survivor :: "pipeline \<Rightarrow> bool \<Rightarrow> survivor \<Rightarrow> batch_state \<Rightarrow> batch_state" where
  "publish_survivor p derive s b =
     (let spec = su_spec s; i = next_exercise_id b;
          row = row_of_survivor p i (shuffle_draw p (draws_done b)) s;
          b1 = bump (Total (if su_via_repair s then ''published_via_repair'' else ''published_first_try''))
                (bump (OfConcept (spec_concept spec) ''published'') (bump (Total ''published_in_review'')
                  (b\<lparr>draws_done :=
                       (case su_candidate s of STB _ \<Rightarrow> draws_done b | Trace _ \<Rightarrow> draws_done b + 1),
                     next_exercise_id := i + 1, rows := rows b @ [row],
                     dedup_pool := insert (su_hash s) (dedup_pool b), published := published b @ [(i, 1)]\<rparr>)));
          b2 = (if qs_miscalibrated (su_quality s)
                then bump (Miscalibrated (spec_type spec) (spec_concept spec))
                       (bump (Total ''difficulty_miscalibrated'') b1)
                else b1)
      in case su_candidate s of
           Trace _ \<Rightarrow> b2
         | STB c \<Rightarrow>
             if \<not> has_bug_of spec then b2
             else if derive \<and> key_lines (su_gate s) \<noteq> []
             then derive_and_publish_ptf p spec c (su_via_repair s) i (remember_mechanism spec c b2)
             else remember_mechanism spec c b2)"

section \<open>One specification\<close>

definition count_competition :: "survivor list \<Rightarrow> survivor \<Rightarrow> batch_state \<Rightarrow> batch_state" where
  "count_competition ss best b =
     (if length ss \<le> 1 then b
      else
        (let b1 = b\<lparr>counts := add_mset (Total ''best_of_n_pursued'')
                     (replicate_mset (length ss - 1) (Total ''best_of_n_extra_survivors'') + counts b)\<rparr>
         in if best \<noteq> hd ss then bump (Total ''best_of_n_selected_better'') b1 else b1))"

definition resolve_spec :: "pipeline \<Rightarrow> loop_policy \<Rightarrow> bool \<Rightarrow> exercise_spec \<Rightarrow> batch_state \<Rightarrow> bool \<times> batch_state" where
  "resolve_spec p pol derive spec b =
     (case generate_loop p pol spec 0 [] b of
        (ss, _, b1) \<Rightarrow>
          (case max_by (\<lambda>s. qs_score (su_quality s)) ss of
             None \<Rightarrow> (False, b1)
           | Some best \<Rightarrow> (True, publish_survivor p derive best (count_competition ss best b1))))"

section \<open>What the table holds before a batch\<close>

definition content_hash_in :: "exercise \<Rightarrow> string option" where
  "content_hash_in e =
     (case map_of (ex_source e) ''content_hash'' of
        Some (JStr h) \<Rightarrow> if h = [] then None else Some h
      | _ \<Rightarrow> None)"

definition fetch_dedup_pool_hashes :: "exercise list \<Rightarrow> string set" where
  "fetch_dedup_pool_hashes tbl =
     set (List.map_filter content_hash_in (filter (\<lambda>e. ex_status e = Live \<or> ex_status e = InReview) tbl))"

definition concept_type_coverage :: "exercise list \<Rightarrow> string \<times> string \<Rightarrow> int" where
  "concept_type_coverage tbl = (\<lambda>(ty, k).
     sum_list (map (\<lambda>e. int (count_list (ex_concepts e) k))
       (filter (\<lambda>e. ex_status e = Live \<and> ex_type e = ty) tbl)))"

text \<open>Newest first; a row later in the table was created later.\<close>

definition seed_recent_bug_mechanisms :: "exercise list \<Rightarrow> string \<Rightarrow> string list" where
  "seed_recent_bug_mechanisms tbl k =
     take 3 (concat (map
       (\<lambda>e. case map_of (ex_source e) ''bug_mechanism'' of
              Some (JStr m) \<Rightarrow> if m = [] then [] else replicate (count_list (ex_concepts e) k) m
            | _ \<Rightarrow> [])
       (take 500 (rev (filter (\<lambda>e. ex_type e = ''spot_the_bug'' \<and>
                                  (ex_status e = Live \<or> ex_status e = InReview)) tbl)))))"

definition start_batch :: "exercise list \<Rightarrow> nat \<Rightarrow> bool \<Rightarrow> bool \<Rightarrow> batch_state" where
  "start_batch tbl next_id seed_history coverage_driven =
     \<lparr>gen_calls = 0, judge_calls = 0, runs_done = 0, draws_done = 0, next_exercise_id = next_id,
      counts = {#}, receipts = [], dedup_pool = fetch_dedup_pool_hashes tbl,
      mechanisms = (if seed_history then seed_recent_bug_mechanisms tbl else (\<lambda>_. [])),
      coverage = (if coverage_driven then concept_type_coverage tbl else (\<lambda>_. 0)),
      rows = tbl, published = [], ptf_published = [], spec_exhausted = []\<rparr>"

section \<open>The batch\<close>

text \<open>Specifications are given, or sampled: the types in turn, with the draws for number \<open>i\<close>.\<close>

datatype spec_source =
    GivenSpecs "exercise_spec list"
  | SampledSpecs "string list" "nat \<Rightarrow> string \<times> int \<times> string \<times> rat"

definition next_spec :: "spec_source \<Rightarrow> nat \<Rightarrow> batch_state \<Rightarrow> exercise_spec result" where
  "next_spec src i b =
     (case src of
        GivenSpecs specs \<Rightarrow> if i < length specs then Inr (specs ! i) else Inl IndexError
      | SampledSpecs mix draw \<Rightarrow>
          if mix = [] then Inl (ValueError ''ZeroDivisionError'')
          else (case draw i of
             (concept, difficulty, domain, x) \<Rightarrow>
               sample_spec (mix ! (i mod length mix)) concept difficulty domain x (mechanisms b)))"

definition run_one :: "pipeline \<Rightarrow> loop_policy \<Rightarrow> bool \<Rightarrow> exercise_spec \<Rightarrow> batch_state \<Rightarrow> batch_state" where
  "run_one p pol derive spec b =
     (case resolve_spec p pol derive spec (bump (Total ''specs_sampled'') b) of
        (True, b1) \<Rightarrow>
          b1\<lparr>coverage := (coverage b1)((spec_type spec, spec_concept spec) :=
                           coverage b1 (spec_type spec, spec_concept spec) + 1)\<rparr>
      | (False, b1) \<Rightarrow>
          (bump (OfConcept (spec_concept spec) ''exhausted'') b1)\<lparr>spec_exhausted := spec_exhausted b1 @ [spec]\<rparr>)"

text \<open>Specifications \<open>i\<close> to \<open>i + n - 1\<close>.\<close>

fun run_specs :: "pipeline \<Rightarrow> loop_policy \<Rightarrow> bool \<Rightarrow> spec_source \<Rightarrow> nat \<Rightarrow> nat \<Rightarrow> batch_state \<Rightarrow> batch_state result" where
  "run_specs p pol derive src i 0 b = Inr b"
| "run_specs p pol derive src i (Suc n) b =
     (case next_spec src i b of
        Inl e \<Rightarrow> Inl e
      | Inr spec \<Rightarrow> run_specs p pol derive src (Suc i) n (run_one p pol derive spec b))"

definition run_batch ::
    "pipeline \<Rightarrow> loop_policy \<Rightarrow> bool \<Rightarrow> spec_source \<Rightarrow> bool \<Rightarrow> bool \<Rightarrow> nat \<Rightarrow> exercise list \<Rightarrow> nat
       \<Rightarrow> batch_state result" where
  "run_batch p pol derive src seed_history coverage_driven n tbl next_id =
     run_specs p pol derive src 0 n (start_batch tbl next_id seed_history coverage_driven)"

end
