(* ===== verification/Taxonomy.thy ===== *)
theory Taxonomy
  imports Prelude
begin

text \<open>
  The table of concepts and what it offers to the samplers, \<open>pipeline/taxonomy.py\<close>. A set of
  exercise types is a list here.
\<close>

definition TAXONOMY_VERSION :: string where
  "TAXONOMY_VERSION = ''v1''"

definition BOTH :: "string list" where "BOTH = [''spot_the_bug'', ''trace'']"
definition STB_ONLY :: "string list" where "STB_ONLY = [''spot_the_bug'']"
definition TRACE_ONLY :: "string list" where "TRACE_ONLY = [''trace'']"

record concept_entry =
  c_slug :: string
  c_name :: string
  c_category :: string
  applies_to :: "string list"
  requires_forbidden :: "string option"
  stb_unsamplable :: "string option"

definition mk_concept ::
    "string \<Rightarrow> string \<Rightarrow> string \<Rightarrow> string list \<Rightarrow> string option \<Rightarrow> string option \<Rightarrow> concept_entry" where
  "mk_concept slug name category types forbidden unsamplable =
     \<lparr>c_slug = slug, c_name = name, c_category = category, applies_to = types,
      requires_forbidden = forbidden, stb_unsamplable = unsamplable\<rparr>"

definition CONCEPTS :: "concept_entry list" where
  "CONCEPTS =
     [ mk_concept ''mutable-default-arg'' ''Mutable default argument'' ''mutable-state'' BOTH
       None None
      , mk_concept ''aliasing-vs-copy'' ''Aliasing vs. copying'' ''mutable-state'' BOTH
       None None
      , mk_concept ''shallow-vs-deep-copy'' ''Shallow vs. deep copy'' ''mutable-state'' BOTH
       None None
      , mk_concept ''shared-class-attribute'' ''Shared mutable class attribute'' ''mutable-state'' BOTH
       None None
      , mk_concept ''dict-mutation-during-iteration'' ''Mutating a dict while iterating it'' ''mutable-state'' BOTH
       None None
      , mk_concept ''list-mutation-during-iteration'' ''Mutating a list while iterating it'' ''mutable-state'' BOTH
       None None
      , mk_concept ''closure-late-binding'' ''Closure late-binding capture'' ''scoping'' BOTH
       None None
      , mk_concept ''global-state-mutation'' ''Hidden global state mutation'' ''scoping'' BOTH
       None None
      , mk_concept ''variable-shadowing'' ''Variable shadowing'' ''scoping'' BOTH
       None None
      , mk_concept ''walrus-scope'' ''Walrus operator scope leakage'' ''scoping'' BOTH
       None None
      , mk_concept ''off-by-one'' ''Off-by-one loop/index error'' ''control-flow'' BOTH
       None None
      , mk_concept ''off-by-one-slicing'' ''Off-by-one in slicing'' ''control-flow'' BOTH
       None None
      , mk_concept ''early-return-skipped-path'' ''Early return skips a later code path'' ''control-flow'' TRACE_ONLY
       None None
      , mk_concept ''exception-swallowing'' ''Overly broad exception swallowing'' ''error-handling'' BOTH
       None None
      , mk_concept ''exception-type-too-broad'' ''Catching a broader exception type than intended'' ''error-handling'' BOTH
       None (Some (''the canonical fix narrows an over-broad except by ADDING a specific handler / '' @
        ''re-raise (a pure insertion, D-49 rejects the empty diff); confirmed '' @
        ''100%-deterministic sandbox reject. Still valid for trace (what does the broad '' @
        ''catch print?)''))
      , mk_concept ''resource-leak-unclosed-file'' ''Unclosed file handle / resource leak'' ''resources'' STB_ONLY
       (Some (''open()/file I/O (static_gate FORBIDDEN_CALL_NAMES + prompt constraint 2)'')) None
      , mk_concept ''context-manager-misuse'' ''Context manager used incorrectly'' ''resources'' BOTH
       None None
      , mk_concept ''generator-exhaustion'' ''Generator/iterator exhausted after first use'' ''iteration'' BOTH
       None None
      , mk_concept ''sorting-stability-assumption'' ''Wrong assumption about sort stability'' ''iteration'' BOTH
       None None
      , mk_concept ''key-function-misuse'' ''sorted()/min()/max() key function misuse'' ''iteration'' BOTH
       None None
      , mk_concept ''integer-division-truncation'' ''Integer division truncation'' ''numeric'' BOTH
       None None
      , mk_concept ''float-precision'' ''Floating point precision surprise'' ''numeric'' BOTH
       None None
      , mk_concept ''string-formatting-mismatch'' ''String formatting / f-string mismatch'' ''strings'' BOTH
       None None
      , mk_concept ''string-immutability-misuse'' ''Treating strings as mutable'' ''strings'' BOTH
       None None
      , mk_concept ''string-vs-bytes-confusion'' ''str/bytes confusion'' ''strings'' BOTH
       None None
      , mk_concept ''encoding-decoding-mismatch'' ''Encoding/decoding mismatch'' ''strings'' STB_ONLY
       None None
      , mk_concept ''timezone-naive-vs-aware'' ''Naive vs. timezone-aware datetimes'' ''time-and-io'' STB_ONLY
       None None
      , mk_concept ''boolean-short-circuit-side-effect'' ''Short-circuit evaluation hides a side effect'' ''control-flow'' BOTH
       None None
      , mk_concept ''truthy-falsy-empty-check'' ''Truthy/falsy check on the wrong empty value'' ''control-flow'' BOTH
       None None
      , mk_concept ''is-vs-equality'' ''`is` used where `==` was intended'' ''control-flow'' BOTH
       None None
      , mk_concept ''decorator-losing-metadata'' ''Decorator loses function metadata/behavior'' ''functions'' STB_ONLY
       None (Some (''omission bug: the fix INSERTS @functools.wraps(func) on the wrapper -- a pure '' @
        ''insertion, so the diff-derived key is empty and D-49 rejects it. Confirmed 3/3 '' @
        ''deterministic reject''))
      , mk_concept ''recursion-missing-base-case'' ''Recursion missing/incorrect base case'' ''functions'' BOTH
       None None
      , mk_concept ''memoization-cache-staleness'' ''Stale memoization cache across calls'' ''functions'' STB_ONLY
       None None
      , mk_concept ''dataclass-mutable-default'' ''Dataclass field with a mutable default'' ''oop'' STB_ONLY
       None None
      , mk_concept ''unpacking-order-assumption'' ''Wrong assumption about unpacking order'' ''control-flow'' TRACE_ONLY
       None None
      , mk_concept ''n-plus-one-pattern'' ''N+1 query pattern (conceptual)'' ''performance'' STB_ONLY
       None (Some (''no-divergence bug: batching an N+1 changes only a side-effect count (queries '' @
        ''issued), not the returned value, so buggy and fixed produce identical output and'' @
        '' no twin-snippet test can discriminate them; the fix is also a whole-loop '' @
        ''restructure, not a minimal diff''))
      , mk_concept ''retry-without-backoff'' ''Retry logic without backoff/limit (conceptual)'' ''reliability'' STB_ONLY
       (Some (''time/time.sleep for backoff (FORBIDDEN_IMPORTS); and an unbounded retry can only'' @
        '' fail by sandbox timeout, never AssertionError'')) None
      , mk_concept ''idempotency-missing'' ''Missing idempotency guard (conceptual)'' ''reliability'' STB_ONLY
       None (Some (''omission bug: the fix INSERTS a guard clause (if key in seen: return) -- a pure '' @
        ''insertion with an empty diff, rejected by D-49. Confirmed 3/3 deterministic '' @
        ''reject''))
      , mk_concept ''injection-string-concat'' ''Building a query/command by string concatenation (conceptual)'' ''security'' STB_ONLY
       None None
      , mk_concept ''concurrency-conceptual'' ''Shared-state race condition (conceptual, no real threads)'' ''concurrency'' STB_ONLY
       None (Some (''no-divergence AND omission: with threading forbidden the race never triggers in '' @
        ''deterministic single-threaded execution (buggy and fixed print the same thing), '' @
        ''and the conceptual fix is an INSERTED lock/guard; no discriminating twin-snippet'' @
        '' exists'')) ]"

definition concepts_for_type :: "string \<Rightarrow> concept_entry list" where
  "concepts_for_type ty =
     filter (\<lambda>c. ty \<in> set (applies_to c) \<and> requires_forbidden c = None \<and>
                 \<not> (ty = ''spot_the_bug'' \<and> stb_unsamplable c \<noteq> None)) CONCEPTS"

definition get_concept :: "string \<Rightarrow> concept_entry result" where
  "get_concept slug =
     (case find (\<lambda>c. c_slug c = slug) CONCEPTS of None \<Rightarrow> Inl KeyError | Some c \<Rightarrow> Inr c)"

section \<open>Facts\<close>

text \<open>The check made when the module is loaded never raises.\<close>

lemma slugs_distinct: "distinct (map c_slug CONCEPTS)"
  by code_simp

lemma get_concept_of_entry:
  assumes "c \<in> set CONCEPTS"
  shows "get_concept (c_slug c) = Inr c"
proof -
  have "find (\<lambda>x. c_slug x = c_slug c) cs = Some c" if "c \<in> set cs" "distinct (map c_slug cs)" for cs
    using that by (induction cs) (auto simp: rev_image_eqI)
  with assms slugs_distinct show ?thesis by (simp add: get_concept_def)
qed

lemma samplable_types: "{ty. concepts_for_type ty \<noteq> []} = {''spot_the_bug'', ''trace''}"
proof -
  have "\<forall>c\<in>set CONCEPTS. set (applies_to c) \<subseteq> {''spot_the_bug'', ''trace''}" by code_simp
  moreover have "concepts_for_type ''spot_the_bug'' \<noteq> []" "concepts_for_type ''trace'' \<noteq> []" by code_simp+
  ultimately show ?thesis by (auto simp: concepts_for_type_def filter_empty_conv)
qed

lemma concepts_for_type_known: "c \<in> set (concepts_for_type ty) \<Longrightarrow> get_concept (c_slug c) = Inr c"
  by (auto simp: concepts_for_type_def intro: get_concept_of_entry)

end
