(* ===== verification/Ingest.thy ===== *)
theory Ingest
  imports Batch Taxonomy Tokens
begin

text \<open>
  Content written by hand: the loader of candidates and the batch that sends them through the gates
  of the pipeline (\<open>pipeline/ingest.py\<close>), and the loader of wrong fixes and the batch that derives
  \<open>predict_the_fix\<close> exercises from published ones (\<open>pipeline/ptf_ingest.py\<close>, with its queries
  in \<open>pipeline/publish.py\<close>). A load error rejects one item; any other error ends the run.
  Report files, log lines, the per-item result list and the command line are left out.
\<close>

section \<open>Loading candidates\<close>

definition load_error :: exn where "load_error = RuntimeError ''IngestLoadError''"
definition validation_error :: exn where "validation_error = ValueError ''ValidationError''"
definition attribute_error :: exn where "attribute_error = RuntimeError ''AttributeError''"

definition is_load_error :: "exn \<Rightarrow> bool" where
  "is_load_error e \<longleftrightarrow> e = load_error \<or> e = validation_error"

definition hand_template :: string where "hand_template = ''handauthored_stb_v1''"
definition hand_origin :: string where "hand_origin = ''handauthored_claude''"
definition author_label :: string where "author_label = ''claude''"

definition stb_concept_slugs :: "string list" where
  "stb_concept_slugs = map c_slug (concepts_for_type ''spot_the_bug'')"

text \<open>\<open>concept not in slugs\<close> raises for a list or an object, which have no hash; \<open>isinstance(True, int)\<close>.\<close>

definition concept_in :: "json \<Rightarrow> string result" where
  "concept_in j =
     (case j of
        JStr c \<Rightarrow> if c \<in> set stb_concept_slugs then Inr c else Inl load_error
      | JArr _ \<Rightarrow> Inl TypeError
      | JObj _ \<Rightarrow> Inl TypeError
      | _ \<Rightarrow> Inl load_error)"

definition difficulty_in :: "json \<Rightarrow> int result" where
  "difficulty_in j =
     (case (case j of JInt n \<Rightarrow> Some n | JBool b \<Rightarrow> Some (if b then 1 else 0) | _ \<Rightarrow> None) of
        Some n \<Rightarrow> if 1 \<le> n \<and> n \<le> 10 then Inr n else Inl load_error
      | None \<Rightarrow> Inl load_error)"

text \<open>The domain only reaches prompts; a value that is no text is held as it prints.\<close>

definition build_spec :: "(json \<Rightarrow> string) \<Rightarrow> json \<Rightarrow> exercise_spec result" where
  "build_spec pr raw =
     (case raw of
        JObj kvs \<Rightarrow>
          if get kvs ''type'' JNull \<noteq> JStr ''spot_the_bug'' then Inl load_error
          else if get kvs ''language'' (JStr ''python'') \<noteq> JStr ''python'' then Inl load_error
          else if \<not> {''concept'', ''difficulty'', ''has_bug''} \<subseteq> keys kvs then Inl load_error
          else
            (case concept_in (get kvs ''concept'' JNull) of
               Inl e \<Rightarrow> Inl e
             | Inr c \<Rightarrow>
                 (case difficulty_in (get kvs ''difficulty'' JNull) of
                    Inl e \<Rightarrow> Inl e
                  | Inr d \<Rightarrow>
                      Inr \<lparr>spec_type = ''spot_the_bug'', spec_concept = c, spec_difficulty = d,
                           spec_domain = (case get kvs ''domain'' (JStr ''hand-authored exercise'') of
                                            JStr s \<Rightarrow> s | v \<Rightarrow> pr v),
                           line_budget_min = fst (line_budget_for_difficulty d),
                           line_budget_max = snd (line_budget_for_difficulty d),
                           spec_has_bug = Some (truthy (get kvs ''has_bug'' JNull)),
                           avoid_patterns = []\<rparr>))
      | _ \<Rightarrow> Inl attribute_error)"

type_synonym ingest_item = "exercise_spec \<times> stb_candidate"

text \<open>What \<open>item.get(k) if isinstance(item, dict) else None\<close> gives.\<close>

definition item_get :: "json \<Rightarrow> string \<Rightarrow> json" where
  "item_get raw_item k = (case raw_item of JObj kvs \<Rightarrow> get kvs k JNull | _ \<Rightarrow> JNull)"

definition is_object :: "json \<Rightarrow> bool" where
  "is_object j = (case j of JObj _ \<Rightarrow> True | _ \<Rightarrow> False)"

text \<open>The body of the \<open>try\<close>.\<close>

definition parse_item :: "(json \<Rightarrow> string) \<Rightarrow> reply_env \<Rightarrow> json \<Rightarrow> ingest_item result" where
  "parse_item pr V raw_item =
     (if item_get raw_item ''prompt_template_id'' \<noteq> JStr hand_template then Inl load_error
      else if item_get raw_item ''spec'' = JNull then Inl load_error
      else if item_get raw_item ''candidate'' = JNull then Inl load_error
      else
        (case build_spec pr (item_get raw_item ''spec'') of
           Inl e \<Rightarrow> Inl e
         | Inr spec \<Rightarrow>
             (case model_validate V ''spot_the_bug'' (item_get raw_item ''candidate'') of
                Some (STB c) \<Rightarrow> Inr (spec, c)
              | _ \<Rightarrow> Inl validation_error)))"

text \<open>\<open>(raw_spec or {}).get\<close> comes before the \<open>try\<close>; \<open>None\<close> is an item that was rejected.\<close>

definition load_item :: "(json \<Rightarrow> string) \<Rightarrow> reply_env \<Rightarrow> json \<Rightarrow> ingest_item option result" where
  "load_item pr V raw_item =
     (if truthy (item_get raw_item ''spec'') \<and> \<not> is_object (item_get raw_item ''spec'') then Inl attribute_error
      else
        (case parse_item pr V raw_item of
           Inr x \<Rightarrow> Inr (Some x)
         | Inl e \<Rightarrow> if is_load_error e then Inr None else Inl e))"

fun load_items :: "(json \<Rightarrow> 'a option result) \<Rightarrow> json list \<Rightarrow> ('a list \<times> nat) result" where
  "load_items f [] = Inr ([], 0)"
| "load_items f (j # js) =
     (case f j of
        Inl e \<Rightarrow> Inl e
      | Inr x \<Rightarrow>
          (case load_items f js of
             Inl e \<Rightarrow> Inl e
           | Inr (xs, n) \<Rightarrow> Inr (case x of None \<Rightarrow> (xs, Suc n) | Some y \<Rightarrow> (y # xs, n))))"

text \<open>The loaded items and the number of rejected ones.\<close>

definition load_batch :: "(json \<Rightarrow> string) \<Rightarrow> reply_env \<Rightarrow> json \<Rightarrow> (ingest_item list \<times> nat) result" where
  "load_batch pr V raw =
     (case raw of JArr items \<Rightarrow> load_items (load_item pr V) items | _ \<Rightarrow> Inl load_error)"

section \<open>The batch of candidates\<close>

text \<open>
  The environment of a hand-written candidate: its author is the model, its template and origin are
  fixed. The derived exercise is made by the same function as in a sampled batch, which is not told of
  the origin; it takes the template from the row of its parent.
\<close>

definition as_author :: "pipeline \<Rightarrow> pipeline" where
  "as_author p = p\<lparr>stb_model := Some author_label, pl_template := (\<lambda>_ _. hand_template),
                   pl_publish := (pl_publish p)\<lparr>origin := hand_origin\<rparr>\<rparr>"

definition as_deriver :: "pipeline \<Rightarrow> pipeline" where
  "as_deriver p = p\<lparr>pl_template := (\<lambda>_ _. hand_template), pl_publish := (pl_publish p)\<lparr>origin := ''llm''\<rparr>\<rparr>"

definition publish_handauthored :: "pipeline \<Rightarrow> bool \<Rightarrow> survivor \<Rightarrow> batch_state \<Rightarrow> batch_state" where
  "publish_handauthored p derive s b =
     (let b1 = publish_survivor (as_author p) False s b in
      case su_candidate s of
        Trace _ \<Rightarrow> b1
      | STB c \<Rightarrow>
          if has_bug_of (su_spec s) \<and> derive \<and> key_lines (su_gate s) \<noteq> []
          then derive_and_publish_ptf (as_deriver p) (su_spec s) c (su_via_repair s) (next_exercise_id b) b1
          else b1)"

definition ingest_one :: "pipeline \<Rightarrow> bool \<Rightarrow> ingest_item \<Rightarrow> batch_state \<Rightarrow> batch_state" where
  "ingest_one p derive x b =
     (case x of (spec, c) \<Rightarrow>
        (case evaluate_candidate (as_author p) spec (STB c) (bump (Total ''specs_sampled'') b) of
           (Inr s, b1) \<Rightarrow> publish_handauthored p derive s b1
         | (Inl rej, b1) \<Rightarrow>
             (let b2 = bump (OfConcept (spec_concept spec) ''exhausted'')
                         (record_reject spec (rj_stage rej) (STB c) b1)
              in b2\<lparr>spec_exhausted := spec_exhausted b2 @ [spec]\<rparr>)))"

text \<open>The canary check of the sandbox raises when the sandbox does not execute code.\<close>

definition ingest_batch ::
    "pipeline \<Rightarrow> bool \<Rightarrow> bool \<Rightarrow> ingest_item list \<Rightarrow> exercise list \<Rightarrow> nat \<Rightarrow> batch_state result" where
  "ingest_batch p canary_ok derive items tbl next_id =
     (if \<not> canary_ok then Inl (RuntimeError ''SandboxUnavailable'')
      else Inr (fold (ingest_one p derive) items (start_batch tbl next_id False False)))"

text \<open>The providers the command line insists on before it loads anything.\<close>

definition providers_ok :: "string \<Rightarrow> string \<Rightarrow> bool" where
  "providers_ok gate_provider generator_provider \<longleftrightarrow> gate_provider = ''openai'' \<and> generator_provider = ''openai''"

section \<open>Wrong fixes for a published exercise\<close>

definition ptf_template :: string where "ptf_template = ''handauthored_ptf_v1''"

text \<open>\<open>str(raw_id)\<close> of a text is the text.\<close>

definition json_text :: "(json \<Rightarrow> string) \<Rightarrow> json \<Rightarrow> string" where
  "json_text pr j = (case j of JStr s \<Rightarrow> s | _ \<Rightarrow> pr j)"

type_synonym ptf_item = "nat \<times> int \<times> fix_variant list"

definition ptf_wrong_fixes :: "reply_env \<Rightarrow> jobj \<Rightarrow> fix_variant list result" where
  "ptf_wrong_fixes V kvs =
     (if ''wrong_fixes'' \<notin> keys kvs then Inl load_error
      else
        (case fixes_shape V (JObj [(''wrong_fixes'', get kvs ''wrong_fixes'' JNull)]) of
           Some fs \<Rightarrow> if length fs = 3 then Inr fs else Inl validation_error
         | None \<Rightarrow> Inl validation_error))"

text \<open>\<open>int(raw_version)\<close> is read after the \<open>try\<close>, so its errors end the load.\<close>

definition load_ptf_item :: "(json \<Rightarrow> string) \<Rightarrow> reply_env \<Rightarrow> json \<Rightarrow> ptf_item option result" where
  "load_ptf_item pr V raw_item =
     (case raw_item of
        JObj kvs \<Rightarrow>
          if get kvs ''prompt_template_id'' JNull \<noteq> JStr ptf_template then Inr None
          else if get kvs ''stb_exercise_id'' JNull = JNull \<or> get kvs ''stb_exercise_version'' JNull = JNull
          then Inr None
          else
            (case uuid_parse (json_text pr (get kvs ''stb_exercise_id'' JNull)) of
               None \<Rightarrow> Inr None
             | Some i \<Rightarrow>
                 (case ptf_wrong_fixes V kvs of
                    Inl e \<Rightarrow> Inr None
                  | Inr fs \<Rightarrow>
                      (case json_int (get kvs ''stb_exercise_version'' JNull) of
                         Inl e \<Rightarrow> Inl e
                       | Inr v \<Rightarrow> Inr (Some (i, v, fs)))))
      | _ \<Rightarrow> Inr None)"

definition load_ptf_batch :: "(json \<Rightarrow> string) \<Rightarrow> reply_env \<Rightarrow> json \<Rightarrow> (ptf_item list \<times> nat) result" where
  "load_ptf_batch pr V raw =
     (case raw of JArr items \<Rightarrow> load_items (load_ptf_item pr V) items | _ \<Rightarrow> Inl load_error)"

definition fetch_stb_for_ptf_derivation :: "exercise list \<Rightarrow> nat \<Rightarrow> int \<Rightarrow> exercise option" where
  "fetch_stb_for_ptf_derivation tbl i v =
     (case find (\<lambda>e. ex_id e = i \<and> int (ex_version e) = v) tbl of
        None \<Rightarrow> None
      | Some e \<Rightarrow>
          if ex_type e = ''spot_the_bug'' \<and> (ex_status e = InReview \<or> ex_status e = Live) then Some e else None)"

text \<open>\<open>source["derived_from"][...].astext\<close>: a text as it is, a number as it prints.\<close>

definition names_version :: "int \<Rightarrow> json \<Rightarrow> bool" where
  "names_version v j = (case j of JInt n \<Rightarrow> n = v | JStr s \<Rightarrow> s = int_str v | _ \<Rightarrow> False)"

definition derived_from :: "nat \<Rightarrow> int \<Rightarrow> exercise \<Rightarrow> bool" where
  "derived_from i v e \<longleftrightarrow>
     ex_type e = ''predict_the_fix'' \<and>
     (case get (ex_source e) ''derived_from'' JNull of
        JObj kvs \<Rightarrow> get kvs ''id'' JNull = JStr (uuid_str i) \<and> names_version v (get kvs ''version'' JNull)
      | _ \<Rightarrow> False)"

definition derived_ptf_exists :: "exercise list \<Rightarrow> nat \<Rightarrow> int \<Rightarrow> bool" where
  "derived_ptf_exists tbl i v \<longleftrightarrow> (\<exists>e\<in>set tbl. derived_from i v e)"

text \<open>
  The view of a row: the fields of a candidate that the derivation reads, the others being empty. A
  missing fixed program rejects the item; any other missing or ill-typed field raises.
\<close>

definition text_field :: "jobj \<Rightarrow> string \<Rightarrow> string result" where
  "text_field kvs k =
     (case map_of kvs k of None \<Rightarrow> Inl KeyError | Some (JStr s) \<Rightarrow> Inr s | Some _ \<Rightarrow> Inl TypeError)"

definition stb_view :: "exercise \<Rightarrow> string \<Rightarrow> string \<Rightarrow> string \<Rightarrow> string \<Rightarrow> string \<Rightarrow> string \<Rightarrow> stb_candidate" where
  "stb_view e buggy fixed test note summary principle =
     \<lparr>buggy_code = buggy, fixed_code = fixed, bug_lines = [], test_code = test, sc_context_note = note,
      reason_options = [], correct_reason_id = [],
      sc_draft = \<lparr>sd_summary = summary, sd_principle = principle, line_notes = []\<rparr>,
      sc_concepts = ex_concepts e, sc_self_difficulty = 0, bug_trigger_condition = None,
      divergence_input = None, buggy_result_on_divergence_input = None,
      fixed_result_on_divergence_input = None, divergence_justification = None\<rparr>"

definition build_stb_view :: "exercise \<Rightarrow> stb_candidate result" where
  "build_stb_view e =
     (case get (ex_grading e) ''artifacts'' (JObj []) of
        JObj a \<Rightarrow>
          if \<not> truthy (get a ''fixed_code'' JNull) then Inl load_error
          else
            (case (text_field a ''fixed_code'', text_field (ex_payload e) ''code'', text_field a ''failing_test'',
                   text_field (ex_payload e) ''context_note'', text_field (ex_explanation e) ''summary'',
                   text_field (ex_explanation e) ''principle'') of
               (Inr fixed, Inr buggy, Inr test, Inr note, Inr summary, Inr principle) \<Rightarrow>
                 Inr (stb_view e buggy fixed test note summary principle)
             | _ \<Rightarrow> Inl KeyError)
      | _ \<Rightarrow> Inl attribute_error)"

definition backfill_concept :: "exercise \<Rightarrow> string" where
  "backfill_concept e = (case ex_concepts e of [] \<Rightarrow> ''unknown'' | c # _ \<Rightarrow> c)"

definition backfill_spec :: "exercise \<Rightarrow> exercise_spec" where
  "backfill_spec e =
     \<lparr>spec_type = ''spot_the_bug'', spec_concept = backfill_concept e, spec_difficulty = ex_difficulty_authored e,
      spec_domain = ''hand-authored predict_the_fix backfill'',
      line_budget_min = fst (line_budget_for_difficulty (ex_difficulty_authored e)),
      line_budget_max = snd (line_budget_for_difficulty (ex_difficulty_authored e)),
      spec_has_bug = Some True, avoid_patterns = []\<rparr>"

definition backfill_row ::
    "pipeline \<Rightarrow> nat \<Rightarrow> exercise \<Rightarrow> stb_candidate \<Rightarrow> fix_variant list \<Rightarrow> ptf_artifacts \<Rightarrow> exercise" where
  "backfill_row p i e c fixes a =
     (let P = (pl_publish p)\<lparr>origin := hand_origin\<rparr> in
      new_exercise i ''predict_the_fix'' (ex_difficulty_authored e) (ex_concepts e)
        (ptf_source P author_label (ptf_content_hash P (buggy_code c) (map fst fixes))
           (get (ex_source e) ''prompt_template_id'' JNull) (uuid_str (ex_id e)) (ex_version e))
        (ptf_payload c a) (ptf_grading P c a) (ptf_explanation c a) (report_path P i))"

definition backfill_derive ::
    "pipeline \<Rightarrow> exercise \<Rightarrow> stb_candidate \<Rightarrow> fix_variant list \<Rightarrow> batch_state \<Rightarrow> batch_state" where
  "backfill_derive p e c fixes b =
     (let spec = backfill_spec e; b1 = bump (Total ''ptf_derivation_attempted'') b in
      case derive_artifacts (pl_scan p) (\<lambda>i. run_code p (runs_done b1 + i)) (shuffle_draw p (draws_done b1)) c
             fixes (line_budget_max spec) of
        Inl stage \<Rightarrow>
          bump (OfConcept (spec_concept spec) ''ptf_rejected'') (bump (Total (stage @ ''_rejected''))
            (b1\<lparr>runs_done := (if stage = ''ptf_static_gate'' then runs_done b1 else runs_done b1 + 10),
                receipts := receipts b1 @ [(stage, spec, STB c)]\<rparr>))
      | Inr a \<Rightarrow>
          (let i = next_exercise_id b1 in
           bump (OfConcept (spec_concept spec) ''ptf_published'') (bump (Total ''ptf_published_in_review'')
             (b1\<lparr>runs_done := runs_done b1 + 10, draws_done := draws_done b1 + 1, next_exercise_id := i + 1,
                 rows := rows b1 @ [backfill_row p i e c fixes a],
                 ptf_published := ptf_published b1 @ [(i, 1)]\<rparr>))))"

definition backfill_one :: "pipeline \<Rightarrow> ptf_item \<Rightarrow> batch_state \<Rightarrow> batch_state result" where
  "backfill_one p x b =
     (case x of (i, v, fixes) \<Rightarrow>
        (let b1 = bump (Total ''specs_sampled'') b in
         case fetch_stb_for_ptf_derivation (rows b1) i v of
           None \<Rightarrow> Inr (bump (Total ''ptf_stb_not_found_rejected'') b1)
         | Some e \<Rightarrow>
             if derived_ptf_exists (rows b1) i v then Inr (bump (Total ''ptf_already_derived_skipped'') b1)
             else
               (case build_stb_view e of
                  Inr c \<Rightarrow> Inr (backfill_derive p e c fixes b1)
                | Inl err \<Rightarrow>
                    if is_load_error err
                    then Inr (bump (OfConcept (backfill_concept e) ''ptf_rejected'')
                                (bump (Total ''ptf_source_incomplete_rejected'') b1))
                    else Inl err)))"

fun backfill_items :: "pipeline \<Rightarrow> ptf_item list \<Rightarrow> batch_state \<Rightarrow> batch_state result" where
  "backfill_items p [] b = Inr b"
| "backfill_items p (x # xs) b =
     (case backfill_one p x b of Inl e \<Rightarrow> Inl e | Inr b' \<Rightarrow> backfill_items p xs b')"

definition ptf_ingest_batch :: "pipeline \<Rightarrow> ptf_item list \<Rightarrow> exercise list \<Rightarrow> nat \<Rightarrow> batch_state result" where
  "ptf_ingest_batch p items tbl next_id = backfill_items p items (start_batch tbl next_id False False)"

end
