(* ===== verification/Publish_Props.thy ===== *)
theory Publish_Props
  imports Publish
begin

text \<open>
  What a published row promises a learner: grading an answer against the stored key agrees with
  what executing the program showed, wherever the shuffle put the choices.
\<close>

section \<open>Shuffles and keys\<close>

lemma set_shuffled: "is_shuffle ps (length xs) \<Longrightarrow> set (shuffled ps xs) = set xs"
  by (simp add: is_shuffle_def shuffled_def lessThan_atLeast0 nth_image [of "length xs" xs])

lemma length_shuffled: "is_shuffle ps n \<Longrightarrow> length (shuffled ps xs) = n"
  by (metis is_shuffle_def shuffled_def length_map distinct_card card_lessThan)

lemma distinct_shuffled:
  assumes "is_shuffle ps (length xs)" "distinct (map f xs)"
  shows "distinct (map f (shuffled ps xs))"
proof -
  have "inj_on (\<lambda>i. f (xs ! i)) (set ps)"
    using assms by (auto simp: is_shuffle_def inj_on_def distinct_conv_nth)
  then show ?thesis using assms(1) by (simp add: shuffled_def is_shuffle_def distinct_map comp_def)
qed

lemma foldl_marked:
  "foldl (\<lambda>k (i, e). if P e then i else k) d xs =
   (case filter (P \<circ> snd) xs of [] \<Rightarrow> d | ys \<Rightarrow> fst (last ys))"
  by (induction xs arbitrary: d) (auto split: list.split prod.split)

text \<open>
  Numbering entries that differ in a field and of which one is marked: the key is the number of the
  marked entry and of no other.
\<close>

lemma numbered_key:
  assumes "distinct ids" "length ids = length es"
    and "distinct (map f es)" "\<exists>e\<in>set es. P e" "\<And>e e'. e \<in> set es \<Longrightarrow> e' \<in> set es \<Longrightarrow> P e \<Longrightarrow> P e' \<Longrightarrow> e = e'"
    and "(i, e) \<in> set (zip ids es)"
  shows "foldl (\<lambda>k (i, e). if P e then i else k) d (zip ids es) = i \<longleftrightarrow> P e"
proof -
  have dz: "distinct (zip ids es)" using assms(1,2) by (simp add: distinct_zipI1)
  obtain e0 where e0: "e0 \<in> set es" "P e0" using assms(4) by blast
  obtain n where n: "n < length es" "es ! n = e0" using e0(1) by (metis in_set_conv_nth)
  define i0 where "i0 = ids ! n"
  have i0: "(i0, e0) \<in> set (zip ids es)"
    using n assms(2) by (force simp: i0_def set_zip)
  have "filter (P \<circ> snd) (zip ids es) = [(i0, e0)]"
  proof (rule filter_unique [OF dz i0])
    show "(P \<circ> snd) (i0, e0)" using e0 by simp
    fix y assume y: "y \<in> set (zip ids es)" "(P \<circ> snd) y"
    obtain j e' where je: "y = (j, e')" by (cases y)
    have "e' \<in> set es" using y je by (simp add: set_zip_rightD)
    then have "e' = e0" using assms(5) e0 y je by simp
    moreover obtain m where m: "m < length es" "es ! m = e'" "j = ids ! m"
      using y je assms(2) by (auto simp: set_zip)
    ultimately have "m = n"
      using n assms(3) by (metis distinct_map nth_eq_iff_index_eq)
    with m \<open>e' = e0\<close> show "y = (i0, e0)" by (simp add: je i0_def)
  qed
  then have key: "foldl (\<lambda>k (i, e). if P e then i else k) d (zip ids es) = i0" by (simp add: foldl_marked)
  have "i0 = i \<longleftrightarrow> e0 = e"
  proof -
    obtain m where m: "m < length es" "es ! m = e" "i = ids ! m" using assms(2,6) by (auto simp: set_zip)
    show ?thesis
      using m n assms(1,2,3) by (metis distinct_map i0_def nth_eq_iff_index_eq)
  qed
  moreover have "P e \<longleftrightarrow> e0 = e"
    using assms(5) e0 assms(6) by (metis set_zip_rightD)
  ultimately show ?thesis using key by simp
qed

section \<open>Traces\<close>

lemma entry_correct:
  assumes "gr_accepted (validate_trace run c)"
    and "e \<in> set (trace_entries c (normalize_stdout (run_stdout (run 0 (tr_code c)))))"
  shows "ce_correct e \<longleftrightarrow> ce_text e = normalize_stdout (run_stdout (run 0 (tr_code c)))"
  using assms(2) accepted_traceE(4) [OF assms(1)] by (auto simp: trace_entries_def split: if_splits)

text \<open>
  C30: The stored key of a published trace is right about the program. For a candidate that the
  sandbox accepted and whose choices have distinct ids, one of them the correct one, and for every
  shuffle: the row shows choices with the same ids, and grading the answer that names a choice
  returns correct exactly when the text of that choice is the output the program printed.
\<close>

theorem trace_key_is_the_printed_output:
  assumes "gr_accepted (validate_trace run c)" and "distinct (map ch_id (choices c))"
    and "correct_choice_id c \<in> set (map ch_id (choices c))"
    and "is_shuffle ps (length (choices c))" and "spec_type spec = ''trace''"
    and "captured_stdout (validate_trace run c) = Some out"
    and "row = insert_trace P ps i model h spec c out (validate_trace run c)"
  shows "\<exists>xs. map_of (ex_payload row) ''choices'' = Some (JArr (map choice_json xs)) \<and>
    set (map ch_id xs) = set (map ch_id (choices c)) \<and> distinct (map ch_id xs) \<and>
    (\<forall>x\<in>set xs. grade_deterministic row [(''choice_id'', JStr (ch_id x))] = Inr (Some (ch_text x = out)))"
proof -
  define es where "es = shuffled ps (trace_entries c out)"
  define ids where "ids = sort (map old_id es)"
  define xs where "xs = map (\<lambda>(i, e). \<lparr>ch_id = i, ch_text = ce_text e, misconception = ce_misconception e\<rparr>) (zip ids es)"
  define key where "key = foldl (\<lambda>k (i, e). if ce_correct e then i else k) [] (zip ids es)"
  have out: "out = normalize_stdout (run_stdout (run 0 (tr_code c)))"
    using accepted_traceE(3) [OF assms(1)] assms(6) by simp
  have sh: "is_shuffle ps (length (trace_entries c out))" using assms(4) by (simp add: trace_entries_def)
  have old: "map old_id (trace_entries c out) = map ch_id (choices c)" by (simp add: trace_entries_def)
  have set_es: "set es = set (trace_entries c out)" using set_shuffled [OF sh] by (simp add: es_def)
  have d: "distinct (map old_id es)" unfolding es_def using distinct_shuffled [OF sh] old assms(2) by metis
  have len: "length ids = length es" by (simp add: ids_def)
  have did: "distinct ids" using d by (simp add: ids_def)
  have set_ids: "set ids = set (map ch_id (choices c))"
    using set_es old by (metis ids_def set_sort list.set_map)
  have one: "\<exists>e\<in>set es. ce_correct e"
    using assms(3) set_es by (force simp: trace_entries_def)
  have uniq: "e = e'" if "e \<in> set es" "e' \<in> set es" "ce_correct e" "ce_correct e'" for e e'
  proof -
    have "old_id e = old_id e'" using that set_es by (auto simp: trace_entries_def)
    then show ?thesis using d that by (metis distinct_map inj_onD)
  qed
  have key_iff: "key = i \<longleftrightarrow> ce_text e = out" if "(i, e) \<in> set (zip ids es)" for i e
  proof -
    have "e \<in> set (trace_entries c out)" using that set_es by (metis set_zip_rightD)
    then show ?thesis
      using numbered_key [OF did len d one uniq that] entry_correct [OF assms(1)] by (simp add: key_def out)
  qed
  have re: "reassign_shuffled_choice_ids ps (trace_entries c out) =
      (xs, key, map (\<lambda>(i, e). (old_id e, i)) (zip ids es))"
    by (simp add: reassign_shuffled_choice_ids_def Let_def es_def ids_def xs_def key_def)
  have row: "ex_type row = ''trace''" "ex_payload row = trace_payload c xs"
      "ex_grading row = trace_grading key out (sandbox_report P (validate_trace run c))"
    using assms(5,7) by (simp_all add: insert_trace_def re new_exercise_def)
  have chids: "map ch_id xs = ids"
    by (simp add: xs_def case_prod_beta comp_def map_fst_zip [OF len])
  have "grade_deterministic row [(''choice_id'', JStr (ch_id x))] = Inr (Some (ch_text x = out))"
    if x: "x \<in> set xs" for x
  proof -
    obtain i e where "(i, e) \<in> set (zip ids es)" "ch_id x = i" "ch_text x = ce_text e"
      using x by (auto simp: xs_def)
    then show ?thesis
      using key_iff [of i e] row
      by (auto simp: grade_deterministic_def is_skip_answer_def keys_def grade_choice_def item_def
          trace_grading_def get_def)
  qed
  moreover have "map_of (ex_payload row) ''choices'' = Some (JArr (map choice_json xs))"
    by (simp add: row trace_payload_def)
  ultimately show ?thesis using chids did set_ids by (intro exI [of _ xs]) simp
qed


definition sample_trace :: trace_candidate where
  "sample_trace = \<lparr>tr_code = ''print(6)'', tr_context_note = [], question = ''?'', expected_stdout = ''6'',
     choices = map (\<lambda>(i, t). \<lparr>ch_id = i, ch_text = t, misconception = None\<rparr>)
       [(''a'', ''6''), (''b'', ''5''), (''c'', ''1''), (''d'', ''0'')],
     correct_choice_id = ''a'',
     tr_draft = \<lparr>td_summary = ''6'', td_principle = [], trace_table = [],
       why_wrong = [(''b'', ''x''), (''c'', ''y''), (''d'', ''z'')]\<rparr>,
     tr_concepts = [''k''], tr_self_difficulty = 2\<rparr>"

definition printing :: "string \<Rightarrow> nat \<Rightarrow> string \<Rightarrow> run_result" where
  "printing s n p = \<lparr>exit_code = Some 0, run_stdout = s @ [CHR 10], run_stderr = []\<rparr>"

definition sample_publish_env :: publish_env where
  "sample_publish_env = \<lparr>sha256 = (\<lambda>s. s), report_path = (\<lambda>_. ''p''), report_texts = [],
     sandbox_report = (\<lambda>_. JNull), taxonomy_version = ''v1'', prompt_id = ''t'', origin = ''llm''\<rparr>"

definition sample_trace_spec :: exercise_spec where
  "sample_trace_spec = \<lparr>spec_type = ''trace'', spec_concept = ''k'', spec_difficulty = 2, spec_domain = [],
     line_budget_min = 1, line_budget_max = 20, spec_has_bug = None, avoid_patterns = []\<rparr>"

lemma trace_key_is_the_printed_output_witness:
  "\<exists>xs. map_of (ex_payload (insert_trace sample_publish_env [2, 0, 3, 1] 7 ''m'' ''h'' sample_trace_spec
       sample_trace ''6'' (validate_trace (printing ''6'') sample_trace))) ''choices'' =
     Some (JArr (map choice_json xs)) \<and> distinct (map ch_id xs)"
proof -
  have "gr_accepted (validate_trace (printing ''6'') sample_trace)"
    "distinct (map ch_id (choices sample_trace))"
    "correct_choice_id sample_trace \<in> set (map ch_id (choices sample_trace))"
    "captured_stdout (validate_trace (printing ''6'') sample_trace) = Some ''6''"
    "spec_type sample_trace_spec = ''trace''"
    by code_simp+
  moreover have "is_shuffle [2, 0, 3, 1] (length (choices sample_trace))"
    by (auto simp: is_shuffle_def sample_trace_def)
  ultimately show ?thesis using trace_key_is_the_printed_output [OF _ _ _ _ _ _ refl] by metis
qed

text \<open>
  The schema does not require the correct id to be one of the ids: such a candidate is valid, can
  pass the sandbox, and is published with an empty key, so that no choice is graded correct.
\<close>

definition keyless_trace :: trace_candidate where
  "keyless_trace = sample_trace\<lparr>correct_choice_id := ''z'', expected_stdout := ''7'',
     tr_draft := \<lparr>td_summary = ''7'', td_principle = [], trace_table = [],
       why_wrong = [(''a'', ''w''), (''b'', ''x''), (''c'', ''y''), (''d'', ''z'')]\<rparr>\<rparr>"

lemma published_key_can_be_empty:
  "schema_ok (Trace keyless_trace)"
  "gr_accepted (validate_trace (printing ''7'') keyless_trace)"
  "fst (snd (reassign_shuffled_choice_ids [2, 0, 3, 1] (trace_entries keyless_trace ''7''))) = []"
  by code_simp+

section \<open>Predict the fix\<close>

lemma derivedE:
  assumes "derive_artifacts scan run ps c variants hi = Inr a"
  defines "es \<equiv> shuffled ps ((fixed_code c, None) # map (\<lambda>(w, n). (w, Some n)) variants)"
  shows "gr_accepted (validate_predict_the_fix run (buggy_code c) (fixed_code c) (test_code c) (map fst variants))"
    "pa_choices a = map (\<lambda>(i, e). (i, fst e)) (zip [''a'', ''b'', ''c'', ''d''] es)"
    "pa_correct a = foldl (\<lambda>k (i, e). if snd e = None then i else k) [] (zip [''a'', ''b'', ''c'', ''d''] es)"
proof -
  have eq: "(\<lambda>k (i, w :: string, n). if n = None then i else k) = (\<lambda>k (i :: string, e). if snd e = (None :: string option) then i else k)"
    by (intro ext) auto
  have eq': "(\<lambda>(i, w, n). (i, w)) = (\<lambda>(i :: string, e :: string \<times> string option). (i, fst e))" by (intro ext) auto
  note def = assms(1) [unfolded derive_artifacts_def Let_def eq eq']
  show "gr_accepted (validate_predict_the_fix run (buggy_code c) (fixed_code c) (test_code c) (map fst variants))"
    "pa_choices a = map (\<lambda>(i, e). (i, fst e)) (zip [''a'', ''b'', ''c'', ''d''] es)"
    "pa_correct a = foldl (\<lambda>k (i, e). if snd e = None then i else k) [] (zip [''a'', ''b'', ''c'', ''d''] es)"
    using def by (auto simp: es_def split: if_splits)
qed

text \<open>
  C31: A derived \<open>predict_the_fix\<close> has exactly one answer that passes its test, and the stored key is
  that answer. Whatever the shuffle of the four choices: they have distinct ids and show the
  verified fix and the wrong fixes; grading a choice returns correct exactly when its program is the
  verified fix; that program passed the test in the sandbox and every other choice failed it.
\<close>

theorem predict_the_fix_has_one_answer:
  assumes "derive_artifacts scan run ps c variants hi = Inr a"
    and "is_shuffle ps 4" and "length variants = 3"
    and "row = insert_predict_the_fix P i model from_id spec c variants a"
  shows "map_of (ex_payload row) ''choices'' =
      Some (JArr (map (\<lambda>(i, w). JObj [(''id'', JStr i), (''text'', JStr w)]) (pa_choices a))) \<and>
    distinct (map fst (pa_choices a)) \<and>
    set (map snd (pa_choices a)) = set (fixed_code c # map fst variants) \<and>
    (\<forall>(j, w)\<in>set (pa_choices a).
       grade_deterministic row [(''choice_id'', JStr j)] = Inr (Some (w = fixed_code c)) \<and>
       (if w = fixed_code c then passes (run 0 (concat_snippets w (test_code c)))
        else \<exists>n. fails_assertion (run n (concat_snippets w (test_code c)))))"
proof -
  define ids where "ids = [''a'', ''b'', ''c'', ''d'']"
  define es0 where "es0 = (fixed_code c, None) # map (\<lambda>(w, n). (w, Some n)) variants"
  define es where "es = shuffled ps es0"
  note derived = derivedE [OF assms(1), folded es0_def, folded es_def ids_def]
  note acc = accepted_ptfE [OF derived(1)]
  have firsts: "map fst es0 = fixed_code c # map fst variants" by (auto simp: es0_def)
  have sh: "is_shuffle ps (length es0)" using assms(2,3) by (simp add: es0_def)
  have len: "length ids = length es" using length_shuffled [OF assms(2), of es0] by (simp add: ids_def es_def)
  have did: "distinct ids" by (simp add: ids_def)
  have set_es: "set es = set es0" using set_shuffled [OF sh] by (simp add: es_def)
  have "distinct (map fst es0)" unfolding firsts using acc(5) by (metis distinct_map)
  then have d: "distinct (map fst es)" unfolding es_def using distinct_shuffled [OF sh] by metis
  have none_iff: "snd e = None \<longleftrightarrow> fst e = fixed_code c" if "e \<in> set es" for e
  proof -
    have "fixed_code c \<notin> set (map fst variants)"
      using acc(5) by (auto simp: image_iff)
    then show ?thesis using that set_es by (force simp: es0_def)
  qed
  have uniq: "e = e'" if "e \<in> set es" "e' \<in> set es" "snd e = None" "snd e' = None" for e e'
    using that none_iff d by (metis distinct_map inj_onD)
  have one: "\<exists>e\<in>set es. snd e = None" using set_es by (auto simp: es0_def)
  have key: "pa_correct a = j \<longleftrightarrow> fst e = fixed_code c" if "(j, e) \<in> set (zip ids es)" for j e
  proof -
    have "foldl (\<lambda>k (i, e). if snd e = None then i else k) [] (zip ids es) = j \<longleftrightarrow> snd e = None"
      by (rule numbered_key [where P = "\<lambda>e. snd e = None", OF did len d one _ that]) (rule uniq)
    then show ?thesis using none_iff [of e] that by (simp add: derived(3) set_zip_rightD)
  qed
  have row: "ex_type row = ''predict_the_fix''" "ex_payload row = ptf_payload c a"
      "ex_grading row = ptf_grading P c a"
    using assms(4) by (simp_all add: insert_predict_the_fix_def new_exercise_def)
  have "map fst (pa_choices a) = map fst (zip ids es)"
    by (simp add: derived(2) case_prod_beta comp_def)
  moreover have "map snd (pa_choices a) = map fst (map snd (zip ids es))"
    by (simp add: derived(2) case_prod_beta comp_def)
  ultimately have ids_of: "map fst (pa_choices a) = ids" "map snd (pa_choices a) = map fst es"
    by (simp_all only: map_fst_zip [OF len] map_snd_zip [OF len])
  have "grade_deterministic row [(''choice_id'', JStr j)] = Inr (Some (w = fixed_code c)) \<and>
      (if w = fixed_code c then passes (run 0 (concat_snippets w (test_code c)))
       else \<exists>n. fails_assertion (run n (concat_snippets w (test_code c))))"
    if jw: "(j, w) \<in> set (pa_choices a)" for j w
  proof -
    obtain e where e: "(j, e) \<in> set (zip ids es)" "w = fst e" using jw by (auto simp: derived(2))
    have graded: "grade_deterministic row [(''choice_id'', JStr j)] = Inr (Some (w = fixed_code c))"
      using key [OF e(1)] e(2) row
      by (auto simp: grade_deterministic_def is_skip_answer_def keys_def grade_choice_def item_def
          ptf_grading_def get_def)
    have "\<exists>n. fails_assertion (run n (concat_snippets w (test_code c)))" if "w \<noteq> fixed_code c"
    proof -
      have "e \<in> set es0" using e(1) set_es by (metis set_zip_rightD)
      then have "w \<in> set (map fst variants)" using that e(2) by (force simp: es0_def)
      then obtain m where "m < length (map fst variants)" "map fst variants ! m = w" by (metis in_set_conv_nth)
      then show ?thesis using acc(3) by metis
    qed
    with graded acc(1) show ?thesis by simp
  qed
  moreover have "map_of (ex_payload row) ''choices'' =
      Some (JArr (map (\<lambda>(i, w). JObj [(''id'', JStr i), (''text'', JStr w)]) (pa_choices a)))"
    by (simp add: row ptf_payload_def)
  moreover have "set (map fst es) = set (fixed_code c # map fst variants)"
    by (metis firsts set_es list.set_map)
  ultimately show ?thesis unfolding ids_of using did by blast
qed

definition sample_variants :: "fix_variant list" where
  "sample_variants = [(''b1'', ''x''), (''b2'', ''y''), (''b3'', ''z'')]"

lemma sample_derived:
  "\<exists>a. derive_artifacts sample_scan sample_run [1, 0, 3, 2] sample_stb sample_variants 20 = Inr a"
proof -
  have "is_ok (map_sum (\<lambda>_. KeyError) id
      (derive_artifacts sample_scan sample_run [1, 0, 3, 2] sample_stb sample_variants 20))"
    by code_simp
  then show ?thesis
    by (cases "derive_artifacts sample_scan sample_run [1, 0, 3, 2] sample_stb sample_variants 20") auto
qed

lemma predict_the_fix_has_one_answer_witness:
  "\<exists>(a :: ptf_artifacts). derive_artifacts sample_scan sample_run [1, 0, 3, 2] sample_stb sample_variants 20 = Inr a \<and>
     distinct (map fst (pa_choices a)) \<and>
     set (map snd (pa_choices a)) = set (fixed_code sample_stb # map fst sample_variants)"
proof -
  obtain a where a: "derive_artifacts sample_scan sample_run [1, 0, 3, 2] sample_stb sample_variants 20 = Inr a"
    using sample_derived by blast
  have "is_shuffle [1, 0, 3, 2] 4" "length sample_variants = 3"
    by (auto simp: is_shuffle_def sample_variants_def)
  then show ?thesis using predict_the_fix_has_one_answer [OF a _ _ refl] a by blast
qed

end
