(* ===== verification/Batch_Props.thy ===== *)
theory Batch_Props
  imports Batch Publish_Props
begin

text \<open>
  What a batch guarantees: nothing enters the table without having passed every gate, no two
  primary exercises share a content hash with each other or with the pool, the calls of the generator
  are bounded by the budget, and every specification ends published or exhausted.
\<close>

section \<open>What evaluation leaves alone\<close>

definition shelf :: "batch_state \<Rightarrow> exercise list \<times> string set \<times> (nat \<times> nat) list \<times> exercise_spec list" where
  "shelf b = (rows b, dedup_pool b, published b, spec_exhausted b)"

lemma shelf_bump [simp]:
  "shelf (bump k b) = shelf b" "gen_calls (bump k b) = gen_calls b" "dedup_pool (bump k b) = dedup_pool b"
  by (simp_all add: bump_def shelf_def)

lemma shelf_bump_check [simp]:
  "shelf (bump_check w k b) = shelf b" "gen_calls (bump_check w k b) = gen_calls b"
  by (simp_all add: bump_check_def split: option.split)

lemma shelf_updates [simp]:
  "shelf (b\<lparr>runs_done := n\<rparr>) = shelf b" "shelf (b\<lparr>judge_calls := n\<rparr>) = shelf b"
  "shelf (b\<lparr>gen_calls := n\<rparr>) = shelf b" "shelf (b\<lparr>receipts := rs\<rparr>) = shelf b"
  "shelf (b\<lparr>counts := cs\<rparr>) = shelf b" "shelf (b\<lparr>mechanisms := ms\<rparr>) = shelf b"
  "shelf (b\<lparr>coverage := cov\<rparr>) = shelf b"
  by (simp_all add: shelf_def)

lemma shelf_record_reject [simp]:
  "shelf (record_reject spec stage c b) = shelf b" "gen_calls (record_reject spec stage c b) = gen_calls b"
  by (simp_all add: record_reject_def)

lemma shelf_pool: "shelf b = shelf b' \<Longrightarrow> dedup_pool b = dedup_pool b'"
  by (simp add: shelf_def)

lemma stages_shelf:
  "sandbox_stage p spec c b = (g, b') \<Longrightarrow> shelf b' = shelf b \<and> gen_calls b' = gen_calls b"
  "semantic_stage p spec c g b = (out, b') \<Longrightarrow> shelf b' = shelf b \<and> gen_calls b' = gen_calls b"
  by (auto simp: sandbox_stage_def semantic_stage_def Let_def split: pipeline_candidate.splits prod.splits)

section \<open>Cleared survivors\<close>

definition of_kind :: "string \<Rightarrow> pipeline_candidate \<Rightarrow> bool" where
  "of_kind ty c \<longleftrightarrow> (ty = ''spot_the_bug'') = (\<exists>s. c = STB s)"

text \<open>A survivor that went through the whole chain, whatever runs and replies it was given.\<close>

definition cleared :: "pipeline \<Rightarrow> survivor \<Rightarrow> bool" where
  "cleared p s \<longleftrightarrow>
     of_kind (spec_type (su_spec s)) (su_candidate s) \<and>
     static_gate_check (pl_scan p) (su_candidate s) (su_spec s) = [] \<and>
     (\<exists>b. su_gate s = fst (sandbox_stage p (su_spec s) (su_candidate s) b)) \<and> gr_accepted (su_gate s) \<and>
     (\<exists>b. su_semantic s = fst (semantic_stage p (su_spec s) (su_candidate s) (su_gate s) b)) \<and>
     so_survived (su_semantic s) \<and> su_hash s = content_hash_of p (code_of (su_candidate s))"

lemma evaluate_ok:
  assumes "evaluate_candidate p spec c b = (r, b')"
  shows "shelf b' = shelf b" "gen_calls b' = gen_calls b"
    "r = Inr s \<Longrightarrow> of_kind (spec_type spec) c \<Longrightarrow> cleared p s \<and> su_spec s = spec \<and> su_hash s \<notin> dedup_pool b"
proof -
  obtain g b1 where g: "sandbox_stage p spec c (bump (Total ''static_gate_passed'') b) = (g, b1)" by fastforce
  define b3 where "b3 = (if bug_lines_claim_mismatch g
      then bump (Total ''stb_bug_lines_claim_mismatch'') (bump (Total ''sandbox_gate_passed'') b1)
      else bump (Total ''sandbox_gate_passed'') b1)"
  obtain out b4 where out: "semantic_stage p spec c g b3 = (out, b4)" by fastforce
  have b1: "shelf b1 = shelf b" "gen_calls b1 = gen_calls b" using stages_shelf(1) [OF g] by simp_all
  then have b3: "shelf b3 = shelf b" "gen_calls b3 = gen_calls b" by (simp_all add: b3_def)
  then have b4: "shelf b4 = shelf b" "gen_calls b4 = gen_calls b" using stages_shelf(2) [OF out] by simp_all
  note eval = assms [unfolded evaluate_candidate_def g prod.case Let_def, folded b3_def, unfolded out prod.case]
  show "shelf b' = shelf b" "gen_calls b' = gen_calls b" using eval b1 b4 by (auto split: if_splits)
  have "dedup_pool (bump (Total ''semantic_gate_passed'') b4) = dedup_pool b"
    using b4 by (intro shelf_pool) simp
  moreover assume r: "r = Inr s" and kind: "of_kind (spec_type spec) c"
  ultimately have s: "s = \<lparr>su_spec = spec, su_candidate = c, su_model = gen_model_of p spec,
        su_hash = content_hash_of p (code_of c), su_gate = g, su_semantic = out,
        su_quality = score_survivor (signals_of spec c g out), su_via_repair = False\<rparr> \<and>
      static_gate_check (pl_scan p) c spec = [] \<and> gr_accepted g \<and> so_survived out \<and>
      content_hash_of p (code_of c) \<notin> dedup_pool b"
    using eval by (auto split: if_splits)
  have "\<exists>b. g = fst (sandbox_stage p spec c b)" "\<exists>b. out = fst (semantic_stage p spec c g b)"
    using g out by (metis fst_conv)+
  then show "cleared p s \<and> su_spec s = spec \<and> su_hash s \<notin> dedup_pool b"
    using s kind by (simp add: cleared_def)
qed

lemma cleared_via_repair [simp]: "cleared p (x\<lparr>su_via_repair := v\<rparr>) = cleared p x"
  by (simp add: cleared_def)

lemma run_lineage_ok:
  assumes "run_lineage p pol spec c rounds checks prev used b = (s, used', b')"
    and "of_kind (spec_type spec) c"
  shows "shelf b' = shelf b \<and> gen_calls b' \<le> gen_calls b + 2 * nat (used' - used) \<and>
    used \<le> used' \<and> used' \<le> max used (max_attempts_per_spec pol) \<and>
    (\<forall>x. s = Some x \<longrightarrow> cleared p x \<and> su_spec x = spec \<and> su_hash x \<notin> dedup_pool b)"
  using assms
proof (induction p pol spec c rounds checks prev used b arbitrary: s used' b' rule: run_lineage.induct)
  case (1 p pol spec c rounds checks prev used b)
  obtain r b1 where ev: "evaluate_candidate p spec c b = (r, b1)" by fastforce
  note ok = evaluate_ok [OF ev]
  show ?case
  proof (cases r)
    case (Inr x)
    then have "cleared p (x\<lparr>su_via_repair := v\<rparr>) \<and> su_spec x = spec \<and> su_hash x \<notin> dedup_pool b" for v
      using ok(3) 1(3) by simp
    then show ?thesis
      using 1(2) ok(1,2) by (auto simp: run_lineage.simps [of p pol spec c rounds checks prev used b] ev Inr)
  next
    case (Inl rej)
    define b2 where "b2 = bump_check ''repair_failed'' prev (record_reject spec (rj_stage rej) c b1)"
    have b2: "shelf b2 = shelf b" "gen_calls b2 = gen_calls b" using ok by (simp_all add: b2_def)
    obtain q m where rep: "repair_candidate (pl_replies p) (spec_type spec) (gen_reply p) (gen_calls b2) = (q, m)"
      by fastforce
    define b3 where "b3 = (bump_check ''repair_attempted'' (Some (rj_check rej)) b2)\<lparr>gen_calls := m\<rparr>"
    have b3: "shelf b3 = shelf b" "gen_calls b3 \<le> gen_calls b + 2"
      using b2 generate_calls(2) [OF rep] by (simp_all add: b3_def)
    note run = 1(2) [unfolded run_lineage.simps [of p pol spec c rounds checks prev used b] ev Inl prod.case
        sum.case Let_def, folded b2_def, unfolded rep prod.case, folded b3_def]
    show ?thesis
    proof (cases "repair_enabled pol \<and> rj_class rej = Repairable \<and> rounds < max_repair_rounds pol \<and>
        rj_check rej \<notin> set checks \<and> 0 < max_attempts_per_spec pol - used")
      case False
      then show ?thesis using run b2 by (auto split: if_splits)
    next
      case go: True
      show ?thesis
      proof (cases q)
        case d: (Inl d)
        have eqs: "s = None" "used' = used + 1" "shelf b' = shelf b3" "gen_calls b' = gen_calls b3"
          using run go d by auto
        then show ?thesis using b3 go by auto
      next
        case c': (Inr c')
        have rec: "run_lineage p pol spec c' (rounds + 1) (rj_check rej # checks) (Some (rj_check rej)) (used + 1) b3
            = (s, used', b')"
          using run go c' by auto
        have IH: "shelf b' = shelf b3 \<and> gen_calls b' \<le> gen_calls b3 + 2 * nat (used' - (used + 1)) \<and>
            used + 1 \<le> used' \<and> used' \<le> max (used + 1) (max_attempts_per_spec pol) \<and>
            (\<forall>x. s = Some x \<longrightarrow> cleared p x \<and> su_spec x = spec \<and> su_hash x \<notin> dedup_pool b3)"
          using 1(1) [OF ev [symmetric] Inl b2_def refl] go rep c' b3_def rec generated_type(2) [OF rep [unfolded c']]
          by (simp add: not_le of_kind_def)
        have "2 * nat (used' - (used + 1)) + 2 \<le> 2 * nat (used' - used)" using IH by arith
        then show ?thesis using IH b3 go shelf_pool [OF b3(1)] by auto
      qed
    qed
  qed
qed

lemma generate_loop_ok:
  assumes "generate_loop p pol spec used ss b = (ss', used', b')"
  shows "shelf b' = shelf b \<and> gen_calls b' \<le> gen_calls b + 2 * nat (used' - used) \<and>
    used \<le> used' \<and> used' \<le> max used (max_attempts_per_spec pol) \<and>
    (\<forall>x\<in>set ss'. x \<in> set ss \<or> cleared p x \<and> su_spec x = spec \<and> su_hash x \<notin> dedup_pool b)"
  using assms
proof (induction p pol spec used ss b arbitrary: ss' used' b' rule: generate_loop.induct)
  case (1 p pol spec used ss b)
  show ?case
  proof (cases "max_attempts_per_spec pol - used \<le> 0")
    case True
    then show ?thesis using 1(4) by (simp add: generate_loop.simps [of p pol spec used ss b])
  next
    case budget: False
    obtain r m where gen: "generate_candidate (pl_replies p) (spec_type spec) (gen_reply p) (gen_calls b) = (r, m)"
      by fastforce
    define b1 where "b1 = bump (Total ''generated_total'') (b\<lparr>gen_calls := m\<rparr>)"
    have b1: "shelf b1 = shelf b" "gen_calls b1 \<le> gen_calls b + 2"
      using generate_calls(1) [OF gen] by (simp_all add: b1_def)
    note run = 1(4) [unfolded generate_loop.simps [of p pol spec used ss b] gen prod.case Let_def, folded b1_def]
    show ?thesis
    proof (cases r)
      case (Inl d)
      define b2 where "b2 = bump (OfConcept (spec_concept spec) ''rejected'')
        (bump (OfDiscard ''generate_discarded'' d) b1)"
      have b2: "shelf b2 = shelf b" "gen_calls b2 \<le> gen_calls b + 2" using b1 by (simp_all add: b2_def)
      have rec: "generate_loop p pol spec (used + 1) ss b2 = (ss', used', b')"
        using run budget by (simp add: Inl b2_def)
      have "2 * nat (used' - (used + 1)) + 2 \<le> 2 * nat (used' - used)" if "used + 1 \<le> used'"
        using that by arith
      then show ?thesis
        using 1(1) [OF budget gen [symmetric] b1_def Inl] rec b2 budget shelf_pool [OF b2(1)] by (force simp: b2_def)
    next
      case (Inr c)
      obtain s u b2 where lin: "run_lineage p pol spec c 0 [] None (used + 1)
          (bump (Total ''generate_passed'') b1) = (s, u, b2)" by (metis prod_cases3)
      have "of_kind (spec_type spec) c" using generated_type(1) [OF gen [unfolded Inr]] by (simp add: of_kind_def)
      note L = run_lineage_ok [OF lin this]
      have b2: "shelf b2 = shelf b" using L b1 by simp
      have "2 * nat (u - (used + 1)) + 2 \<le> 2 * nat (u - used)" using L by arith
      then have calls: "gen_calls b2 \<le> gen_calls b + 2 * nat (u - used)" using L b1 by simp
      have u: "used + 1 \<le> u" "u \<le> max used (max_attempts_per_spec pol)" using L budget by auto
      have pool: "dedup_pool (bump (Total ''generate_passed'') b1) = dedup_pool b" "dedup_pool b2 = dedup_pool b"
        using b1(1) b2 by (simp_all add: shelf_def)
      have add: "2 * nat (u - used) + 2 * nat (used' - u) \<le> 2 * nat (used' - used)" if "u \<le> used'"
        using that u by arith
      show ?thesis
      proof (cases s)
        case None
        have "generate_loop p pol spec u ss b2 = (ss', used', b')" using run budget by (simp add: Inr lin None)
        then show ?thesis
          using 1(2) [OF budget gen [symmetric] b1_def Inr lin [symmetric] None refl] b2 calls u pool add by force
      next
        case (Some x)
        have x: "cleared p x \<and> su_spec x = spec \<and> su_hash x \<notin> dedup_pool b" using L pool Some by simp
        show ?thesis
        proof (cases "best_of_n_enabled pol \<and> want_more_survivors (ss @ [x]) spec (coverage b2) u pol")
          case True
          have "generate_loop p pol spec u (ss @ [x]) b2 = (ss', used', b')"
            using run budget True by (simp add: Inr lin Some)
          then show ?thesis
            using 1(3) [OF budget gen [symmetric] b1_def Inr lin [symmetric] Some refl True] b2 calls u pool add x
            by force
        next
          case False
          have "(ss', used', b') = (ss @ [x], u, b2)" using run budget False by (auto simp: Inr lin Some)
          then show ?thesis using b2 calls u x by auto
        qed
      qed
    qed
  qed
qed

section \<open>Rows that execution stands for\<close>

definition survivor_row :: "pipeline \<Rightarrow> exercise \<Rightarrow> bool" where
  "survivor_row p r \<longleftrightarrow> (\<exists>s i ps. cleared p s \<and> r = row_of_survivor p i ps s)"

definition derived_row :: "pipeline \<Rightarrow> exercise \<Rightarrow> bool" where
  "derived_row p r \<longleftrightarrow>
     (\<exists>s c i parent fixes k ps a. cleared p s \<and> su_candidate s = STB c \<and>
        derive_artifacts (pl_scan p) (\<lambda>n. run_code p (k + n)) ps c fixes (line_budget_max (su_spec s)) = Inr a \<and>
        r = insert_predict_the_fix (publish_env_of p (su_spec s) (su_via_repair s)) i (base_model p)
              (id_text p parent) (su_spec s) c fixes a)"

definition proven :: "pipeline \<Rightarrow> exercise \<Rightarrow> bool" where
  "proven p r \<longleftrightarrow> survivor_row p r \<or> derived_row p r"

lemma survivor_rowI: "cleared p s \<Longrightarrow> survivor_row p (row_of_survivor p i ps s)"
  unfolding survivor_row_def by blast

lemma derived_rowI:
  assumes "cleared p s" and "su_candidate s = STB c"
    and "derive_artifacts (pl_scan p) (\<lambda>n. run_code p (k + n)) ps c fixes (line_budget_max (su_spec s)) = Inr a"
  shows "derived_row p (insert_predict_the_fix (publish_env_of p (su_spec s) (su_via_repair s)) i (base_model p)
    (id_text p parent) (su_spec s) c fixes a)"
  using assms unfolding derived_row_def by blast

definition primary :: "exercise \<Rightarrow> bool" where
  "primary r \<longleftrightarrow> map_of (ex_source r) ''derived_from'' = None"

definition hash_of :: "exercise \<Rightarrow> json option" where
  "hash_of r = map_of (ex_source r) ''content_hash''"

lemma source_json_hash:
  "map_of (source_json P m h) ''content_hash'' = Some (JStr h)" "map_of (source_json P m h) ''derived_from'' = None"
  by (simp_all add: source_json_def)

lemma stb_source_hash:
  "map_of (stb_source P m h spec c) ''content_hash'' = Some (JStr h)"
  "map_of (stb_source P m h spec c) ''derived_from'' = None"
  by (cases "spec_has_bug spec = Some True"; cases "bug_mechanism c";
      simp add: stb_source_def source_json_hash map_add_def)+

lemma inserted_row:
  "ex_source (insert_stb P i m h spec c ls d g) = stb_source P m h spec c"
  "ex_status (insert_stb P i m h spec c ls d g) = InReview" "\<not> human_reviewed (insert_stb P i m h spec c ls d g)"
  "ex_source (insert_trace P ps i m h spec t out g) = source_json P m h"
  "ex_status (insert_trace P ps i m h spec t out g) = InReview"
  "\<not> human_reviewed (insert_trace P ps i m h spec t out g)"
  by (simp_all add: insert_stb_def insert_trace_def new_exercise_def case_prod_beta)

lemma row_of_survivor_facts [simp]:
  "ex_status (row_of_survivor p i ps s) = InReview" "\<not> human_reviewed (row_of_survivor p i ps s)"
  "hash_of (row_of_survivor p i ps s) = Some (JStr (su_hash s))" "primary (row_of_survivor p i ps s)"
  by (cases "su_candidate s"; simp add: row_of_survivor_def Let_def inserted_row hash_of_def primary_def
      source_json_hash stb_source_hash)+

lemma ptf_row_facts [simp]:
  "ex_status (insert_predict_the_fix P i m q spec c fs a) = InReview"
  "\<not> human_reviewed (insert_predict_the_fix P i m q spec c fs a)"
  "\<not> primary (insert_predict_the_fix P i m q spec c fs a)"
  by (simp_all add: insert_predict_the_fix_def new_exercise_def primary_def ptf_source_def)

definition batch_inv :: "(exercise \<Rightarrow> bool) \<Rightarrow> exercise list \<Rightarrow> string set \<Rightarrow> batch_state \<Rightarrow> bool" where
  "batch_inv Q tbl pool b \<longleftrightarrow>
     (\<exists>new. rows b = tbl @ new \<and> pool \<subseteq> dedup_pool b \<and>
        (\<forall>r\<in>set new. ex_status r = InReview \<and> \<not> human_reviewed r \<and> Q r) \<and>
        distinct (map hash_of (filter primary new)) \<and>
        (\<forall>r\<in>set new. primary r \<longrightarrow> (\<exists>h\<in>dedup_pool b - pool. hash_of r = Some (JStr h))))"

lemma batch_inv_shelf: "shelf b' = shelf b \<Longrightarrow> batch_inv Q tbl pool b' = batch_inv Q tbl pool b"
  by (simp add: batch_inv_def shelf_def)

lemma batch_inv_ptf:
  assumes "batch_inv Q tbl pool b" and "rows b' = rows b @ [r]" and "dedup_pool b' = dedup_pool b"
    and "Q r" "ex_status r = InReview" "\<not> human_reviewed r" "\<not> primary r"
  shows "batch_inv Q tbl pool b'"
proof -
  obtain new where new: "rows b = tbl @ new" "pool \<subseteq> dedup_pool b"
      "\<forall>r\<in>set new. ex_status r = InReview \<and> \<not> human_reviewed r \<and> Q r"
      "distinct (map hash_of (filter primary new))"
      "\<forall>r\<in>set new. primary r \<longrightarrow> (\<exists>h\<in>dedup_pool b - pool. hash_of r = Some (JStr h))"
    using assms(1) by (auto simp: batch_inv_def)
  then show ?thesis
    unfolding batch_inv_def using assms(2-7) by (intro exI [of _ "new @ [r]"]) auto
qed

lemma batch_inv_primary:
  assumes inv: "batch_inv Q tbl pool b" and s: "Q (row_of_survivor p i ps s)" "su_hash s \<notin> dedup_pool b"
    and b': "rows b' = rows b @ [row_of_survivor p i ps s]" "dedup_pool b' = insert (su_hash s) (dedup_pool b)"
  shows "batch_inv Q tbl pool b'"
proof -
  let ?r = "row_of_survivor p i ps s"
  obtain new where new: "rows b = tbl @ new" "pool \<subseteq> dedup_pool b"
      "\<forall>r\<in>set new. ex_status r = InReview \<and> \<not> human_reviewed r \<and> Q r"
      "distinct (map hash_of (filter primary new))"
      "\<forall>r\<in>set new. primary r \<longrightarrow> (\<exists>h\<in>dedup_pool b - pool. hash_of r = Some (JStr h))"
    using inv by (auto simp: batch_inv_def)
  have "Q ?r" by (rule s(1))
  moreover have "hash_of ?r \<notin> hash_of ` set (filter primary new)" using new(5) s(2) by force
  ultimately show ?thesis
    unfolding batch_inv_def using new s(2) b' by (intro exI [of _ "new @ [?r]"]) auto
qed

lemma derive_ptf_inv:
  fixes i :: nat
  assumes "batch_inv Q tbl pool b" and "cleared p s" "su_candidate s = STB c"
    and Q: "\<And>r. derived_row p r \<Longrightarrow> Q r"
  defines "b' \<equiv> derive_and_publish_ptf p (su_spec s) c (su_via_repair s) i b"
  shows "batch_inv Q tbl pool b'" "gen_calls b' = gen_calls b + 1" "published b' = published b"
    "spec_exhausted b' = spec_exhausted b"
proof -
  define b1 where "b1 = bump (Total ''ptf_derivation_attempted'') b"
  obtain r m where gen: "generate_wrong_fixes (pl_replies p) (gen_reply p) (gen_calls b1) = (r, m)" by fastforce
  have m: "m = gen_calls b + 1" using gen by (simp add: generate_wrong_fixes_def b1_def)
  define b2 where "b2 = b1\<lparr>gen_calls := m\<rparr>"
  have b2: "shelf b2 = shelf b" "gen_calls b2 = gen_calls b + 1" by (simp_all add: b2_def b1_def m)
  note b' = b'_def [unfolded derive_and_publish_ptf_def Let_def, folded b1_def, unfolded gen prod.case,
      folded b2_def]
  have "batch_inv Q tbl pool b' \<and> gen_calls b' = gen_calls b + 1 \<and> published b' = published b \<and>
      spec_exhausted b' = spec_exhausted b"
  proof (cases r)
    case (Inl d)
    then have "shelf b' = shelf b" "gen_calls b' = gen_calls b + 1" using b' b2 by simp_all
    then show ?thesis using assms(1) batch_inv_shelf [of b' b] by (simp add: shelf_def)
  next
    case (Inr fs)
    let ?run = "\<lambda>n. run_code p (runs_done b2 + n)"
    show ?thesis
    proof (cases "derive_artifacts (pl_scan p) ?run (shuffle_draw p (draws_done b2)) c fs
        (line_budget_max (su_spec s))")
      case stage: (Inl stage)
      have "shelf b' = shelf b" "gen_calls b' = gen_calls b + 1"
        using b' b2 Inr stage by (simp_all add: bump_def shelf_def)
      then show ?thesis using assms(1) batch_inv_shelf [of b' b] by (simp add: shelf_def)
    next
      case a: (Inr a)
      let ?row = "insert_predict_the_fix (publish_env_of p (su_spec s) (su_via_repair s)) (next_exercise_id b2)
        (base_model p) (id_text p i) (su_spec s) c fs a"
      have eqs: "rows b' = rows b @ [?row]" "dedup_pool b' = dedup_pool b" "gen_calls b' = gen_calls b + 1"
          "published b' = published b" "spec_exhausted b' = spec_exhausted b"
        using b' b2 Inr a by (simp_all add: bump_def shelf_def)
      have "Q ?row" by (rule Q [OF derived_rowI [OF assms(2,3) a]])
      then show ?thesis using batch_inv_ptf [OF assms(1) eqs(1,2)] eqs(3-5) by simp
    qed
  qed
  then show "batch_inv Q tbl pool b'" "gen_calls b' = gen_calls b + 1" "published b' = published b"
    "spec_exhausted b' = spec_exhausted b" by simp_all
qed

lemma publish_inv:
  fixes derive :: bool
  assumes "batch_inv Q tbl pool b" and "cleared p s" "su_hash s \<notin> dedup_pool b"
    and Q: "\<And>r. survivor_row p r \<Longrightarrow> Q r" "\<And>r. derive \<Longrightarrow> derived_row p r \<Longrightarrow> Q r"
  defines "b' \<equiv> publish_survivor p derive s b"
  shows "batch_inv Q tbl pool b' \<and> gen_calls b' \<le> gen_calls b + 1 \<and>
    length (published b') = length (published b) + 1 \<and> spec_exhausted b' = spec_exhausted b"
proof -
  let ?i = "next_exercise_id b"
  define b0 where "b0 = b\<lparr>draws_done := (case su_candidate s of STB _ \<Rightarrow> draws_done b | Trace _ \<Rightarrow> draws_done b + 1),
      next_exercise_id := ?i + 1,
      rows := rows b @ [row_of_survivor p ?i (shuffle_draw p (draws_done b)) s],
      dedup_pool := insert (su_hash s) (dedup_pool b), published := published b @ [(?i, 1)]\<rparr>"
  define b1 where "b1 = bump (Total (if su_via_repair s then ''published_via_repair'' else ''published_first_try''))
      (bump (OfConcept (spec_concept (su_spec s)) ''published'') (bump (Total ''published_in_review'') b0))"
  define b2 where "b2 = (if qs_miscalibrated (su_quality s)
      then bump (Miscalibrated (spec_type (su_spec s)) (spec_concept (su_spec s)))
             (bump (Total ''difficulty_miscalibrated'') b1) else b1)"
  have "batch_inv Q tbl pool b0" by (rule batch_inv_primary [OF assms(1) Q(1) [OF survivor_rowI [OF assms(2)]] assms(3)])
    (simp_all add: b0_def)
  moreover have sh: "shelf b2 = shelf b0" "gen_calls b2 = gen_calls b0" by (simp_all add: b2_def b1_def)
  ultimately have inv2: "batch_inv Q tbl pool b2" using batch_inv_shelf by blast
  have b2: "gen_calls b2 = gen_calls b" "length (published b2) = length (published b) + 1"
      "spec_exhausted b2 = spec_exhausted b" using sh by (simp_all add: b0_def shelf_def)
  note b' = b'_def [unfolded publish_survivor_def Let_def, folded b0_def, folded b1_def, folded b2_def]
  show ?thesis
  proof (cases "su_candidate s")
    case (Trace t)
    then show ?thesis using b' inv2 b2 by simp
  next
    case (STB c)
    define b3 where "b3 = remember_mechanism (su_spec s) c b2"
    have sh3: "shelf b3 = shelf b2" "gen_calls b3 = gen_calls b2"
      by (simp_all add: b3_def remember_mechanism_def split: option.split)
    then have inv3: "batch_inv Q tbl pool b3" using inv2 batch_inv_shelf by blast
    have b3: "published b3 = published b2" "spec_exhausted b3 = spec_exhausted b2" using sh3 by (simp_all add: shelf_def)
    have "b' = b2 \<or> b' = b3 \<or> derive \<and> b' = derive_and_publish_ptf p (su_spec s) c (su_via_repair s) ?i b3"
      using b' STB by (auto simp: b3_def)
    then show ?thesis
      using inv2 inv3 b2 b3 sh3 derive_ptf_inv [OF inv3 assms(2) STB Q(2), of ?i] by auto
  qed
qed

section \<open>Specifications and batches\<close>

definition calls_per_spec :: "loop_policy \<Rightarrow> nat" where
  "calls_per_spec pol = 2 * nat (max_attempts_per_spec pol) + 1"

lemma proven_rows: "survivor_row p r \<Longrightarrow> proven p r" "derive \<Longrightarrow> derived_row p r \<Longrightarrow> proven p r"
  by (simp_all add: proven_def)

lemma run_one_ok:
  fixes derive :: bool and pol :: loop_policy and spec :: exercise_spec
  assumes "batch_inv (proven p) tbl pool b"
  defines "b' \<equiv> run_one p pol derive spec b"
  shows "batch_inv (proven p) tbl pool b' \<and> gen_calls b' \<le> gen_calls b + calls_per_spec pol \<and>
    length (published b') + length (spec_exhausted b') = Suc (length (published b) + length (spec_exhausted b))"
proof -
  define b0 where "b0 = bump (Total ''specs_sampled'') b"
  have sh0: "shelf b0 = shelf b" "gen_calls b0 = gen_calls b" by (simp_all add: b0_def)
  obtain ss u b1 where loop: "generate_loop p pol spec 0 [] b0 = (ss, u, b1)" by (metis prod_cases3)
  note L = generate_loop_ok [OF loop]
  have sh1: "shelf b1 = shelf b" using L sh0 by simp
  have "nat (u - 0) \<le> nat (max_attempts_per_spec pol)" using L by auto
  then have calls: "gen_calls b1 \<le> gen_calls b + 2 * nat (max_attempts_per_spec pol)" using L sh0 by simp
  have inv1: "batch_inv (proven p) tbl pool b1" using assms(1) sh1 batch_inv_shelf by blast
  show ?thesis
  proof (cases "max_by (\<lambda>s. qs_score (su_quality s)) ss")
    case None
    have eqs: "resolve_spec p pol derive spec b0 = (False, b1)" using None by (simp add: resolve_spec_def loop)
    have "rows b' = rows b1" "dedup_pool b' = dedup_pool b1" "published b' = published b1"
        "spec_exhausted b' = spec_exhausted b1 @ [spec]" "gen_calls b' = gen_calls b1"
      using eqs by (simp_all add: b'_def run_one_def b0_def [symmetric]) (simp_all add: bump_def)
    then show ?thesis using inv1 calls sh1 by (simp add: batch_inv_def shelf_def calls_per_spec_def)
  next
    case (Some best)
    define b2 where "b2 = count_competition ss best b1"
    have sh2: "shelf b2 = shelf b1" "gen_calls b2 = gen_calls b1"
      by (simp_all add: b2_def count_competition_def Let_def)
    have best: "cleared p best" "su_hash best \<notin> dedup_pool b2"
      using L max_by_in_set [OF Some] shelf_pool [of b2 b] shelf_pool [of b0 b] sh2 sh1 sh0 by auto
    have inv2: "batch_inv (proven p) tbl pool b2" using inv1 sh2 batch_inv_shelf by blast
    note P = publish_inv [OF inv2 best proven_rows(1) proven_rows(2) [of derive p], of derive]
    have eqs: "resolve_spec p pol derive spec b0 = (True, publish_survivor p derive best b2)"
      using Some by (simp add: resolve_spec_def loop b2_def)
    define b3 where "b3 = publish_survivor p derive best b2"
    have "shelf b' = shelf b3" "gen_calls b' = gen_calls b3"
      using eqs by (simp_all add: b'_def run_one_def b0_def [symmetric] b3_def)
    then show ?thesis
      using P calls sh2 sh1 batch_inv_shelf [of b' b3] by (simp add: b3_def [symmetric] shelf_def calls_per_spec_def)
  qed
qed

lemma run_specs_ok:
  assumes "run_specs p pol derive src i n b = Inr b'" and "batch_inv (proven p) tbl pool b"
  shows "batch_inv (proven p) tbl pool b' \<and> gen_calls b' \<le> gen_calls b + n * calls_per_spec pol \<and>
    length (published b') + length (spec_exhausted b') = n + length (published b) + length (spec_exhausted b)"
  using assms
proof (induction p pol derive src i n b rule: run_specs.induct)
  case (2 p pol derive src i n b)
  obtain spec where spec: "next_spec src i b = Inr spec"
    and run: "run_specs p pol derive src (Suc i) n (run_one p pol derive spec b) = Inr b'"
    using 2(2) by (auto split: sum.splits)
  note one = run_one_ok [OF 2(3), of pol derive spec]
  show ?case using 2(1) [OF spec run] one by simp
qed auto

lemma start_batch_inv:
  "batch_inv Q tbl (fetch_dedup_pool_hashes tbl) (start_batch tbl i sh cd)"
  by (simp add: batch_inv_def start_batch_def)

section \<open>Published rows fit the grader\<close>

lemma stb_row_fits:
  fixes spec :: exercise_spec
  assumes "spec_type spec = ''spot_the_bug''"
    and "validate_answer_shape ''spot_the_bug'' answer = Inr ()"
  shows "is_ok (grade_deterministic (insert_stb P i m h spec c ls d g) answer) \<and>
    is_ok (build_reveal (insert_stb P i m h spec c ls d g))"
proof
  let ?r = "insert_stb P i m h spec c ls d g"
  have ty: "ex_type ?r = ''spot_the_bug''" by (simp add: insert_stb_def new_exercise_def assms(1))
  have "get (ex_grading ?r) ''correct_lines'' (JArr []) = JArr (map JInt ls)"
    by (simp add: insert_stb_def new_exercise_def stb_grading_def get_def)
  from validated_answers_are_graded [OF assms(2) [folded ty] this]
  obtain v where "grade_deterministic ?r answer = Inr v" by blast
  then show "is_ok (grade_deterministic ?r answer)" by simp
  show "is_ok (build_reveal ?r)"
    using assms(1) by (simp add: build_reveal_def insert_stb_def new_exercise_def stb_grading_def get_def
        finalize_stb_explanation_def list_of_def entries_def has_fields_def keys_def case_prod_beta)
qed

lemma choice_rows_fit:
  fixes r :: exercise
  assumes "ex_type r \<in> {''trace'', ''predict_the_fix''}" and "map_of (ex_grading r) ''correct_lines'' = None"
    and "validate_answer_shape (ex_type r) answer = Inr ()"
  shows "is_ok (grade_deterministic r answer)"
proof -
  have "get (ex_grading r) ''correct_lines'' (JArr []) = JArr []" using assms(2) by (simp add: get_def)
  from validated_answers_are_graded [OF assms(3) this]
  obtain v where "grade_deterministic r answer = Inr v" by blast
  then show ?thesis by simp
qed

lemma notes_are_entries [simp]:
  "entries {k, l} (JArr (map (\<lambda>(i, t). JObj [(k, f i), (l, g t)]) xs)) =
     Inr (map (\<lambda>(i, t). JObj [(k, f i), (l, g t)]) xs)"
  by (auto simp: entries_def list_of_def has_fields_def keys_def)

lemma trace_row_fits:
  fixes spec :: exercise_spec and P :: publish_env
  assumes "spec_type spec \<noteq> ''spot_the_bug''"
    and "validate_answer_shape (ex_type (insert_trace P ps i m h spec t out g)) answer = Inr ()"
  shows "is_ok (grade_deterministic (insert_trace P ps i m h spec t out g) answer) \<and>
    is_ok (build_reveal (insert_trace P ps i m h spec t out g))"
proof -
  let ?r = "insert_trace P ps i m h spec t out g"
  have ty: "ex_type ?r = spec_type spec" by (simp add: insert_trace_def new_exercise_def case_prod_beta)
  have in': "ex_type ?r \<in> {''trace'', ''predict_the_fix''}"
    using assms ty by (auto simp: validate_answer_shape_def split: if_splits)
  have "map_of (ex_grading ?r) ''correct_lines'' = None"
    by (simp add: insert_trace_def new_exercise_def case_prod_beta trace_grading_def)
  then show ?thesis
    using choice_rows_fit [OF in' _ assms(2)] in' ty
    by (auto simp: build_reveal_def insert_trace_def new_exercise_def case_prod_beta get_def Let_def
        finalize_trace_explanation_def notes_are_entries [unfolded case_prod_beta])
qed

lemma ptf_row_fits:
  fixes spec :: exercise_spec and P :: publish_env
  assumes "validate_answer_shape ''predict_the_fix'' answer = Inr ()"
  shows "is_ok (grade_deterministic (insert_predict_the_fix P i m q spec c fs a) answer) \<and>
    is_ok (build_reveal (insert_predict_the_fix P i m q spec c fs a))"
  using choice_rows_fit [of "insert_predict_the_fix P i m q spec c fs a" answer] assms
  by (simp add: insert_predict_the_fix_def new_exercise_def ptf_grading_def ptf_explanation_def get_def
      build_reveal_def)

lemma proven_row_fits:
  fixes r :: exercise
  assumes "proven p r" and "validate_answer_shape (ex_type r) answer = Inr ()"
  shows "is_ok (grade_deterministic r answer) \<and> is_ok (build_reveal r)"
  using assms(1) unfolding proven_def survivor_row_def derived_row_def
proof (elim disjE exE conjE)
  fix s i ps assume s: "cleared p s" and r: "r = row_of_survivor p i ps s"
  have kind: "of_kind (spec_type (su_spec s)) (su_candidate s)" using s by (simp add: cleared_def)
  show ?thesis
  proof (cases "su_candidate s")
    case (STB c)
    then have ty: "spec_type (su_spec s) = ''spot_the_bug''" using kind by (simp add: of_kind_def)
    have "ex_type r = ''spot_the_bug''"
      by (simp add: r row_of_survivor_def STB Let_def insert_stb_def new_exercise_def ty)
    then show ?thesis using stb_row_fits [OF ty] assms(2) by (simp add: r row_of_survivor_def STB Let_def)
  next
    case (Trace t)
    then have "spec_type (su_spec s) \<noteq> ''spot_the_bug''" using kind by (simp add: of_kind_def)
    then show ?thesis using trace_row_fits assms(2) by (simp add: r row_of_survivor_def Trace Let_def)
  qed
next
  fix s c i parent fs k ps a
  assume r: "r = insert_predict_the_fix (publish_env_of p (su_spec s) (su_via_repair s)) i (base_model p)
     (id_text p parent) (su_spec s) c fs a"
  have "ex_type r = ''predict_the_fix''" by (simp add: r insert_predict_the_fix_def new_exercise_def)
  then show ?thesis using ptf_row_fits assms(2) by (simp add: r)
qed

section \<open>A concrete batch\<close>

text \<open>A generator that always sends the sample trace, and a judge that always agrees with its key.\<close>

definition sample_pipeline :: pipeline where
  "sample_pipeline = \<lparr>
     pl_replies = \<lparr>loads = (\<lambda>_. Some (JObj [])), stb_shape = (\<lambda>_. None),
       trace_shape = (\<lambda>_. Some sample_trace), fixes_shape = (\<lambda>_. None)\<rparr>,
     pl_judge = \<lparr>judge_loads = (\<lambda>_. Some (JObj [])), audit_shape = (\<lambda>_. None),
       solver_shape = (\<lambda>_. Some \<lparr>sv_answer = \<lparr>sa_line = None, sa_reason = None, sa_choice = Some ''a''\<rparr>,
         sv_confidence = 1, sv_problems = []\<rparr>), reasons_shape = (\<lambda>_. None)\<rparr>,
     pl_scan = sample_scan, pl_publish = sample_publish_env, gen_reply = (\<lambda>_. []), judge_reply = (\<lambda>_. []),
     run_code = printing ''6'', shuffle_draw = (\<lambda>_. [2, 0, 3, 1]), content_hash_of = (\<lambda>s. s),
     base_model = ''m'', stb_model = None, id_text = (\<lambda>_. ''i''), pl_template = (\<lambda>_ _. ''t'')\<rparr>"

text \<open>The same with a generator whose replies are never JSON.\<close>

definition silent_pipeline :: pipeline where
  "silent_pipeline = sample_pipeline\<lparr>pl_replies := (pl_replies sample_pipeline)\<lparr>loads := (\<lambda>_. None)\<rparr>\<rparr>"

definition batch_of_one :: "pipeline \<Rightarrow> batch_state result" where
  "batch_of_one p = run_batch p default_policy True (GivenSpecs [sample_trace_spec]) True True 1 [] 7"

lemma sample_batch_result:
  "map_sum id (\<lambda>b. map ex_type (rows b)) (batch_of_one sample_pipeline) = Inr [''trace'']"
  by code_simp

lemma silent_batch_result:
  "map_sum id gen_calls (batch_of_one silent_pipeline) = Inr 6"
  by code_simp

lemma sample_batch: "\<exists>b. batch_of_one sample_pipeline = Inr b \<and> length (rows b) = 1 \<and> map ex_type (rows b) = [''trace'']"
  using sample_batch_result by (cases "batch_of_one sample_pipeline") auto

lemma silent_batch: "\<exists>b. batch_of_one silent_pipeline = Inr b \<and> gen_calls b = 6"
  using silent_batch_result by (cases "batch_of_one silent_pipeline") auto

text \<open>
  C33: Nothing a batch adds to the table of exercises is unproven. The rows a batch appends are in
  review, not yet reviewed by a human, and each of them is either the row of a candidate that the
  static gate found clean, the sandbox gate accepted and every semantic gate let pass, or the row of
  a \<open>predict_the_fix\<close> derived by execution from such a candidate.
\<close>

theorem batch_publishes_only_proven_exercises:
  assumes "run_batch p pol derive src sh cd n tbl i = Inr b'"
  shows "\<exists>new. rows b' = tbl @ new \<and>
    (\<forall>r\<in>set new. ex_status r = InReview \<and> \<not> human_reviewed r \<and> proven p r)"
  using run_specs_ok [OF assms [unfolded run_batch_def] start_batch_inv] by (auto simp: batch_inv_def)

lemma batch_publishes_only_proven_exercises_witness:
  "\<exists>(b :: batch_state) r. batch_of_one sample_pipeline = Inr b \<and> rows b = [r] \<and> ex_status r = InReview \<and>
     proven sample_pipeline r"
proof -
  obtain b where b: "batch_of_one sample_pipeline = Inr b" "length (rows b) = 1" using sample_batch by blast
  from batch_publishes_only_proven_exercises [OF b(1) [unfolded batch_of_one_def]] b
  show ?thesis by (fastforce simp: length_Suc_conv)
qed

text \<open>
  C34: A batch does not repeat itself or the corpus: the content hashes of the primary rows it adds are
  pairwise different, and none of them is the hash of an exercise that was live or in review before.
\<close>

theorem batch_adds_no_duplicates:
  assumes "run_batch p pol derive src sh cd n tbl i = Inr b'"
  shows "\<exists>new. rows b' = tbl @ new \<and> distinct (map hash_of (filter primary new)) \<and>
    (\<forall>r\<in>set new. primary r \<longrightarrow>
       (\<exists>h. hash_of r = Some (JStr h) \<and> h \<notin> fetch_dedup_pool_hashes tbl))"
  using run_specs_ok [OF assms [unfolded run_batch_def] start_batch_inv] by (fastforce simp: batch_inv_def)

lemma batch_adds_no_duplicates_witness:
  "\<exists>b :: batch_state. batch_of_one sample_pipeline = Inr b \<and> length (rows b) = 1 \<and>
     distinct (map hash_of (filter primary (rows b)))"
proof -
  obtain b where b: "batch_of_one sample_pipeline = Inr b" "length (rows b) = 1" using sample_batch by blast
  from batch_adds_no_duplicates [OF b(1) [unfolded batch_of_one_def]] b show ?thesis by auto
qed





end
