(* ===== verification/Ingest_Props.thy ===== *)
theory Ingest_Props
  imports Ingest Batch_Props
begin

text \<open>
  Hand-written content passes the gates of sampled content, and a repeated backfill derives nothing
  twice.
\<close>

section \<open>Loaded items\<close>

definition item_ok :: "ingest_item \<Rightarrow> bool" where
  "item_ok x \<longleftrightarrow>
     spec_type (fst x) = ''spot_the_bug'' \<and> spec_concept (fst x) \<in> set stb_concept_slugs \<and>
     1 \<le> spec_difficulty (fst x) \<and> spec_difficulty (fst x) \<le> 10 \<and> schema_ok (STB (snd x))"

lemma load_items_set:
  "load_items f js = Inr (xs, n) \<Longrightarrow>
     set xs = {x. \<exists>j\<in>set js. f j = Inr (Some x)} \<and> length xs + n = length js"
  by (induction js arbitrary: xs n) (auto split: sum.splits prod.splits option.splits)

lemma build_spec_ok:
  "build_spec pr raw = Inr spec \<Longrightarrow>
     spec_type spec = ''spot_the_bug'' \<and> spec_concept spec \<in> set stb_concept_slugs \<and>
     1 \<le> spec_difficulty spec \<and> spec_difficulty spec \<le> 10"
  by (auto simp: build_spec_def concept_in_def difficulty_in_def split: json.splits if_splits sum.splits option.splits)

lemma load_item_ok: "load_item pr V j = Inr (Some x) \<Longrightarrow> item_ok x"
  by (auto simp: load_item_def parse_item_def item_ok_def model_validate_def schema_ok_def
      Option.bind_eq_Some_conv dest!: build_spec_ok
      split: if_splits sum.splits option.splits pipeline_candidate.splits)

lemma loaded_items_ok:
  assumes "load_batch pr V raw = Inr (items, n)"
  shows "(\<forall>x\<in>set items. item_ok x) \<and> (\<exists>js. raw = JArr js \<and> length items + n = length js)"
  using assms load_items_set [of "load_item pr V"] load_item_ok
  by (fastforce simp: load_batch_def split: json.splits)

section \<open>One item\<close>

lemma stages_relabelled:
  "sandbox_stage (as_author p) = sandbox_stage p" "sandbox_stage (as_deriver p) = sandbox_stage p"
  "semantic_stage (as_author p) = semantic_stage p" "semantic_stage (as_deriver p) = semantic_stage p"
  by (intro ext; simp add: as_deriver_def as_author_def sandbox_stage_def semantic_stage_def
      split: pipeline_candidate.split)+

lemma cleared_relabelled: "cleared (as_author p) s = cleared p s" "cleared (as_deriver p) s = cleared p s"
  by (simp_all add: cleared_def stages_relabelled) (simp_all add: as_author_def as_deriver_def)

text \<open>A row made by the author's environment from a cleared candidate, or derived from one by execution.\<close>

definition hand_row :: "pipeline \<Rightarrow> exercise \<Rightarrow> bool" where
  "hand_row p r \<longleftrightarrow> survivor_row (as_author p) r \<or> derived_row (as_deriver p) r"

lemma publish_handauthored_inv:
  fixes derive :: bool
  assumes "batch_inv (hand_row p) tbl pool b" and "cleared (as_author p) s" "su_hash s \<notin> dedup_pool b"
  defines "b' \<equiv> publish_handauthored p derive s b"
  shows "batch_inv (hand_row p) tbl pool b' \<and>
    length (published b') = length (published b) + 1 \<and> spec_exhausted b' = spec_exhausted b"
proof -
  define b1 where "b1 = publish_survivor (as_author p) False s b"
  have 1: "batch_inv (hand_row p) tbl pool b1 \<and> length (published b1) = length (published b) + 1 \<and>
      spec_exhausted b1 = spec_exhausted b"
    unfolding b1_def
    using publish_inv [OF assms(1-3), of False] by (simp add: hand_row_def)
  show ?thesis
  proof (cases "su_candidate s")
    case (Trace t)
    then show ?thesis using 1 by (simp add: b'_def publish_handauthored_def b1_def)
  next
    case (STB c)
    have cl: "cleared (as_deriver p) s" using assms(2) by (simp add: cleared_relabelled)
    have "derived_row (as_deriver p) r \<Longrightarrow> hand_row p r" for r by (simp add: hand_row_def)
    note D = derive_ptf_inv [OF conjunct1 [OF 1] cl STB this, of "next_exercise_id b"]
    have "b' = b1 \<or> b' = derive_and_publish_ptf (as_deriver p) (su_spec s) c (su_via_repair s) (next_exercise_id b) b1"
      by (simp add: b'_def publish_handauthored_def STB b1_def Let_def)
    then show ?thesis using 1 D by auto
  qed
qed

lemma ingest_one_inv:
  assumes "batch_inv (hand_row p) tbl pool b" and "item_ok x"
  shows "batch_inv (hand_row p) tbl pool (ingest_one p derive x b) \<and>
    length (published (ingest_one p derive x b)) + length (spec_exhausted (ingest_one p derive x b)) =
      Suc (length (published b) + length (spec_exhausted b))"
proof -
  obtain spec c where x: "x = (spec, c)" by (cases x)
  define b0 where "b0 = bump (Total ''specs_sampled'') b"
  obtain r b1 where ev: "evaluate_candidate (as_author p) spec (STB c) b0 = (r, b1)" by fastforce
  note E = evaluate_ok [OF ev]
  have sh: "shelf b1 = shelf b" using E(1) by (simp add: b0_def)
  then have inv: "batch_inv (hand_row p) tbl pool b1" using assms(1) batch_inv_shelf by blast
  have n: "published b1 = published b" "spec_exhausted b1 = spec_exhausted b" using sh by (simp_all add: shelf_def)
  show ?thesis
  proof (cases r)
    case (Inl rej)
    define b2 where "b2 = bump (OfConcept (spec_concept spec) ''exhausted'')
      (record_reject spec (rj_stage rej) (STB c) b1)"
    have s2: "shelf b2 = shelf b1" by (simp add: b2_def)
    have "ingest_one p derive x b = b2\<lparr>spec_exhausted := spec_exhausted b2 @ [spec]\<rparr>"
      using ev by (simp add: ingest_one_def x b0_def Inl b2_def Let_def)
    then show ?thesis using inv s2 n by (simp add: batch_inv_def shelf_def)
  next
    case (Inr s)
    have "of_kind (spec_type spec) (STB c)" using assms(2) by (simp add: of_kind_def item_ok_def x)
    then have cl: "cleared (as_author p) s" "su_hash s \<notin> dedup_pool b1"
      using E(3) [OF Inr] sh by (auto simp: shelf_def b0_def)
    have "ingest_one p derive x b = publish_handauthored p derive s b1"
      using ev by (simp add: ingest_one_def x b0_def Inr)
    then show ?thesis using publish_handauthored_inv [OF inv cl, of derive] n by simp
  qed
qed

lemma ingest_fold_inv:
  assumes "\<forall>x\<in>set items. item_ok x" and "batch_inv (hand_row p) tbl pool b"
  shows "batch_inv (hand_row p) tbl pool (fold (ingest_one p derive) items b) \<and>
    length (published (fold (ingest_one p derive) items b)) +
      length (spec_exhausted (fold (ingest_one p derive) items b)) =
      length items + length (published b) + length (spec_exhausted b)"
  using assms
proof (induction items arbitrary: b)
  case (Cons x xs)
  have "item_ok x" "\<forall>y\<in>set xs. item_ok y" using Cons.prems(1) by simp_all
  from Cons.IH [OF this(2) conjunct1 [OF ingest_one_inv [OF Cons.prems(2) this(1), of derive]]]
    ingest_one_inv [OF Cons.prems(2) this(1), of derive]
  show ?case by simp
qed simp

section \<open>Provenance\<close>

lemma survivor_origin:
  "get (ex_source (row_of_survivor p i ps s)) ''origin'' JNull = JStr (origin (pl_publish p))"
  by (cases "su_candidate s") (simp_all add: row_of_survivor_def Let_def inserted_row stb_source_def source_json_def
      get_def publish_env_of_def)

lemma derived_origin:
  "get (ex_source (insert_predict_the_fix (publish_env_of p spec v) i m q spec' c fs a)) ''origin'' JNull =
     JStr (origin (pl_publish p))"
  by (simp add: insert_predict_the_fix_def new_exercise_def ptf_source_def get_def publish_env_of_def)

lemma hand_row_origin:
  assumes "hand_row p r"
  shows "get (ex_source r) ''origin'' JNull = JStr (if primary r then hand_origin else ''llm'')"
  using assms unfolding hand_row_def survivor_row_def derived_row_def
  by (auto simp: survivor_origin derived_origin as_author_def as_deriver_def)

section \<open>Hand-written candidates\<close>

definition hand_stb :: stb_candidate where
  "hand_stb = sample_stb\<lparr>buggy_code := concat (replicate 10 [CHR ''a'', CHR 10]) @ ''b'',
                         fixed_code := concat (replicate 10 [CHR ''a'', CHR 10]) @ ''c''\<rparr>"

definition hand_pipeline :: pipeline where
  "hand_pipeline = sample_pipeline\<lparr>
     pl_replies := (pl_replies sample_pipeline)\<lparr>stb_shape := (\<lambda>_. Some hand_stb),
                      fixes_shape := (\<lambda>_. Some sample_variants)\<rparr>,
     pl_judge := \<lparr>judge_loads = (\<lambda>_. Some (JObj [])),
       audit_shape = (\<lambda>_. Some [\<lparr>df_lines = [11], df_description = [], df_exposed_by = []\<rparr>]),
       solver_shape = (\<lambda>_. Some \<lparr>sv_answer = \<lparr>sa_line = Some 11, sa_reason = Some ''a'', sa_choice = None\<rparr>,
         sv_confidence = 1, sv_problems = []\<rparr>),
       reasons_shape = (\<lambda>_. Some [(''a'', ''correct'')])\<rparr>,
     run_code := sample_run\<rparr>"

definition hand_batch :: json where
  "hand_batch = JArr
     [JObj [(''prompt_template_id'', JStr ''handauthored_stb_v1''), (''candidate'', JObj []),
            (''spec'', JObj [(''type'', JStr ''spot_the_bug''), (''concept'', JStr ''off-by-one''),
                             (''difficulty'', JInt 2), (''has_bug'', JBool True)])],
      JObj [(''prompt_template_id'', JStr ''other'')]]"

definition hand_spec :: exercise_spec where
  "hand_spec = \<lparr>spec_type = ''spot_the_bug'', spec_concept = ''off-by-one'', spec_difficulty = 2,
     spec_domain = ''hand-authored exercise'', line_budget_min = 10, line_budget_max = 20,
     spec_has_bug = Some True, avoid_patterns = []\<rparr>"

lemma known_concept: "''off-by-one'' \<in> set stb_concept_slugs" by code_simp

lemma hand_batch_loads: "load_batch (\<lambda>_. []) (pl_replies hand_pipeline) hand_batch = Inr ([(hand_spec, hand_stb)], 1)"
proof -
  have "stb_fields_ok hand_stb \<and> divergence_ok hand_stb" by code_simp
  then show ?thesis
  using known_concept
  by (simp add: load_batch_def hand_batch_def load_item_def parse_item_def item_get_def get_def hand_template_def
      build_spec_def keys_def concept_in_def difficulty_in_def hand_spec_def line_budget_for_difficulty_def
      model_validate_def hand_pipeline_def is_load_error_def load_error_def is_object_def)
qed

lemma hand_gate:
  "gr_accepted (validate_spot_the_bug sample_run hand_stb True) \<and>
   verified_bug_lines (validate_spot_the_bug sample_run hand_stb True) = Some [11]"
  by code_simp

lemma hand_judged: "so_survived (fst (run_stb_semantic_gates (pl_judge hand_pipeline) (\<lambda>_. []) n hand_stb True [11]))"
  by code_simp

lemma hand_static: "static_gate_check sample_scan (STB hand_stb) hand_spec = []" by code_simp

lemma hand_evaluates:
  assumes "dedup_pool b = {}"
  shows "\<exists>s b1. evaluate_candidate (as_author hand_pipeline) hand_spec (STB hand_stb) b = (Inr s, b1)"
proof -
  have r: "(\<lambda>i. run_code hand_pipeline (n + i)) = sample_run" for n
    by (intro ext) (simp add: hand_pipeline_def sample_run_def)
  have j: "judge_reply hand_pipeline = (\<lambda>_. [])" by (simp add: hand_pipeline_def sample_pipeline_def)
  have sc: "pl_scan (as_author hand_pipeline) = sample_scan"
    by (simp add: as_author_def hand_pipeline_def sample_pipeline_def)
  have h: "has_bug_of hand_spec" by (simp add: has_bug_of_def hand_spec_def)
  have k: "key_lines (validate_spot_the_bug sample_run hand_stb True) = [11]" using hand_gate by (simp add: key_lines_def)
  show ?thesis
    using assms unfolding evaluate_candidate_def sc hand_static stages_relabelled
    by (cases "bug_lines_claim_mismatch (validate_spot_the_bug sample_run hand_stb True)")
       (simp_all add: sandbox_stage_def r h hand_gate Let_def semantic_stage_def j k case_prod_beta bump_def hand_judged)
qed

lemma survivor_published:
  "length (rows (publish_handauthored p False s b)) = Suc (length (rows b))"
  by (simp add: publish_handauthored_def publish_survivor_def remember_mechanism_def Let_def bump_def
      split: pipeline_candidate.split option.split)




section \<open>The backfill\<close>

definition backfilled :: "pipeline \<Rightarrow> exercise list \<Rightarrow> exercise \<Rightarrow> bool" where
  "backfilled p tbl r \<longleftrightarrow>
     (\<exists>e c fs k ps a i. e \<in> set tbl \<and> ex_type e = ''spot_the_bug'' \<and> (ex_status e = InReview \<or> ex_status e = Live) \<and>
        build_stb_view e = Inr c \<and>
        derive_artifacts (pl_scan p) (\<lambda>n. run_code p (k + n)) ps c fs
          (snd (line_budget_for_difficulty (ex_difficulty_authored e))) = Inr a \<and>
        r = backfill_row p i e c fs a)"

lemma backfill_row_facts [simp]:
  "ex_type (backfill_row p i e c fs a) = ''predict_the_fix''" "ex_status (backfill_row p i e c fs a) = InReview"
  "\<not> human_reviewed (backfill_row p i e c fs a)"
  "derived_from k v (backfill_row p i e c fs a) \<longleftrightarrow> uuid_str (ex_id e) = uuid_str k \<and> int (ex_version e) = v"
  by (simp_all add: backfill_row_def new_exercise_def Let_def derived_from_def ptf_source_def get_def names_version_def)

definition derived_count :: "nat \<Rightarrow> int \<Rightarrow> exercise list \<Rightarrow> nat" where
  "derived_count k v tbl = length (filter (derived_from k v) tbl)"

definition backfill_inv :: "pipeline \<Rightarrow> exercise list \<Rightarrow> exercise list \<Rightarrow> bool" where
  "backfill_inv p tbl rs \<longleftrightarrow>
     (\<exists>new. rs = tbl @ new \<and> (\<forall>r\<in>set new. backfilled p tbl r)) \<and>
     (\<forall>k v. derived_count k v rs \<le> max 1 (derived_count k v tbl))"

lemma backfilled_facts:
  "backfilled p tbl r \<Longrightarrow> ex_type r = ''predict_the_fix'' \<and> ex_status r = InReview \<and> \<not> human_reviewed r"
  by (auto simp: backfilled_def)

lemma rows_bump [simp]: "rows (bump k b) = rows b"
  by (simp add: bump_def)

lemma backfill_add:
  assumes inv: "backfill_inv p tbl rs" and e: "e \<in> set rs" "ex_type e = ''spot_the_bug''"
      "ex_status e = InReview \<or> ex_status e = Live"
    and none: "\<not> derived_ptf_exists rs (ex_id e) (int (ex_version e))"
    and r: "build_stb_view e = Inr c"
      "derive_artifacts (pl_scan p) (\<lambda>n. run_code p (k + n)) ps c fs
         (snd (line_budget_for_difficulty (ex_difficulty_authored e))) = Inr a"
  shows "backfill_inv p tbl (rs @ [backfill_row p i e c fs a])"
proof -
  let ?r = "backfill_row p i e c fs a"
  obtain new where new: "rs = tbl @ new" "\<forall>r\<in>set new. backfilled p tbl r"
    using inv by (auto simp: backfill_inv_def)
  have "e \<notin> set new" using new(2) e(2) backfilled_facts by fastforce
  then have "e \<in> set tbl" using e(1) new(1) by simp
  then have "backfilled p tbl ?r" using e(2,3) r unfolding backfilled_def by blast
  moreover have "derived_count k v (rs @ [?r]) \<le> max 1 (derived_count k v tbl)" for k v
  proof (cases "derived_from k v ?r")
    case True
    then have "uuid_str (ex_id e) = uuid_str k" "int (ex_version e) = v" by simp_all
    then have "derived_from k v x = derived_from (ex_id e) (int (ex_version e)) x" for x
      by (simp add: derived_from_def cong: json.case_cong)
    then have "derived_count k v rs = 0" using none by (simp add: derived_count_def derived_ptf_exists_def)
    then show ?thesis by (simp add: derived_count_def)
  next
    case False
    then show ?thesis using inv by (auto simp: derived_count_def backfill_inv_def)
  qed
  ultimately show ?thesis unfolding backfill_inv_def using new by (auto intro!: exI [of _ "new @ [?r]"])
qed

lemma fetched:
  "fetch_stb_for_ptf_derivation tbl i v = Some e \<Longrightarrow>
     e \<in> set tbl \<and> ex_id e = i \<and> int (ex_version e) = v \<and> ex_type e = ''spot_the_bug'' \<and>
     (ex_status e = InReview \<or> ex_status e = Live)"
  by (auto simp: fetch_stb_for_ptf_derivation_def find_Some_iff split: option.splits if_splits)

lemma backfill_one_inv:
  assumes "backfill_inv p tbl (rows b)" and "backfill_one p x b = Inr b'"
  shows "backfill_inv p tbl (rows b')"
proof -
  obtain i v fs where x: "x = (i, v, fs)" by (cases x)
  show ?thesis
  proof (cases "fetch_stb_for_ptf_derivation (rows b) i v")
    case None
    then show ?thesis using assms by (auto simp: backfill_one_def x Let_def)
  next
    case (Some e)
    note e = fetched [OF Some]
    show ?thesis
    proof (cases "derived_ptf_exists (rows b) i v \<or> \<not> is_ok (build_stb_view e)")
      case True
      then show ?thesis
        using assms Some by (auto simp: backfill_one_def x Let_def is_ok_def split: if_splits sum.splits)
    next
      case False
      then obtain c where c: "build_stb_view e = Inr c" by (cases "build_stb_view e") auto
      define b1 where "b1 = bump (Total ''ptf_derivation_attempted'') (bump (Total ''specs_sampled'') b)"
      have b': "b' = backfill_derive p e c fs (bump (Total ''specs_sampled'') b)"
        using assms(2) Some False c by (auto simp: backfill_one_def x Let_def)
      have budget: "line_budget_max (backfill_spec e) = snd (line_budget_for_difficulty (ex_difficulty_authored e))"
        by (simp add: backfill_spec_def)
      have "\<not> derived_ptf_exists (rows b) (ex_id e) (int (ex_version e))" using False e by simp
      note add = backfill_add [OF assms(1) _ _ _ this c, of "runs_done b1"]
      show ?thesis
        using assms(1) add e
        by (auto simp: b' backfill_derive_def Let_def budget b1_def split: sum.splits)
    qed
  qed
qed

lemma backfill_items_inv:
  "backfill_items p xs b = Inr b' \<Longrightarrow> backfill_inv p tbl (rows b) \<Longrightarrow> backfill_inv p tbl (rows b')"
  by (induction xs arbitrary: b) (auto split: sum.splits dest: backfill_one_inv)

text \<open>
  C38: The backfill derives from what is in circulation, and once. Every row it adds is in review and
  unreviewed, and was derived by execution from a \<open>spot_the_bug\<close> row of the table that is in
  review or live; for each version of each exercise, the table afterwards holds no second derived
  exercise that it did not hold before, however often the item is repeated in the file.
\<close>

theorem backfill_derives_once:
  assumes "ptf_ingest_batch p items tbl i = Inr b'"
  shows "\<exists>new. rows b' = tbl @ new \<and>
    (\<forall>r\<in>set new. ex_status r = InReview \<and> \<not> human_reviewed r \<and> backfilled p tbl r) \<and>
    (\<forall>k v. length (filter (derived_from k v) (rows b')) \<le> max 1 (length (filter (derived_from k v) tbl)))"
proof -
  have "backfill_inv p tbl (rows (start_batch tbl i False False))"
    by (simp add: backfill_inv_def start_batch_def derived_count_def)
  from backfill_items_inv [OF assms [unfolded ptf_ingest_batch_def] this] show ?thesis
    using backfilled_facts by (fastforce simp: backfill_inv_def derived_count_def)
qed

definition sample_parent :: exercise where
  "sample_parent = insert_stb sample_publish_env 5 ''m'' ''h''
     \<lparr>spec_type = ''spot_the_bug'', spec_concept = ''off-by-one'', spec_difficulty = 2, spec_domain = [],
      line_budget_min = 10, line_budget_max = 20, spec_has_bug = Some True, avoid_patterns = []\<rparr>
     sample_stb [2] None (validate_spot_the_bug sample_run sample_stb True)"

lemma sample_parent_view:
  "build_stb_view sample_parent = Inr (stb_view sample_parent (buggy_code sample_stb) (fixed_code sample_stb) ''t'' [] [] [])"
  by (simp add: build_stb_view_def sample_parent_def insert_stb_def new_exercise_def stb_grading_def stb_payload_def
      finalize_stb_explanation_def get_def text_field_def sample_stb_def)

lemma derive_artifacts_view:
  "derive_artifacts scan run ps (stb_view e (buggy_code c) (fixed_code c) (test_code c) n q z) fs m =
     derive_artifacts scan run ps c fs m"
  by (simp add: derive_artifacts_def stb_view_def)

lemma sample_parent_facts [simp]:
  "ex_id sample_parent = 5" "ex_version sample_parent = 1" "ex_type sample_parent = ''spot_the_bug''"
  "ex_status sample_parent = InReview" "ex_difficulty_authored sample_parent = 2"
  by (simp_all add: sample_parent_def insert_stb_def new_exercise_def)

definition backfill_pipeline :: pipeline where
  "backfill_pipeline = hand_pipeline\<lparr>shuffle_draw := (\<lambda>_. [1, 0, 3, 2])\<rparr>"

text \<open>The same item twice: the second is skipped.\<close>

lemma sample_backfill:
  "\<exists>(b :: batch_state) r. ptf_ingest_batch backfill_pipeline [(5, 1, sample_variants), (5, 1, sample_variants)]
     [sample_parent] 7 = Inr b \<and> rows b = [sample_parent, r]"
proof -
  obtain a where "derive_artifacts sample_scan sample_run [1, 0, 3, 2] sample_stb sample_variants 20 = Inr a"
    using sample_derived by blast
  moreover have "test_code sample_stb = ''t''" by (simp add: sample_stb_def)
  ultimately have a: "derive_artifacts sample_scan sample_run [1, 0, 3, 2]
      (stb_view sample_parent (buggy_code sample_stb) (fixed_code sample_stb) ''t'' [] [] []) sample_variants 20 = Inr a"
    using derive_artifacts_view [of sample_scan sample_run "[1, 0, 3, 2]" sample_parent sample_stb] by simp
  have env: "pl_scan backfill_pipeline = sample_scan" "shuffle_draw backfill_pipeline n = [1, 0, 3, 2]"
      "(\<lambda>i. run_code backfill_pipeline (m + i)) = sample_run" for n m
    by (simp_all add: backfill_pipeline_def hand_pipeline_def sample_pipeline_def sample_run_def [abs_def])
  have none: "\<not> derived_from 5 1 sample_parent" by (simp add: derived_from_def)
  show ?thesis
    by (simp add: ptf_ingest_batch_def backfill_one_def Let_def start_batch_def fetch_stb_for_ptf_derivation_def
        derived_ptf_exists_def none sample_parent_view backfill_derive_def backfill_spec_def
        line_budget_for_difficulty_def env a bump_def del: One_nat_def)
qed

theorem backfill_derives_once_witness:
  "\<exists>(b :: batch_state) r. ptf_ingest_batch backfill_pipeline [(5, 1, sample_variants), (5, 1, sample_variants)]
     [sample_parent] 7 = Inr b \<and> rows b = [sample_parent, r] \<and> backfilled backfill_pipeline [sample_parent] r"
proof -
  obtain b r where b: "ptf_ingest_batch backfill_pipeline [(5, 1, sample_variants), (5, 1, sample_variants)]
     [sample_parent] 7 = Inr b" "rows b = [sample_parent, r]"
    using sample_backfill by blast
  from backfill_derives_once [OF b(1)] b(2) have "backfilled backfill_pipeline [sample_parent] r" by auto
  with b show ?thesis by blast
qed

end
