(* ===== verification/Spec2Isabelle.thy ===== *)
theory Spec2Isabelle
  imports Streak_Props Mastery Sampler_Props Rubric Store_Props Submit_Props Notify Verify_Props Auth_Props Grading_Jobs_Props Partitions Jobs_Runner Users_Props Session_View_Props App_Props Ingest_Props
begin

text \<open>
  Root of the development.
\<close>

end
